theory Spec2Isabelle
  imports Complex_Main "HOL-Library.Multiset"
begin

section \<open>Array entries\<close>

text \<open>
  An entry of a numpy float64 array. A finite entry is carried as the exact real it
  denotes: rounding, overflow and the sign of zero are outside this model. NaN and
  the two infinities are kept, because the engineer branches on them.
\<close>

datatype npfloat = Val real | PInf | NInf | NaN

datatype error =
  ValueError | IndexError | KeyError | AttributeError | AssertionError | ZeroDivisionError

fun isnan :: "npfloat \<Rightarrow> bool" where
  "isnan NaN = True"
| "isnan _ = False"

fun isfinite :: "npfloat \<Rightarrow> bool" where
  "isfinite (Val a) = True"
| "isfinite _ = False"

fun fneg :: "npfloat \<Rightarrow> npfloat" where
  "fneg (Val a) = Val (- a)"
| "fneg PInf = NInf"
| "fneg NInf = PInf"
| "fneg NaN = NaN"

fun fadd :: "npfloat \<Rightarrow> npfloat \<Rightarrow> npfloat" where
  "fadd (Val a) (Val b) = Val (a + b)"
| "fadd NaN _ = NaN"
| "fadd _ NaN = NaN"
| "fadd PInf NInf = NaN"
| "fadd NInf PInf = NaN"
| "fadd PInf _ = PInf"
| "fadd _ PInf = PInf"
| "fadd NInf _ = NInf"
| "fadd _ NInf = NInf"

definition fsub :: "npfloat \<Rightarrow> npfloat \<Rightarrow> npfloat" where
  "fsub x y = fadd x (fneg y)"

fun fmul :: "npfloat \<Rightarrow> npfloat \<Rightarrow> npfloat" where
  "fmul (Val a) (Val b) = Val (a * b)"
| "fmul NaN _ = NaN"
| "fmul _ NaN = NaN"
| "fmul (Val a) PInf = (if a = 0 then NaN else if 0 < a then PInf else NInf)"
| "fmul (Val a) NInf = (if a = 0 then NaN else if 0 < a then NInf else PInf)"
| "fmul PInf (Val b) = (if b = 0 then NaN else if 0 < b then PInf else NInf)"
| "fmul NInf (Val b) = (if b = 0 then NaN else if 0 < b then NInf else PInf)"
| "fmul PInf PInf = PInf"
| "fmul PInf NInf = NInf"
| "fmul NInf PInf = NInf"
| "fmul NInf NInf = PInf"

text \<open>
  numpy's true division: a finite value over zero is an infinity (or NaN for 0/0) with
  a warning, never an exception.
\<close>

fun fdiv :: "npfloat \<Rightarrow> npfloat \<Rightarrow> npfloat" where
  "fdiv (Val a) (Val b) =
     (if b \<noteq> 0 then Val (a / b) else if a = 0 then NaN else if 0 < a then PInf else NInf)"
| "fdiv NaN _ = NaN"
| "fdiv _ NaN = NaN"
| "fdiv (Val a) PInf = Val 0"
| "fdiv (Val a) NInf = Val 0"
| "fdiv PInf (Val b) = (if 0 \<le> b then PInf else NInf)"
| "fdiv NInf (Val b) = (if 0 \<le> b then NInf else PInf)"
| "fdiv _ _ = NaN"

fun fsqrt :: "npfloat \<Rightarrow> npfloat" where
  "fsqrt (Val a) = (if 0 \<le> a then Val (sqrt a) else NaN)"
| "fsqrt PInf = PInf"
| "fsqrt NInf = NaN"
| "fsqrt NaN = NaN"

fun fabs :: "npfloat \<Rightarrow> npfloat" where
  "fabs (Val a) = Val \<bar>a\<bar>"
| "fabs PInf = PInf"
| "fabs NInf = PInf"
| "fabs NaN = NaN"

text \<open>The comparison \<open>x < y\<close>: false as soon as one side is NaN.\<close>

fun flt :: "npfloat \<Rightarrow> npfloat \<Rightarrow> bool" where
  "flt NaN _ = False"
| "flt _ NaN = False"
| "flt (Val a) (Val b) = (a < b)"
| "flt NInf NInf = False"
| "flt NInf _ = True"
| "flt _ NInf = False"
| "flt PInf _ = False"
| "flt _ PInf = True"

text \<open>The largest finite float64, which \<open>np.nan_to_num\<close> puts in place of an infinity.\<close>

definition float_max :: real where
  "float_max = (2 - 1 / 2 ^ 52) * 2 ^ 1023"

text \<open>\<open>np.nan_to_num(x, nan=m)\<close> on one entry.\<close>

fun nan_to_num :: "npfloat \<Rightarrow> npfloat \<Rightarrow> npfloat" where
  "nan_to_num NaN m = m"
| "nan_to_num PInf m = Val float_max"
| "nan_to_num NInf m = Val (- float_max)"
| "nan_to_num (Val a) m = Val a"

section \<open>Arrays\<close>

text \<open>
  The arrays the engineer handles, with the shape numpy keeps beside the data:
  \<open>Arr2 b rows\<close> has shape \<open>[length rows, b]\<close> (timesteps, bands),
  \<open>Arr3 t b pix\<close> has shape \<open>[length pix, t, b]\<close> (pixels, timesteps, bands), and
  \<open>Arr1\<close> stands for a rank the transforms refuse.
\<close>

datatype ndarray =
    Arr1 "npfloat list"
  | Arr2 nat "npfloat list list"
  | Arr3 nat nat "npfloat list list list"

fun valid :: "ndarray \<Rightarrow> bool" where
  "valid (Arr1 xs) = True"
| "valid (Arr2 b rows) = list_all (\<lambda>r. length r = b) rows"
| "valid (Arr3 t b pix) =
     list_all (\<lambda>p. length p = t \<and> list_all (\<lambda>r. length r = b) p) pix"

fun num_dims :: "ndarray \<Rightarrow> nat" where
  "num_dims (Arr1 xs) = 1"
| "num_dims (Arr2 b rows) = 2"
| "num_dims (Arr3 t b pix) = 3"

text \<open>The length of the last axis.\<close>

fun last_axis :: "ndarray \<Rightarrow> nat" where
  "last_axis (Arr1 xs) = length xs"
| "last_axis (Arr2 b rows) = b"
| "last_axis (Arr3 t b pix) = b"

fun shape :: "ndarray \<Rightarrow> nat list" where
  "shape (Arr1 xs) = [length xs]"
| "shape (Arr2 b rows) = [length rows, b]"
| "shape (Arr3 t b pix) = [length pix, t, b]"

text \<open>Every series (row of bands) of the array.\<close>

fun series :: "ndarray \<Rightarrow> npfloat list list" where
  "series (Arr1 xs) = [xs]"
| "series (Arr2 b rows) = rows"
| "series (Arr3 t b pix) = concat pix"

section \<open>Band catalog\<close>

text \<open>
  \<open>DYNAMIC_BANDS\<close> and \<open>STATIC_BANDS\<close> come from \<open>cropharvest.eo\<close>; every
  definition below takes them as parameters.
\<close>

definition REMOVED_BANDS :: "string list" where
  "REMOVED_BANDS = [''B1'', ''B10'']"

definition RAW_BANDS :: "string list \<Rightarrow> string list \<Rightarrow> string list" where
  "RAW_BANDS DYNAMIC_BANDS STATIC_BANDS = DYNAMIC_BANDS @ STATIC_BANDS"

definition BANDS :: "string list \<Rightarrow> string list \<Rightarrow> string list" where
  "BANDS DYNAMIC_BANDS STATIC_BANDS =
     filter (\<lambda>x. x \<notin> set REMOVED_BANDS) DYNAMIC_BANDS @ STATIC_BANDS @ [''NDVI'']"

text \<open>Python's \<open>list.index\<close>: the first position of the value, or ValueError.\<close>

fun list_index :: "'a list \<Rightarrow> 'a \<Rightarrow> error + nat" where
  "list_index [] v = Inl ValueError"
| "list_index (x # xs) v =
     (if x = v then Inr 0
      else (case list_index xs v of Inl e \<Rightarrow> Inl e | Inr i \<Rightarrow> Inr (Suc i)))"

section \<open>Band transforms\<close>

text \<open>
  One entry of \<open>np.where(b1 + b2 > 0, (b1 - b2) / (b1 + b2), 0)\<close>. numpy computes
  the quotient everywhere and \<open>where\<close> picks it only under the condition.
\<close>

definition ndvi_value :: "npfloat \<Rightarrow> npfloat \<Rightarrow> npfloat" where
  "ndvi_value band_1 band_2 =
     (if flt (Val 0) (fadd band_1 band_2)
      then fdiv (fsub band_1 band_2) (fadd band_1 band_2)
      else Val 0)"

definition append_ndvi :: "nat \<Rightarrow> nat \<Rightarrow> npfloat list \<Rightarrow> npfloat list" where
  "append_ndvi i1 i2 r = r @ [ndvi_value (r ! i1) (r ! i2)]"

fun calculate_ndvi :: "string list \<Rightarrow> string list \<Rightarrow> ndarray \<Rightarrow> error + ndarray" where
  "calculate_ndvi DYNAMIC_BANDS STATIC_BANDS (Arr2 b rows) =
     (case list_index (BANDS DYNAMIC_BANDS STATIC_BANDS) ''B8'' of
        Inl e \<Rightarrow> Inl e
      | Inr i1 \<Rightarrow>
          if b \<le> i1 then Inl IndexError
          else (case list_index (BANDS DYNAMIC_BANDS STATIC_BANDS) ''B4'' of
                  Inl e \<Rightarrow> Inl e
                | Inr i2 \<Rightarrow>
                    if b \<le> i2 then Inl IndexError
                    else Inr (Arr2 (Suc b) (map (append_ndvi i1 i2) rows))))"
| "calculate_ndvi DYNAMIC_BANDS STATIC_BANDS (Arr3 t b pix) =
     (case list_index (BANDS DYNAMIC_BANDS STATIC_BANDS) ''B8'' of
        Inl e \<Rightarrow> Inl e
      | Inr i1 \<Rightarrow>
          if b \<le> i1 then Inl IndexError
          else (case list_index (BANDS DYNAMIC_BANDS STATIC_BANDS) ''B4'' of
                  Inl e \<Rightarrow> Inl e
                | Inr i2 \<Rightarrow>
                    if b \<le> i2 then Inl IndexError
                    else Inr (Arr3 t (Suc b) (map (map (append_ndvi i1 i2)) pix))))"
| "calculate_ndvi DYNAMIC_BANDS STATIC_BANDS (Arr1 xs) = Inl ValueError"

text \<open>The loop of \<open>remove_bands\<close> that collects \<open>RAW_BANDS.index(band)\<close>.\<close>

fun indices_to_remove :: "string list \<Rightarrow> string list \<Rightarrow> error + nat list" where
  "indices_to_remove raw [] = Inr []"
| "indices_to_remove raw (band # bands) =
     (case list_index raw band of
        Inl e \<Rightarrow> Inl e
      | Inr i \<Rightarrow>
          (case indices_to_remove raw bands of
             Inl e \<Rightarrow> Inl e
           | Inr is \<Rightarrow> Inr (i # is)))"

definition indices_to_keep :: "nat \<Rightarrow> nat list \<Rightarrow> nat list" where
  "indices_to_keep b rem = filter (\<lambda>i. i \<notin> set rem) [0..<b]"

definition take_bands :: "nat list \<Rightarrow> npfloat list \<Rightarrow> npfloat list" where
  "take_bands keep r = map (\<lambda>i. r ! i) keep"

fun remove_bands :: "string list \<Rightarrow> string list \<Rightarrow> ndarray \<Rightarrow> error + ndarray" where
  "remove_bands DYNAMIC_BANDS STATIC_BANDS (Arr1 xs) = Inl ValueError"
| "remove_bands DYNAMIC_BANDS STATIC_BANDS (Arr2 b rows) =
     (case indices_to_remove (RAW_BANDS DYNAMIC_BANDS STATIC_BANDS) REMOVED_BANDS of
        Inl e \<Rightarrow> Inl e
      | Inr rem \<Rightarrow>
          Inr (Arr2 (length (indices_to_keep b rem))
                 (map (take_bands (indices_to_keep b rem)) rows)))"
| "remove_bands DYNAMIC_BANDS STATIC_BANDS (Arr3 t b pix) =
     (case indices_to_remove (RAW_BANDS DYNAMIC_BANDS STATIC_BANDS) REMOVED_BANDS of
        Inl e \<Rightarrow> Inl e
      | Inr rem \<Rightarrow>
          Inr (Arr3 t (length (indices_to_keep b rem))
                 (map (map (take_bands (indices_to_keep b rem))) pix)))"

text \<open>
  \<open>np.nanmean\<close> along one axis: NaN entries count as 0 in the sum and are left out of
  the count; a slice with no other entry gives 0/0, which is NaN.
\<close>

definition nanmean :: "npfloat list \<Rightarrow> npfloat" where
  "nanmean xs =
     fdiv (foldl fadd (Val 0) (map (\<lambda>x. if isnan x then Val 0 else x) xs))
          (Val (real (length (filter (\<lambda>x. \<not> isnan x) xs))))"

text \<open>The band \<open>i\<close> of a rank-2 array along the time axis.\<close>

definition column :: "nat \<Rightarrow> npfloat list list \<Rightarrow> npfloat list" where
  "column i rows = map (\<lambda>r. r ! i) rows"

text \<open>\<open>np.nanmean(array, axis=0)\<close> on a rank-2 array.\<close>

definition mean_per_band2 :: "nat \<Rightarrow> npfloat list list \<Rightarrow> npfloat list" where
  "mean_per_band2 b rows = map (\<lambda>i. nanmean (column i rows)) [0..<b]"

text \<open>
  \<open>np.nanmean(np.nanmean(array, axis=0), axis=0)\<close> on a rank-3 array: first over
  the pixels, for each timestep and band, then over the timesteps.
\<close>

definition mean_per_band3 :: "nat \<Rightarrow> nat \<Rightarrow> npfloat list list list \<Rightarrow> npfloat list" where
  "mean_per_band3 t b pix =
     mean_per_band2 b (map (\<lambda>ti. map (\<lambda>i. nanmean (map (\<lambda>p. p ! ti ! i) pix)) [0..<b]) [0..<t])"

text \<open>
  The branch of \<open>fillna\<close> on a NaN among the band means. Both operands of \<open>&\<close>
  are evaluated, so \<open>BANDS.index("slope")\<close> is looked up in any case; the count of NaN
  means is compared with \<open>bands_index\<close>.
\<close>

definition slope_fallback ::
  "string list \<Rightarrow> string list \<Rightarrow> nat \<Rightarrow> npfloat list \<Rightarrow> npfloat
     \<Rightarrow> error + npfloat list option" where
  "slope_fallback DYNAMIC_BANDS STATIC_BANDS bands_index mean_per_band average_slope =
     (if list_ex isnan mean_per_band
      then (case list_index (BANDS DYNAMIC_BANDS STATIC_BANDS) ''slope'' of
              Inl e \<Rightarrow> Inl e
            | Inr k \<Rightarrow>
                if length (filter isnan mean_per_band) = bands_index \<and> isnan (mean_per_band ! k)
                then (if list_ex isnan (mean_per_band[k := average_slope])
                      then Inl AssertionError
                      else Inr (Some (mean_per_band[k := average_slope])))
                else Inr None)
      else Inr (Some mean_per_band))"

text \<open>The loop over the bands, on one series.\<close>

definition fill_series :: "nat \<Rightarrow> npfloat list \<Rightarrow> npfloat list \<Rightarrow> npfloat list" where
  "fill_series b mean_per_band r = map (\<lambda>i. nan_to_num (r ! i) (mean_per_band ! i)) [0..<b]"

fun fillna ::
  "string list \<Rightarrow> string list \<Rightarrow> ndarray \<Rightarrow> npfloat \<Rightarrow> error + ndarray option" where
  "fillna DYNAMIC_BANDS STATIC_BANDS (Arr1 xs) average_slope = Inl ValueError"
| "fillna DYNAMIC_BANDS STATIC_BANDS (Arr2 b rows) average_slope =
     (if b \<noteq> length (BANDS DYNAMIC_BANDS STATIC_BANDS) then Inl AssertionError
      else (case slope_fallback DYNAMIC_BANDS STATIC_BANDS 1 (mean_per_band2 b rows)
                   average_slope of
              Inl e \<Rightarrow> Inl e
            | Inr None \<Rightarrow> Inr None
            | Inr (Some m) \<Rightarrow> Inr (Some (Arr2 b (map (fill_series b m) rows)))))"
| "fillna DYNAMIC_BANDS STATIC_BANDS (Arr3 t b pix) average_slope =
     (if b \<noteq> length (BANDS DYNAMIC_BANDS STATIC_BANDS) then Inl AssertionError
      else (case slope_fallback DYNAMIC_BANDS STATIC_BANDS 2 (mean_per_band3 t b pix)
                   average_slope of
              Inl e \<Rightarrow> Inl e
            | Inr None \<Rightarrow> Inr None
            | Inr (Some m) \<Rightarrow> Inr (Some (Arr3 t b (map (map (fill_series b m)) pix)))))"

section \<open>Nearest coordinate\<close>

text \<open>
  \<open>np.argmin\<close> over a one-dimensional array: the first position of the least entry,
  where a NaN counts as least; ValueError on an empty array. \<open>argmin_from\<close> scans
  with the best position and entry so far.
\<close>

fun argmin_from :: "nat \<Rightarrow> npfloat \<Rightarrow> nat \<Rightarrow> npfloat list \<Rightarrow> nat" where
  "argmin_from bi bv i [] = bi"
| "argmin_from bi bv i (x # xs) =
     (if isnan bv then bi
      else if isnan x \<or> flt x bv then argmin_from i x (Suc i) xs
      else argmin_from bi bv (Suc i) xs)"

fun argmin :: "npfloat list \<Rightarrow> error + nat" where
  "argmin [] = Inl ValueError"
| "argmin (x # xs) = Inr (argmin_from 0 x 1 xs)"

definition find_nearest :: "npfloat list \<Rightarrow> npfloat \<Rightarrow> error + npfloat" where
  "find_nearest array v =
     (case argmin (map (\<lambda>a. fabs (fsub a v)) array) of
        Inl e \<Rightarrow> Inl e
      | Inr idx \<Rightarrow> Inr (array ! idx))"

text \<open>
  The two calls of \<open>process_single_file\<close>: the longitude is snapped on the x axis and
  the latitude on the y axis.
\<close>

definition closest_lon_lat ::
  "npfloat list \<Rightarrow> npfloat list \<Rightarrow> npfloat \<Rightarrow> npfloat \<Rightarrow> error + (npfloat \<times> npfloat)" where
  "closest_lon_lat da_x da_y lon lat =
     (case find_nearest da_x lon of
        Inl e \<Rightarrow> Inl e
      | Inr closest_lon \<Rightarrow>
          (case find_nearest da_y lat of
             Inl e \<Rightarrow> Inl e
           | Inr closest_lat \<Rightarrow> Inr (closest_lon, closest_lat)))"

section \<open>Labels of a test instance\<close>

text \<open>
  \<open>rasterio.mask.raster_geometry_mask(src, geoms, crop=False)\<close> is a library call. Its
  result is modelled by what \<open>process_test_file\<close> relies on: a grid of the raster's
  height and width that is True outside the shapes and False inside. A geometry is the
  list of the (row, column) pixels it covers. What the library does with an empty list
  of shapes is not modelled: the properties below are stated for lists that are not
  empty.
\<close>

type_synonym geometry = "(nat \<times> nat) list"

definition raster_geometry_mask :: "nat \<Rightarrow> nat \<Rightarrow> geometry list \<Rightarrow> bool list list" where
  "raster_geometry_mask height width geoms =
     map (\<lambda>r. map (\<lambda>c. \<not> list_ex (\<lambda>g. (r, c) \<in> set g) geoms) [0..<width]) [0..<height]"

definition MISSING_DATA :: int where
  "MISSING_DATA = - 1"

text \<open>\<open>y[mask] = v\<close>: assignment under a boolean mask of the same length.\<close>

definition assign_where :: "int list \<Rightarrow> bool list \<Rightarrow> int \<Rightarrow> int list" where
  "assign_where y m v = map2 (\<lambda>yi mi. if mi then v else yi) y m"

text \<open>
  The label vector of \<open>process_test_file\<close>, from the two masks. Both index masks are
  taken from the sum before either assignment is made.
\<close>

definition label_vector :: "bool list list \<Rightarrow> bool list list \<Rightarrow> int list" where
  "label_vector positive_mask negative_mask =
     (let positive = map (\<lambda>b. if \<not> b then 1 else 0) (concat positive_mask);
          negative = map (\<lambda>b. (if \<not> b then 1 else 0) * (- 1)) (concat negative_mask);
          y = map2 (+) positive negative;
          negative_idx = map (\<lambda>v. v = - 1) y;
          missing_idx = map (\<lambda>v. v = 0) y;
          y1 = assign_where y negative_idx 0;
          y2 = assign_where y1 missing_idx MISSING_DATA
      in y2)"

text \<open>
  The end of \<open>process_test_file\<close>: the label vector, and the assertion that it is as
  long as the first axis of \<open>x_np\<close>, which is what \<open>fillna\<close> has returned and has
  no shape when that is None.
\<close>

definition process_test_file_y ::
  "nat \<Rightarrow> nat \<Rightarrow> geometry list \<Rightarrow> geometry list \<Rightarrow> ndarray option \<Rightarrow> error + int list" where
  "process_test_file_y height width positive_geoms negative_geoms x_np =
     (case x_np of
        None \<Rightarrow> Inl AttributeError
      | Some x \<Rightarrow>
          if length (label_vector (raster_geometry_mask height width positive_geoms)
                                  (raster_geometry_mask height width negative_geoms))
               = hd (shape x)
          then Inr (label_vector (raster_geometry_mask height width positive_geoms)
                                 (raster_geometry_mask height width negative_geoms))
          else Inl AssertionError)"

text \<open>Whether some geometry of the list covers the pixel.\<close>

definition inside :: "geometry list \<Rightarrow> nat \<Rightarrow> nat \<Rightarrow> bool" where
  "inside geoms r c = list_ex (\<lambda>g. (r, c) \<in> set g) geoms"

section \<open>Online normalizer\<close>

text \<open>
  An elementwise operation of numpy on two one-dimensional arrays: equal lengths pair
  up, a side of length one is broadcast, anything else is a ValueError.
\<close>

definition broadcast ::
  "(npfloat \<Rightarrow> npfloat \<Rightarrow> npfloat) \<Rightarrow> npfloat list \<Rightarrow> npfloat list \<Rightarrow> error + npfloat list" where
  "broadcast f xs ys =
     (if length xs = length ys then Inr (map2 f xs ys)
      else if length xs = 1 then Inr (map (f (hd xs)) ys)
      else if length ys = 1 then Inr (map (\<lambda>x. f x (hd ys)) xs)
      else Inl ValueError)"

text \<open>The in-place form \<open>xs += ys\<close>: the result keeps the shape of \<open>xs\<close>.\<close>

definition inplace ::
  "(npfloat \<Rightarrow> npfloat \<Rightarrow> npfloat) \<Rightarrow> npfloat list \<Rightarrow> npfloat list \<Rightarrow> error + npfloat list" where
  "inplace f xs ys =
     (if length ys = length xs then Inr (map2 f xs ys)
      else if length ys = 1 then Inr (map (\<lambda>x. f x (hd ys)) xs)
      else Inl ValueError)"

text \<open>
  The dictionary \<open>norm_interim\<close>: the key \<open>n\<close>, and the keys \<open>mean\<close> and \<open>M2\<close>,
  which are created together and so are present together or not at all.
\<close>

record norm_interim =
  n_rows :: int
  mean_M2 :: "(npfloat list \<times> npfloat list) option"

text \<open>What \<open>Engineer.__init__\<close> stores: \<open>{"n": 0}\<close>.\<close>

definition norm_interim_init :: norm_interim where
  "norm_interim_init = \<lparr>n_rows = 0, mean_M2 = None\<rparr>"

definition initialize :: "norm_interim \<Rightarrow> nat \<Rightarrow> norm_interim" where
  "initialize ni num_bands =
     (case mean_M2 ni of
        None \<Rightarrow> ni\<lparr>mean_M2 := Some (replicate num_bands (Val 0), replicate num_bands (Val 0))\<rparr>
      | Some v \<Rightarrow> ni)"

text \<open>
  One pass of the loop of \<open>update_normalizing_values\<close>, on the row \<open>x\<close>. An exception
  leaves the loop; the state it leaves behind is not part of the result.
\<close>

definition fold_row :: "norm_interim \<Rightarrow> npfloat list \<Rightarrow> error + norm_interim" where
  "fold_row ni x =
     (case mean_M2 ni of
        None \<Rightarrow> Inl KeyError
      | Some (m, M2) \<Rightarrow>
          (case broadcast fsub x m of
             Inl e \<Rightarrow> Inl e
           | Inr delta \<Rightarrow>
               (case inplace fadd m (map (\<lambda>d. fdiv d (Val (real_of_int (n_rows ni + 1)))) delta) of
                  Inl e \<Rightarrow> Inl e
                | Inr m' \<Rightarrow>
                    (case broadcast fsub x m' of
                       Inl e \<Rightarrow> Inl e
                     | Inr d2 \<Rightarrow>
                         (case broadcast fmul delta d2 of
                            Inl e \<Rightarrow> Inl e
                          | Inr p \<Rightarrow>
                              (case inplace fadd M2 p of
                                 Inl e \<Rightarrow> Inl e
                               | Inr M2' \<Rightarrow>
                                   Inr \<lparr>n_rows = n_rows ni + 1,
                                        mean_M2 = Some (m', M2')\<rparr>))))))"

fun fold_rows :: "norm_interim \<Rightarrow> npfloat list list \<Rightarrow> error + norm_interim" where
  "fold_rows ni [] = Inr ni"
| "fold_rows ni (x # xs) =
     (case fold_row ni x of Inl e \<Rightarrow> Inl e | Inr ni' \<Rightarrow> fold_rows ni' xs)"

text \<open>
  \<open>update_normalizing_values\<close>. It reads \<open>array.shape[1]\<close>, which a rank-1 array
  does not have. A slice \<open>array[i, :]\<close> of a rank-3 array has rank 2 and cannot be
  added in place to the rank-1 mean, so only a rank-3 array with no slice passes.
\<close>

fun update_normalizing_values :: "norm_interim \<Rightarrow> ndarray \<Rightarrow> error + norm_interim" where
  "update_normalizing_values ni (Arr1 xs) = Inl IndexError"
| "update_normalizing_values ni (Arr2 b rows) = fold_rows (initialize ni b) rows"
| "update_normalizing_values ni (Arr3 t b pix) =
     (if pix = [] then Inr (initialize ni t) else Inl ValueError)"

record normalizing_dict =
  mean :: "npfloat list"
  std :: "npfloat list"

definition calculate_normalizing_dict :: "norm_interim \<Rightarrow> normalizing_dict option" where
  "calculate_normalizing_dict ni =
     (case mean_M2 ni of
        None \<Rightarrow> None
      | Some (m, M2) \<Rightarrow>
          Some \<lparr>mean = m,
                std = map (\<lambda>v. fsqrt (fdiv v (Val (real_of_int (n_rows ni - 1))))) M2\<rparr>)"

text \<open>
  Python's \<open>sum\<close> of a list of arrays. It starts from the integer 0: \<open>None\<close> stands
  for that integer, which is still the result when the list is empty.
\<close>

fun py_sum_from :: "npfloat list option \<Rightarrow> npfloat list list \<Rightarrow> error + npfloat list option" where
  "py_sum_from acc [] = Inr acc"
| "py_sum_from None (x # xs) = py_sum_from (Some (map (fadd (Val 0)) x)) xs"
| "py_sum_from (Some a) (x # xs) =
     (case broadcast fadd a x of Inl e \<Rightarrow> Inl e | Inr a' \<Rightarrow> py_sum_from (Some a') xs)"

definition py_sum :: "npfloat list list \<Rightarrow> error + npfloat list option" where
  "py_sum xs = py_sum_from None xs"

text \<open>
  The quotient \<open>sum(...) / new_total\<close>. On an array numpy divides entry by entry. The
  sum is the integer 0 only for an empty list of pairs, whose \<open>new_total\<close> is the
  integer 0 as well, and Python's integer division raises.
\<close>

definition over_total :: "npfloat list option \<Rightarrow> int \<Rightarrow> error + npfloat list" where
  "over_total s new_total =
     (case s of
        None \<Rightarrow> Inl ZeroDivisionError
      | Some a \<Rightarrow> Inr (map (\<lambda>v. fdiv v (Val (real_of_int new_total))) a))"

text \<open>One term \<open>(std ** 2 + (mean - new_mean) ** 2) * length\<close> of the second sum.\<close>

definition variance_term :: "npfloat list \<Rightarrow> int \<times> normalizing_dict \<Rightarrow> error + npfloat list" where
  "variance_term new_mean ld =
     (case broadcast fsub (mean (snd ld)) new_mean of
        Inl e \<Rightarrow> Inl e
      | Inr d \<Rightarrow>
          (case broadcast fadd (map (\<lambda>v. fmul v v) (std (snd ld))) (map (\<lambda>v. fmul v v) d) of
             Inl e \<Rightarrow> Inl e
           | Inr t \<Rightarrow> Inr (map (\<lambda>v. fmul v (Val (real_of_int (fst ld)))) t)))"

fun variance_terms ::
  "npfloat list \<Rightarrow> (int \<times> normalizing_dict) list \<Rightarrow> error + npfloat list list" where
  "variance_terms new_mean [] = Inr []"
| "variance_terms new_mean (ld # lds) =
     (case variance_term new_mean ld of
        Inl e \<Rightarrow> Inl e
      | Inr t \<Rightarrow>
          (case variance_terms new_mean lds of
             Inl e \<Rightarrow> Inl e
           | Inr ts \<Rightarrow> Inr (t # ts)))"

definition adjust_normalizing_dict ::
  "(int \<times> normalizing_dict option) list \<Rightarrow> error + normalizing_dict option" where
  "adjust_normalizing_dict dicts =
     (if list_ex (\<lambda>ld. snd ld = None) dicts then Inr None
      else
        (let ds = map (\<lambda>ld. (fst ld, the (snd ld))) dicts;
             new_total = sum_list (map fst ds)
         in case py_sum (map (\<lambda>ld. map (\<lambda>v. fmul v (Val (real_of_int (fst ld)))) (mean (snd ld))) ds) of
              Inl e \<Rightarrow> Inl e
            | Inr s1 \<Rightarrow>
                (case over_total s1 new_total of
                   Inl e \<Rightarrow> Inl e
                 | Inr new_mean \<Rightarrow>
                     (case variance_terms new_mean ds of
                        Inl e \<Rightarrow> Inl e
                      | Inr ts \<Rightarrow>
                          (case py_sum ts of
                             Inl e \<Rightarrow> Inl e
                           | Inr s2 \<Rightarrow>
                               (case over_total s2 new_total of
                                  Inl e \<Rightarrow> Inl e
                                | Inr new_variance \<Rightarrow>
                                    Inr (Some \<lparr>mean = new_mean,
                                               std = map fsqrt new_variance\<rparr>)))))))"

section \<open>Training instances and the dataset run\<close>

















section \<open>The normalizer on finite entries\<close>

text \<open>
  The results on the normalizer are stated for arrays whose entries are all finite.
  Such an array is a list of real rows under \<open>Val\<close>, and the definitions of this
  section are the recurrences and sums that the code then computes, written on the reals:
  they are what the properties below compare the code with.
\<close>

definition vadd :: "real list \<Rightarrow> real list \<Rightarrow> real list" where
  "vadd xs ys = map2 (+) xs ys"

definition vsub :: "real list \<Rightarrow> real list \<Rightarrow> real list" where
  "vsub xs ys = map2 (-) xs ys"

definition vmul :: "real list \<Rightarrow> real list \<Rightarrow> real list" where
  "vmul xs ys = map2 (*) xs ys"

definition vdiv :: "real list \<Rightarrow> real \<Rightarrow> real list" where
  "vdiv xs c = map (\<lambda>d. d / c) xs"

text \<open>
  One row folded into the count, the mean and \<open>M2\<close> (Welford's recurrence, with the
  second factor taken at the updated mean), and the fold of a list of rows from the
  empty state.
\<close>

definition welford_step :: "nat \<times> real list \<times> real list \<Rightarrow> real list \<Rightarrow> nat \<times> real list \<times> real list" where
  "welford_step st x =
     (case st of (k, m, M2) \<Rightarrow>
        (k + 1,
         vadd m (vdiv (vsub x m) (real (k + 1))),
         vadd M2 (vmul (vsub x m) (vsub x (vadd m (vdiv (vsub x m) (real (k + 1))))))))"

definition welford :: "nat \<Rightarrow> real list list \<Rightarrow> nat \<times> real list \<times> real list" where
  "welford b rows = foldl welford_step (0, replicate b 0, replicate b 0) rows"

definition lift_interim :: "nat \<times> real list \<times> real list \<Rightarrow> norm_interim" where
  "lift_interim st =
     (case st of (k, m, M2) \<Rightarrow> \<lparr>n_rows = int k, mean_M2 = Some (map Val m, map Val M2)\<rparr>)"

text \<open>The sum, and the sum of squares, of the band \<open>j\<close> over the rows.\<close>

definition col_sum :: "real list list \<Rightarrow> nat \<Rightarrow> real" where
  "col_sum rows j = sum_list (map (\<lambda>x. x ! j) rows)"

definition col_sum_sq :: "real list list \<Rightarrow> nat \<Rightarrow> real" where
  "col_sum_sq rows j = sum_list (map (\<lambda>x. (x ! j)\<^sup>2) rows)"

text \<open>
  The mean of each band over a list of rows, and the standard deviation of each band
  with the divisor \<open>n - 1\<close>.
\<close>

definition rows_mean :: "nat \<Rightarrow> real list list \<Rightarrow> real list" where
  "rows_mean b rows = map (\<lambda>j. col_sum rows j / real (length rows)) [0..<b]"

definition rows_std :: "nat \<Rightarrow> real list list \<Rightarrow> real list" where
  "rows_std b rows =
     map (\<lambda>j. sqrt ((col_sum_sq rows j - real (length rows) * (rows_mean b rows ! j)\<^sup>2)
                    / (real (length rows) - 1))) [0..<b]"

text \<open>
  What the fold keeps true: the count is the number of rows, the count times the mean is
  the sum, and \<open>M2\<close> is the sum of squares less the count times the squared mean.
\<close>

definition welford_inv :: "nat \<Rightarrow> real list list \<Rightarrow> nat \<times> real list \<times> real list \<Rightarrow> bool" where
  "welford_inv b rows st =
     (case st of (k, m, M2) \<Rightarrow>
        k = length rows \<and> length m = b \<and> length M2 = b
      \<and> (\<forall>j<b. real k * m ! j = col_sum rows j
               \<and> M2 ! j = col_sum_sq rows j - real k * (m ! j)\<^sup>2
               \<and> 0 \<le> M2 ! j))"

text \<open>
  A pair \<open>(count, stats)\<close> with finite statistics is a count with a mean vector and a
  std vector. The count-weighted average of the means, and the count-weighted average of
  \<open>std\<^sup>2 + (mean - merged mean)\<^sup>2\<close>, band by band:
\<close>

definition lift_dict :: "int \<times> real list \<times> real list \<Rightarrow> int \<times> normalizing_dict option" where
  "lift_dict cd = (fst cd, Some \<lparr>mean = map Val (fst (snd cd)), std = map Val (snd (snd cd))\<rparr>)"

definition unlift :: "int \<times> normalizing_dict option \<Rightarrow> int \<times> normalizing_dict" where
  "unlift ld = (fst ld, the (snd ld))"

definition total_count :: "(int \<times> real list \<times> real list) list \<Rightarrow> int" where
  "total_count rds = sum_list (map fst rds)"

definition weighted_mean :: "(int \<times> real list \<times> real list) list \<Rightarrow> nat \<Rightarrow> real" where
  "weighted_mean rds j =
     sum_list (map (\<lambda>cd. fst (snd cd) ! j * real_of_int (fst cd)) rds)
       / real_of_int (total_count rds)"

definition weighted_variance :: "(int \<times> real list \<times> real list) list \<Rightarrow> nat \<Rightarrow> real" where
  "weighted_variance rds j =
     sum_list (map (\<lambda>cd. ((snd (snd cd) ! j)\<^sup>2 + (fst (snd cd) ! j - weighted_mean rds j)\<^sup>2)
                            * real_of_int (fst cd)) rds)
       / real_of_int (total_count rds)"

text \<open>The terms of the two sums of \<open>adjust_normalizing_dict\<close>, and a sum band by band.\<close>

definition scaled_mean :: "int \<times> real list \<times> real list \<Rightarrow> real list" where
  "scaled_mean cd = map (\<lambda>v. v * real_of_int (fst cd)) (fst (snd cd))"

definition var_term :: "real list \<Rightarrow> int \<times> real list \<times> real list \<Rightarrow> real list" where
  "var_term nm cd =
     map (\<lambda>v. v * real_of_int (fst cd))
       (vadd (map (\<lambda>v. v * v) (snd (snd cd))) (map (\<lambda>v. v * v) (vsub (fst (snd cd)) nm)))"

definition vsum :: "nat \<Rightarrow> real list list \<Rightarrow> real list" where
  "vsum b vs = map (\<lambda>j. sum_list (map (\<lambda>v. v ! j) vs)) [0..<b]"

section \<open>A concrete catalog\<close>

text \<open>
  The catalog of the CropHarvest release: Sentinel-1, Sentinel-2 and ERA5 bands per
  timestep, then the two SRTM bands. It instantiates the parameters in the examples;
  no general statement depends on it.
\<close>

definition eo_DYNAMIC_BANDS :: "string list" where
  "eo_DYNAMIC_BANDS =
     [''VV'', ''VH'', ''B1'', ''B2'', ''B3'', ''B4'', ''B5'', ''B6'', ''B7'', ''B8'', ''B8A'',
      ''B9'', ''B10'', ''B11'', ''B12'', ''temperature_2m'', ''total_precipitation'']"

definition eo_STATIC_BANDS :: "string list" where
  "eo_STATIC_BANDS = [''elevation'', ''slope'']"

section \<open>A concrete run\<close>

text \<open>
  A small catalog and three raw files. The raw file 7 cannot even be loaded. The one
  pixel of the raw file 8 has an all-NaN slope band and an average slope of 5. The one
  pixel of the raw file 9 has no NaN.
\<close>

definition ex_DYNAMIC_BANDS :: "string list" where
  "ex_DYNAMIC_BANDS = [''B1'', ''B10'', ''B4'', ''B8'']"

definition ex_STATIC_BANDS :: "string list" where
  "ex_STATIC_BANDS = [''slope'']"






















section \<open>Labels of a test instance: properties\<close>

lemma length_concat_grid:
  "length (concat (map (\<lambda>r. map (f r) [0..<w]) [0..<h])) = h * w"
  by (induction h) simp_all

lemma grid_index_less:
  assumes "r < h" "c < w"
  shows "r * w + c < h * (w::nat)"
proof -
  have "r * w + c < r * w + w" using assms(2) by simp
  also have "\<dots> = Suc r * w" by simp
  also have "\<dots> \<le> h * w" using assms(1) by (intro mult_le_mono1) simp
  finally show ?thesis .
qed

lemma concat_grid_nth:
  "r < h \<Longrightarrow> c < w \<Longrightarrow>
   concat (map (\<lambda>r. map (f r) [0..<w]) [0..<h]) ! (r * w + c) = f r c"
proof (induction h)
  case 0
  then show ?case by simp
next
  case (Suc h)
  show ?case
  proof (cases "r < h")
    case True
    then have "r * w + c < h * w"
      using Suc.prems(2) by (intro grid_index_less)
    then show ?thesis using Suc True by (simp add: nth_append length_concat_grid)
  next
    case False
    then have "r = h" using Suc.prems by simp
    then show ?thesis using Suc.prems by (simp add: nth_append length_concat_grid)
  qed
qed

lemma label_vector_nth:
  assumes "length (concat pm) = n" "length (concat nm) = n" "i < n"
  shows "label_vector pm nm ! i =
    (let p = \<not> concat pm ! i; q = \<not> concat nm ! i in
      if p \<and> \<not> q then 1 else if q \<and> \<not> p then 0 else MISSING_DATA)"
  using assms by (simp add: label_vector_def assign_where_def Let_def MISSING_DATA_def)

lemma length_label_vector:
  assumes "length (concat pm) = n" "length (concat nm) = n"
  shows "length (label_vector pm nm) = n"
  using assms by (simp add: label_vector_def assign_where_def Let_def)

text \<open>
  C1, as the code has it, for geometry lists that are not empty and features with one
  series per pixel. The label vector has one entry per pixel, and the flattened pixel
  \<open>r * width + c\<close> of a \<open>height \<times> width\<close> raster is labelled 1 when a positive
  geometry covers it and no negative one does, 0 when a negative geometry covers it and
  no positive one does, and the missing sentinel \<open>-1\<close> otherwise: when no geometry
  covers it, and also when geometries of both sets cover it, since the two masks are
  added before the labels are read off the sum.
\<close>

theorem process_test_file_y_label:
  assumes "r < height" "c < width" "positive_geoms \<noteq> []" "negative_geoms \<noteq> []"
    "hd (shape x) = height * width"
  shows "\<exists>y. process_test_file_y height width positive_geoms negative_geoms (Some x) = Inr y
       \<and> length y = height * width
       \<and> y ! (r * width + c) =
           (if inside positive_geoms r c \<and> \<not> inside negative_geoms r c then 1
            else if inside negative_geoms r c \<and> \<not> inside positive_geoms r c then 0
            else MISSING_DATA)"
proof -
  let ?y = "label_vector (raster_geometry_mask height width positive_geoms)
                         (raster_geometry_mask height width negative_geoms)"
  have lt: "r * width + c < height * width"
    using assms(1,2) by (rule grid_index_less)
  have len: "length ?y = height * width"
    by (rule length_label_vector) (simp_all add: raster_geometry_mask_def length_concat_grid)
  have run: "process_test_file_y height width positive_geoms negative_geoms (Some x) = Inr ?y"
    using len assms(5) by (simp add: process_test_file_y_def)
  have "?y ! (r * width + c) =
           (if inside positive_geoms r c \<and> \<not> inside negative_geoms r c then 1
            else if inside negative_geoms r c \<and> \<not> inside positive_geoms r c then 0
            else MISSING_DATA)"
    using assms(1,2) lt
    by (simp add: label_vector_nth [where n = "height * width"] raster_geometry_mask_def
        length_concat_grid concat_grid_nth inside_def Let_def)
  with len run show ?thesis by blast
qed

text \<open>
  The theorem at the pixel (0, 1) of a 2 by 2 raster that only a negative geometry
  covers: the label is 0.
\<close>

theorem process_test_file_y_label_witness:
  "(0::nat) < 2 \<and> (1::nat) < 2 \<and> [[(1, 1)]] \<noteq> ([] :: geometry list)
   \<and> [[(0, 1), (1, 1)]] \<noteq> ([] :: geometry list)
   \<and> hd (shape (Arr3 1 1 [[[Val 0]], [[Val 0]], [[Val 0]], [[Val 0]]])) = 2 * 2
   \<and> (\<exists>y. process_test_file_y 2 2 [[(1, 1)]] [[(0, 1), (1, 1)]]
              (Some (Arr3 1 1 [[[Val 0]], [[Val 0]], [[Val 0]], [[Val 0]]])) = Inr y
          \<and> length y = 2 * 2 \<and> y ! (0 * 2 + 1) = 0)"
proof -
  have h1: "(0::nat) < 2" and h2: "(1::nat) < 2" by simp_all
  have h3: "[[(1, 1)]] \<noteq> ([] :: geometry list)"
    and h4: "[[(0, 1), (1, 1)]] \<noteq> ([] :: geometry list)" by simp_all
  have h5: "hd (shape (Arr3 1 1 [[[Val 0]], [[Val 0]], [[Val 0]], [[Val 0]]])) = 2 * 2" by simp
  from process_test_file_y_label [OF h1 h2 h3 h4 h5]
  have "\<exists>y. process_test_file_y 2 2 [[(1, 1)]] [[(0, 1), (1, 1)]]
              (Some (Arr3 1 1 [[[Val 0]], [[Val 0]], [[Val 0]], [[Val 0]]])) = Inr y
          \<and> length y = 2 * 2 \<and> y ! (0 * 2 + 1) = 0"
    by (simp add: inside_def)
  with h1 h2 h3 h4 h5 show ?thesis by (intro conjI)
qed

text \<open>
  C1 as stated fails: on a one-pixel raster whose pixel lies in a positive and in a
  negative geometry, the label is the missing sentinel, not 1.
\<close>

theorem process_test_file_y_overlap:
  "inside [[(0, 0)]] 0 0
   \<and> process_test_file_y 1 1 [[(0, 0)]] [[(0, 0)]] (Some (Arr3 1 1 [[[Val 0]]])) = Inr [- 1]
   \<and> [- 1 :: int] ! (0 * 1 + 0) \<noteq> 1"
  by (simp add: process_test_file_y_def label_vector_def raster_geometry_mask_def
      assign_where_def MISSING_DATA_def inside_def)

section \<open>Band transforms: properties\<close>

lemma list_index_mem:
  "v \<in> set xs \<Longrightarrow> \<exists>i<length xs. list_index xs v = Inr i \<and> xs ! i = v"
proof (induction xs)
  case Nil
  then show ?case by simp
next
  case (Cons x xs)
  show ?case
  proof (cases "x = v")
    case True
    then show ?thesis by simp
  next
    case False
    with Cons obtain i where "i < length xs" "list_index xs v = Inr i" "xs ! i = v" by auto
    with False show ?thesis by simp
  qed
qed

lemma list_index_append:
  "v \<in> set xs \<Longrightarrow> list_index (xs @ ys) v = list_index xs v"
  by (induction xs) auto

lemma ndvi_value_finite:
  "ndvi_value (Val n) (Val r) = Val (if 0 < n + r then (n - r) / (n + r) else 0)"
  by (simp add: ndvi_value_def fsub_def)

lemma ndvi_value_guard:
  "\<not> flt (Val 0) (fadd x y) \<Longrightarrow> ndvi_value x y = Val 0"
  "flt (Val 0) (fadd x y) \<Longrightarrow> ndvi_value x y = fdiv (fsub x y) (fadd x y)"
  by (simp_all add: ndvi_value_def)

lemma calculate_ndvi_ok:
  assumes "list_index (BANDS D S) ''B8'' = Inr i1" "list_index (BANDS D S) ''B4'' = Inr i2"
    "i1 < last_axis a" "i2 < last_axis a" "num_dims a \<noteq> 1"
  shows "\<exists>a'. calculate_ndvi D S a = Inr a' \<and> shape a' = butlast (shape a) @ [Suc (last_axis a)]
     \<and> series a' = map (append_ndvi i1 i2) (series a) \<and> (valid a \<longrightarrow> valid a')"
  using assms by (cases a) (auto simp: map_concat append_ndvi_def list_all_iff)

lemma calculate_ndvi_series:
  assumes "calculate_ndvi D S a = Inr a'"
  shows "\<exists>i1 i2. list_index (BANDS D S) ''B8'' = Inr i1 \<and> list_index (BANDS D S) ''B4'' = Inr i2
     \<and> series a' = map (append_ndvi i1 i2) (series a)"
  using assms by (cases a) (auto simp: map_concat split: sum.splits if_splits)

text \<open>
  C6, as the code has it. On a rank-2 or rank-3 array whose last axis reaches the
  positions that \<open>BANDS\<close> gives to B8 (NIR) and B4 (RED), \<open>calculate_ndvi\<close> returns an
  array of the same leading shape with exactly one more band; every series keeps its
  bands unchanged in front, and for finite NIR and RED the new last entry is
  (NIR - RED) / (NIR + RED) where NIR + RED is greater than zero and 0 everywhere else,
  so also where the denominator is negative.
\<close>

theorem calculate_ndvi_appends_band:
  assumes "list_index (BANDS D S) ''B8'' = Inr i1" "list_index (BANDS D S) ''B4'' = Inr i2"
    "i1 < last_axis a" "i2 < last_axis a" "num_dims a = 2 \<or> num_dims a = 3" "valid a"
  shows "\<exists>a'. calculate_ndvi D S a = Inr a'
     \<and> valid a' \<and> shape a' = butlast (shape a) @ [Suc (last_axis a)]
     \<and> length (series a') = length (series a)
     \<and> (\<forall>k<length (series a).
           butlast (series a' ! k) = series a ! k
         \<and> (\<forall>n r. series a ! k ! i1 = Val n \<and> series a ! k ! i2 = Val r \<longrightarrow>
               last (series a' ! k) = Val (if 0 < n + r then (n - r) / (n + r) else 0)))"
proof -
  from assms have "num_dims a \<noteq> 1" by auto
  from calculate_ndvi_ok [OF assms(1-4) this] assms(6) obtain a' where
    a': "calculate_ndvi D S a = Inr a'" "shape a' = butlast (shape a) @ [Suc (last_axis a)]"
       "series a' = map (append_ndvi i1 i2) (series a)" "valid a'" by blast
  show ?thesis
    using a' by (auto simp: append_ndvi_def ndvi_value_finite)
qed

text \<open>
  The theorem on one series in the concrete catalog, where B8 stands at position 8 and
  B4 at position 4 of \<open>BANDS\<close>: NIR = 4 and RED = 1 give NDVI 3/5.
\<close>

theorem calculate_ndvi_appends_band_witness:
  "list_index (BANDS eo_DYNAMIC_BANDS eo_STATIC_BANDS) ''B8'' = Inr 8
   \<and> list_index (BANDS eo_DYNAMIC_BANDS eo_STATIC_BANDS) ''B4'' = Inr 4
   \<and> valid (Arr2 19 [[Val 0, Val 0, Val 0, Val 0, Val 1, Val 0, Val 0, Val 0, Val 4, Val 0,
        Val 0, Val 0, Val 0, Val 0, Val 0, Val 0, Val 0, Val 0, Val 0]])
   \<and> (\<exists>a'. calculate_ndvi eo_DYNAMIC_BANDS eo_STATIC_BANDS
          (Arr2 19 [[Val 0, Val 0, Val 0, Val 0, Val 1, Val 0, Val 0, Val 0, Val 4, Val 0,
             Val 0, Val 0, Val 0, Val 0, Val 0, Val 0, Val 0, Val 0, Val 0]]) = Inr a'
        \<and> shape a' = [1, 20]
        \<and> last (series a' ! 0) = Val (3 / 5))"
proof -
  define a where "a = Arr2 19 [[Val 0, Val 0, Val 0, Val 0, Val 1, Val 0, Val 0, Val 0, Val 4,
    Val 0, Val 0, Val 0, Val 0, Val 0, Val 0, Val 0, Val 0, Val 0, Val 0]]"
  have h1: "list_index (BANDS eo_DYNAMIC_BANDS eo_STATIC_BANDS) ''B8'' = Inr 8"
    by (simp add: BANDS_def eo_DYNAMIC_BANDS_def eo_STATIC_BANDS_def REMOVED_BANDS_def)
  have h2: "list_index (BANDS eo_DYNAMIC_BANDS eo_STATIC_BANDS) ''B4'' = Inr 4"
    by (simp add: BANDS_def eo_DYNAMIC_BANDS_def eo_STATIC_BANDS_def REMOVED_BANDS_def)
  have h3: "8 < last_axis a" and h4: "4 < last_axis a"
    and h5: "num_dims a = 2 \<or> num_dims a = 3" and h6: "valid a"
    by (simp_all add: a_def)
  from calculate_ndvi_appends_band [OF h1 h2 h3 h4 h5 h6] obtain a' where
    a': "calculate_ndvi eo_DYNAMIC_BANDS eo_STATIC_BANDS a = Inr a'"
        "shape a' = butlast (shape a) @ [Suc (last_axis a)]"
        "\<forall>k<length (series a).
           butlast (series a' ! k) = series a ! k
         \<and> (\<forall>n r. series a ! k ! 8 = Val n \<and> series a ! k ! 4 = Val r \<longrightarrow>
               last (series a' ! k) = Val (if 0 < n + r then (n - r) / (n + r) else 0))"
    by blast
  have "last (series a' ! 0) = Val (if 0 < (4::real) + 1 then (4 - 1) / (4 + 1) else 0)"
    using a'(3) by (simp add: a_def)
  then have "last (series a' ! 0) = Val (3 / 5)" by simp
  moreover have "shape a' = [1, 20]" using a'(2) by (simp add: a_def)
  ultimately show ?thesis using h1 h2 h6 a'(1) unfolding a_def by blast
qed

text \<open>
  C6 as stated fails: with NIR = -3 and RED = 1 the denominator is -2, not zero, and the
  quotient is 2, yet the appended band holds 0.
\<close>

theorem calculate_ndvi_negative_denominator:
  "calculate_ndvi eo_DYNAMIC_BANDS eo_STATIC_BANDS
     (Arr2 19 [[Val 0, Val 0, Val 0, Val 0, Val 1, Val 0, Val 0, Val 0, Val (- 3), Val 0,
        Val 0, Val 0, Val 0, Val 0, Val 0, Val 0, Val 0, Val 0, Val 0]])
   = Inr (Arr2 20 [[Val 0, Val 0, Val 0, Val 0, Val 1, Val 0, Val 0, Val 0, Val (- 3), Val 0,
        Val 0, Val 0, Val 0, Val 0, Val 0, Val 0, Val 0, Val 0, Val 0, Val 0]])
   \<and> fadd (Val (- 3)) (Val 1) = Val (- 2)
   \<and> fdiv (fsub (Val (- 3)) (Val 1)) (fadd (Val (- 3)) (Val 1)) = Val 2"
  by (simp add: BANDS_def eo_DYNAMIC_BANDS_def eo_STATIC_BANDS_def REMOVED_BANDS_def
      append_ndvi_def ndvi_value_def fsub_def)

text \<open>
  C10. In the array \<open>calculate_ndvi\<close> returns, the appended entry of a series is 0
  whenever the test NIR + RED > 0 fails and the quotient (NIR - RED) / (NIR + RED) only
  when it holds. For finite NIR and RED this gives 0 for every sum that is zero or
  negative, the real quotient for every positive sum, and a finite entry in both cases.
\<close>

theorem calculate_ndvi_guarded:
  assumes "calculate_ndvi D S a = Inr a'"
    "list_index (BANDS D S) ''B8'' = Inr i1" "list_index (BANDS D S) ''B4'' = Inr i2"
    "k < length (series a)"
  shows "(\<not> flt (Val 0) (fadd (series a ! k ! i1) (series a ! k ! i2))
            \<longrightarrow> last (series a' ! k) = Val 0)
       \<and> (flt (Val 0) (fadd (series a ! k ! i1) (series a ! k ! i2))
            \<longrightarrow> last (series a' ! k) =
                fdiv (fsub (series a ! k ! i1) (series a ! k ! i2))
                     (fadd (series a ! k ! i1) (series a ! k ! i2)))
       \<and> (\<forall>n r. series a ! k ! i1 = Val n \<and> series a ! k ! i2 = Val r \<longrightarrow>
             isfinite (last (series a' ! k))
           \<and> (n + r \<le> 0 \<longrightarrow> last (series a' ! k) = Val 0)
           \<and> (0 < n + r \<longrightarrow> last (series a' ! k) = Val ((n - r) / (n + r))))"
proof -
  from calculate_ndvi_series [OF assms(1)] assms(2,3)
  have s: "series a' = map (append_ndvi i1 i2) (series a)" by auto
  have l: "last (series a' ! k) = ndvi_value (series a ! k ! i1) (series a ! k ! i2)"
    using s assms(4) by (simp add: append_ndvi_def)
  show ?thesis
    unfolding l by (auto simp: ndvi_value_guard ndvi_value_finite)
qed

text \<open>The theorem on the series with NIR = -3 and RED = 1, whose sum is negative.\<close>

theorem calculate_ndvi_guarded_witness:
  "calculate_ndvi eo_DYNAMIC_BANDS eo_STATIC_BANDS
     (Arr2 19 [[Val 0, Val 0, Val 0, Val 0, Val 1, Val 0, Val 0, Val 0, Val (- 3), Val 0,
        Val 0, Val 0, Val 0, Val 0, Val 0, Val 0, Val 0, Val 0, Val 0]])
   = Inr (Arr2 20 [[Val 0, Val 0, Val 0, Val 0, Val 1, Val 0, Val 0, Val 0, Val (- 3), Val 0,
        Val 0, Val 0, Val 0, Val 0, Val 0, Val 0, Val 0, Val 0, Val 0, Val 0]])
   \<and> list_index (BANDS eo_DYNAMIC_BANDS eo_STATIC_BANDS) ''B8'' = Inr 8
   \<and> list_index (BANDS eo_DYNAMIC_BANDS eo_STATIC_BANDS) ''B4'' = Inr 4
   \<and> (- 3 :: real) + 1 \<le> 0
   \<and> last [Val 0, Val 0, Val 0, Val 0, Val 1, Val 0, Val 0, Val 0, Val (- 3), Val 0,
        Val 0, Val 0, Val 0, Val 0, Val 0, Val 0, Val 0, Val 0, Val 0, Val 0] = Val 0"
proof -
  define a where "a = Arr2 19 [[Val 0, Val 0, Val 0, Val 0, Val 1, Val 0, Val 0, Val 0,
    Val (- 3), Val 0, Val 0, Val 0, Val 0, Val 0, Val 0, Val 0, Val 0, Val 0, Val 0]]"
  define a' where "a' = Arr2 20 [[Val 0, Val 0, Val 0, Val 0, Val 1, Val 0, Val 0, Val 0,
    Val (- 3), Val 0, Val 0, Val 0, Val 0, Val 0, Val 0, Val 0, Val 0, Val 0, Val 0, Val 0]]"
  have h1: "calculate_ndvi eo_DYNAMIC_BANDS eo_STATIC_BANDS a = Inr a'"
    by (simp add: a_def a'_def BANDS_def eo_DYNAMIC_BANDS_def eo_STATIC_BANDS_def
        REMOVED_BANDS_def append_ndvi_def ndvi_value_def fsub_def)
  have h2: "list_index (BANDS eo_DYNAMIC_BANDS eo_STATIC_BANDS) ''B8'' = Inr 8"
    by (simp add: BANDS_def eo_DYNAMIC_BANDS_def eo_STATIC_BANDS_def REMOVED_BANDS_def)
  have h3: "list_index (BANDS eo_DYNAMIC_BANDS eo_STATIC_BANDS) ''B4'' = Inr 4"
    by (simp add: BANDS_def eo_DYNAMIC_BANDS_def eo_STATIC_BANDS_def REMOVED_BANDS_def)
  have h4: "0 < length (series a)" by (simp add: a_def)
  have h5: "series a ! 0 ! 8 = Val (- 3) \<and> series a ! 0 ! 4 = Val 1" by (simp add: a_def)
  have h6: "(- 3 :: real) + 1 \<le> 0" by simp
  from calculate_ndvi_guarded [OF h1 h2 h3 h4] h5 h6
  have "last (series a' ! 0) = Val 0" by blast
  then show ?thesis using h1 h2 h3 h6 unfolding a_def a'_def by simp
qed

lemma length_keep_two:
  assumes "i < b" "j < b" "i \<noteq> j"
  shows "length (indices_to_keep b [i, j]) = b - 2"
proof -
  have "length (indices_to_keep b [i, j]) = card ({k. k \<notin> set [i, j]} \<inter> set [0..<b])"
    unfolding indices_to_keep_def by (rule distinct_length_filter) simp
  also have "{k. k \<notin> set [i, j]} \<inter> set [0..<b] = {0..<b} - {i, j}" by auto
  also have "card ({0..<b} - {i, j}) = b - 2"
    using assms by (simp add: card_Diff_subset)
  finally show ?thesis .
qed

lemma length_filter_removed:
  assumes "distinct D" "''B1'' \<in> set D" "''B10'' \<in> set D"
  shows "length (filter (\<lambda>x. x \<notin> set REMOVED_BANDS) D) = length D - 2"
proof -
  have "length (filter (\<lambda>x. x \<notin> set REMOVED_BANDS) D) = card ({x. x \<notin> set REMOVED_BANDS} \<inter> set D)"
    using assms(1) by (rule distinct_length_filter)
  also have "{x. x \<notin> set REMOVED_BANDS} \<inter> set D = set D - {''B1'', ''B10''}"
    by (auto simp: REMOVED_BANDS_def)
  also have "card (set D - {''B1'', ''B10''}) = card (set D) - 2"
    using assms by (simp add: card_Diff_subset)
  also have "card (set D) = length D" using assms(1) by (rule distinct_card)
  finally show ?thesis .
qed

lemma indices_to_remove_catalog:
  assumes "distinct D" "''B1'' \<in> set D" "''B10'' \<in> set D"
  shows "\<exists>i j. indices_to_remove (RAW_BANDS D S) REMOVED_BANDS = Inr [i, j]
            \<and> i < length D \<and> j < length D \<and> i \<noteq> j"
proof -
  from list_index_mem [OF assms(2)] obtain i where
    i: "i < length D" "list_index D ''B1'' = Inr i" "D ! i = ''B1''" by blast
  from list_index_mem [OF assms(3)] obtain j where
    j: "j < length D" "list_index D ''B10'' = Inr j" "D ! j = ''B10''" by blast
  have "i \<noteq> j" using i(3) j(3) by auto
  then show ?thesis
    using i j assms by (simp add: RAW_BANDS_def REMOVED_BANDS_def list_index_append)
qed

lemma remove_bands_ok:
  assumes "indices_to_remove (RAW_BANDS D S) REMOVED_BANDS = Inr rem" "num_dims a \<noteq> 1"
    "valid a"
  shows "\<exists>a2. remove_bands D S a = Inr a2 \<and> valid a2
     \<and> last_axis a2 = length (indices_to_keep (last_axis a) rem)
     \<and> num_dims a2 = num_dims a"
  using assms by (cases a) (auto simp: list_all_iff take_bands_def)

lemma length_BANDS:
  assumes "distinct D" "''B1'' \<in> set D" "''B10'' \<in> set D"
  shows "length (BANDS D S) = length D - 2 + length S + 1"
  using length_filter_removed [OF assms] by (simp add: BANDS_def)

lemma two_le_length:
  assumes "distinct D" "''B1'' \<in> set D" "''B10'' \<in> set D"
  shows "2 \<le> length D"
proof -
  have "{''B1'', ''B10''} \<subseteq> set D" using assms by simp
  then have "card {''B1'', ''B10''} \<le> card (set D)" by (intro card_mono) simp_all
  then show ?thesis using distinct_card [OF assms(1)] by simp
qed

text \<open>
  C8. Take a catalog whose dynamic bands are distinct and contain the two removed
  bands B1 and B10, and whose final order contains B8 and B4. On every rank-2 or rank-3
  array with one band per raw band, NDVI derivation followed by band removal succeeds,
  and the last axis of the result has length
  len(dynamic bands) - len(removed bands) + len(static bands) + 1, which is the length of
  the final band order.
\<close>

theorem feature_band_count:
  assumes "distinct D" "''B1'' \<in> set D" "''B10'' \<in> set D"
    "''B8'' \<in> set (BANDS D S)" "''B4'' \<in> set (BANDS D S)"
    "num_dims a = 2 \<or> num_dims a = 3" "valid a" "last_axis a = length (RAW_BANDS D S)"
  shows "\<exists>a1 a2. calculate_ndvi D S a = Inr a1 \<and> remove_bands D S a1 = Inr a2 \<and> valid a2
     \<and> last_axis a2 = length D - length REMOVED_BANDS + length S + 1
     \<and> last_axis a2 = length (BANDS D S)"
proof -
  have lb: "length (BANDS D S) = length D - 2 + length S + 1"
    using assms(1-3) by (rule length_BANDS)
  have l2: "2 \<le> length D" using assms(1-3) by (rule two_le_length)
  from list_index_mem [OF assms(4)] obtain i1 where
    i1: "i1 < length (BANDS D S)" "list_index (BANDS D S) ''B8'' = Inr i1" by blast
  from list_index_mem [OF assms(5)] obtain i2 where
    i2: "i2 < length (BANDS D S)" "list_index (BANDS D S) ''B4'' = Inr i2" by blast
  have la: "last_axis a = length D + length S" using assms(8) by (simp add: RAW_BANDS_def)
  have "i1 < last_axis a" "i2 < last_axis a" using i1(1) i2(1) lb l2 la by simp_all
  moreover have nd: "num_dims a \<noteq> 1" using assms(6) by auto
  ultimately obtain a1 where a1: "calculate_ndvi D S a = Inr a1"
      "shape a1 = butlast (shape a) @ [Suc (last_axis a)]" "valid a1"
    using calculate_ndvi_ok [OF i1(2) i2(2)] assms(7) by blast
  have nd1: "num_dims a1 \<noteq> 1" and la1: "last_axis a1 = Suc (last_axis a)"
    using a1(2) nd by (cases a; cases a1; simp)+
  from indices_to_remove_catalog [OF assms(1-3)] obtain i j where
    ij: "indices_to_remove (RAW_BANDS D S) REMOVED_BANDS = Inr [i, j]"
        "i < length D" "j < length D" "i \<noteq> j" by blast
  from remove_bands_ok [OF ij(1) nd1 a1(3)] obtain a2 where
    a2: "remove_bands D S a1 = Inr a2" "valid a2"
        "last_axis a2 = length (indices_to_keep (last_axis a1) [i, j])" by blast
  have "last_axis a2 = Suc (length D + length S) - 2"
    unfolding a2(3) la1 la using ij by (intro length_keep_two) simp_all
  then have "last_axis a2 = length D - 2 + length S + 1" using l2 by simp
  then show ?thesis using a1(1) a2(1,2) lb by (simp add: REMOVED_BANDS_def)
qed

text \<open>The theorem in the concrete catalog: 19 raw bands become 18 feature bands.\<close>

theorem feature_band_count_witness:
  "distinct eo_DYNAMIC_BANDS \<and> ''B1'' \<in> set eo_DYNAMIC_BANDS \<and> ''B10'' \<in> set eo_DYNAMIC_BANDS
   \<and> ''B8'' \<in> set (BANDS eo_DYNAMIC_BANDS eo_STATIC_BANDS)
   \<and> ''B4'' \<in> set (BANDS eo_DYNAMIC_BANDS eo_STATIC_BANDS)
   \<and> valid (Arr2 19 [replicate 19 (Val 1), replicate 19 (Val 2)])
   \<and> last_axis (Arr2 19 [replicate 19 (Val 1), replicate 19 (Val 2)])
        = length (RAW_BANDS eo_DYNAMIC_BANDS eo_STATIC_BANDS)
   \<and> (\<exists>a1 a2. calculate_ndvi eo_DYNAMIC_BANDS eo_STATIC_BANDS
                  (Arr2 19 [replicate 19 (Val 1), replicate 19 (Val 2)]) = Inr a1
         \<and> remove_bands eo_DYNAMIC_BANDS eo_STATIC_BANDS a1 = Inr a2
         \<and> valid a2 \<and> last_axis a2 = 18
         \<and> length (BANDS eo_DYNAMIC_BANDS eo_STATIC_BANDS) = 18)"
proof -
  define a where "a = Arr2 19 [replicate 19 (Val 1), replicate 19 (Val 2)]"
  have h1: "distinct eo_DYNAMIC_BANDS" by (simp add: eo_DYNAMIC_BANDS_def)
  have h2: "''B1'' \<in> set eo_DYNAMIC_BANDS" and h3: "''B10'' \<in> set eo_DYNAMIC_BANDS"
    by (simp_all add: eo_DYNAMIC_BANDS_def)
  have h4: "''B8'' \<in> set (BANDS eo_DYNAMIC_BANDS eo_STATIC_BANDS)"
    and h5: "''B4'' \<in> set (BANDS eo_DYNAMIC_BANDS eo_STATIC_BANDS)"
    by (simp_all add: BANDS_def eo_DYNAMIC_BANDS_def eo_STATIC_BANDS_def REMOVED_BANDS_def)
  have h6: "num_dims a = 2 \<or> num_dims a = 3" and h7: "valid a" by (simp_all add: a_def)
  have h8: "last_axis a = length (RAW_BANDS eo_DYNAMIC_BANDS eo_STATIC_BANDS)"
    by (simp add: a_def RAW_BANDS_def eo_DYNAMIC_BANDS_def eo_STATIC_BANDS_def)
  have n: "length eo_DYNAMIC_BANDS - length REMOVED_BANDS + length eo_STATIC_BANDS + 1 = 18"
    by (simp add: eo_DYNAMIC_BANDS_def eo_STATIC_BANDS_def REMOVED_BANDS_def)
  from feature_band_count [OF h1 h2 h3 h4 h5 h6 h7 h8] obtain a1 a2 where
    r: "calculate_ndvi eo_DYNAMIC_BANDS eo_STATIC_BANDS a = Inr a1"
       "remove_bands eo_DYNAMIC_BANDS eo_STATIC_BANDS a1 = Inr a2" "valid a2"
       "last_axis a2 =
          length eo_DYNAMIC_BANDS - length REMOVED_BANDS + length eo_STATIC_BANDS + 1"
       "last_axis a2 = length (BANDS eo_DYNAMIC_BANDS eo_STATIC_BANDS)"
    by blast
  have "last_axis a2 = 18" using r(4) n by simp
  moreover from this have "length (BANDS eo_DYNAMIC_BANDS eo_STATIC_BANDS) = 18"
    using r(5) by simp
  ultimately show ?thesis using h1 h2 h3 h4 h5 h7 h8 r(1,2,3) unfolding a_def by blast
qed

section \<open>Nearest coordinate: properties\<close>

lemma argmin_from_bound:
  "bi < i \<Longrightarrow> argmin_from bi bv i xs < i + length xs"
proof (induction xs arbitrary: bi bv i)
  case Nil
  then show ?case by simp
next
  case (Cons x xs)
  have "argmin_from i x (Suc i) xs < Suc i + length xs" by (rule Cons.IH) simp
  moreover have "argmin_from bi bv (Suc i) xs < Suc i + length xs"
    by (rule Cons.IH) (use Cons.prems in simp)
  ultimately show ?case using Cons.prems by simp
qed

lemma argmin_from_Val:
  "bi < i \<Longrightarrow> drop i rs = xs \<Longrightarrow> i \<le> length rs \<Longrightarrow> (\<forall>j<i. rs ! bi \<le> rs ! j) \<Longrightarrow>
   (\<forall>j<length rs. rs ! (argmin_from bi (Val (rs ! bi)) i (map Val xs)) \<le> rs ! j)"
proof (induction xs arbitrary: bi i)
  case Nil
  then show ?case by simp
next
  case (Cons x xs)
  have x: "rs ! i = x" using Cons.prems(2) by (rule nth_via_drop)
  have d: "drop (Suc i) rs = xs" using Cons.prems(2) by (metis drop_Suc list.sel(3) tl_drop)
  have il: "Suc i \<le> length rs" using Cons.prems(2,3)
    by (metis Suc_leI drop_eq_Nil leD le_neq_implies_less list.distinct(1) not_less)
  show ?case
  proof (cases "x < rs ! bi")
    case True
    have "\<forall>j<Suc i. rs ! i \<le> rs ! j"
    proof (intro allI impI)
      fix j assume "j < Suc i"
      show "rs ! i \<le> rs ! j"
      proof (cases "j = i")
        case True
        then show ?thesis by simp
      next
        case False
        with \<open>j < Suc i\<close> have "j < i" by simp
        with Cons.prems(4) have "rs ! bi \<le> rs ! j" by simp
        with \<open>x < rs ! bi\<close> x show ?thesis by simp
      qed
    qed
    from Cons.IH [OF _ d il this] True x show ?thesis by simp
  next
    case False
    have "\<forall>j<Suc i. rs ! bi \<le> rs ! j"
      using Cons.prems(4) False x by (auto simp: less_Suc_eq)
    from Cons.IH [OF _ d il this] Cons.prems(1) False show ?thesis by simp
  qed
qed

lemma find_nearest_mem:
  assumes "array \<noteq> []"
  shows "\<exists>idx<length array. find_nearest array v = Inr (array ! idx)"
proof -
  from assms obtain a as where a: "array = a # as" by (cases array) auto
  define k where "k = argmin_from 0 (fabs (fsub a v)) 1 (map (\<lambda>a. fabs (fsub a v)) as)"
  have "k < 1 + length as"
    unfolding k_def
    using argmin_from_bound [of 0 1 "fabs (fsub a v)" "map (\<lambda>a. fabs (fsub a v)) as"]
    by simp
  then have "k < length array" by (simp add: a)
  moreover have "find_nearest array v = Inr (array ! k)"
    by (simp add: a find_nearest_def k_def)
  ultimately show ?thesis by blast
qed

lemma find_nearest_Val:
  assumes "xs \<noteq> []"
  shows "\<exists>x\<in>set xs. find_nearest (map Val xs) (Val t) = Inr (Val x) \<and> (\<forall>y\<in>set xs. \<bar>x - t\<bar> \<le> \<bar>y - t\<bar>)"
proof -
  from assms obtain a as where a: "xs = a # as" by (cases xs) auto
  define rs where "rs = map (\<lambda>x. \<bar>x - t\<bar>) xs"
  define k where "k = argmin_from 0 (Val (rs ! 0)) 1 (map Val (drop 1 rs))"
  have m: "map (\<lambda>a. fabs (fsub a (Val t))) (map Val xs) = map Val rs"
    by (simp add: rs_def fsub_def)
  have kl: "k < length xs"
    using argmin_from_bound [of 0 1 "Val (rs ! 0)" "map Val (drop 1 rs)"]
    by (simp add: k_def rs_def a)
  have "\<forall>j<length rs. rs ! k \<le> rs ! j"
    unfolding k_def by (rule argmin_from_Val) (simp_all add: rs_def a)
  then have mn: "\<forall>j<length xs. \<bar>xs ! k - t\<bar> \<le> \<bar>xs ! j - t\<bar>"
    using kl by (simp add: rs_def)
  have "argmin (map Val rs) = Inr k"
    by (simp add: k_def rs_def a)
  then have "find_nearest (map Val xs) (Val t) = Inr (map Val xs ! k)"
    unfolding find_nearest_def m by simp
  then have "find_nearest (map Val xs) (Val t) = Inr (Val (xs ! k))"
    using kl by simp
  moreover have "\<forall>y\<in>set xs. \<bar>xs ! k - t\<bar> \<le> \<bar>y - t\<bar>"
    using mn by (auto simp: in_set_conv_nth)
  ultimately show ?thesis using kl by (intro bexI [of _ "xs ! k"]) simp_all
qed

text \<open>
  C9. On non-empty coordinate axes, the snapped longitude is an entry of the x axis and
  the snapped latitude an entry of the y axis, each found by its own call of
  \<open>find_nearest\<close>; and when the coordinates and the targets are finite, no entry of
  the axis is closer to the target than the entry returned.
\<close>

theorem find_nearest_on_axis:
  assumes "da_x \<noteq> []" "da_y \<noteq> []"
  shows "(\<exists>i<length da_x. \<exists>j<length da_y.
            closest_lon_lat da_x da_y lon lat = Inr (da_x ! i, da_y ! j)
          \<and> find_nearest da_x lon = Inr (da_x ! i)
          \<and> find_nearest da_y lat = Inr (da_y ! j))
       \<and> (\<forall>xs ys l t. da_x = map Val xs \<and> da_y = map Val ys \<and> lon = Val l \<and> lat = Val t \<longrightarrow>
            (\<exists>x\<in>set xs. \<exists>y\<in>set ys.
                closest_lon_lat da_x da_y lon lat = Inr (Val x, Val y)
              \<and> (\<forall>x'\<in>set xs. \<bar>x - l\<bar> \<le> \<bar>x' - l\<bar>)
              \<and> (\<forall>y'\<in>set ys. \<bar>y - t\<bar> \<le> \<bar>y' - t\<bar>)))"
proof (intro conjI allI impI)
  from find_nearest_mem [OF assms(1), of lon] obtain i where
    i: "i < length da_x" "find_nearest da_x lon = Inr (da_x ! i)" by blast
  from find_nearest_mem [OF assms(2), of lat] obtain j where
    j: "j < length da_y" "find_nearest da_y lat = Inr (da_y ! j)" by blast
  show "\<exists>i<length da_x. \<exists>j<length da_y.
            closest_lon_lat da_x da_y lon lat = Inr (da_x ! i, da_y ! j)
          \<and> find_nearest da_x lon = Inr (da_x ! i)
          \<and> find_nearest da_y lat = Inr (da_y ! j)"
    using i j by (auto simp: closest_lon_lat_def)
next
  fix xs ys l t
  assume a: "da_x = map Val xs \<and> da_y = map Val ys \<and> lon = Val l \<and> lat = Val t"
  then have ne: "xs \<noteq> []" "ys \<noteq> []" using assms by auto
  from find_nearest_Val [OF ne(1), of l] obtain x where
    x: "x \<in> set xs" "find_nearest (map Val xs) (Val l) = Inr (Val x)"
       "\<forall>x'\<in>set xs. \<bar>x - l\<bar> \<le> \<bar>x' - l\<bar>" by blast
  from find_nearest_Val [OF ne(2), of t] obtain y where
    y: "y \<in> set ys" "find_nearest (map Val ys) (Val t) = Inr (Val y)"
       "\<forall>y'\<in>set ys. \<bar>y - t\<bar> \<le> \<bar>y' - t\<bar>" by blast
  show "\<exists>x\<in>set xs. \<exists>y\<in>set ys.
                closest_lon_lat da_x da_y lon lat = Inr (Val x, Val y)
              \<and> (\<forall>x'\<in>set xs. \<bar>x - l\<bar> \<le> \<bar>x' - l\<bar>)
              \<and> (\<forall>y'\<in>set ys. \<bar>y - t\<bar> \<le> \<bar>y' - t\<bar>)"
    using x y a by (intro bexI [of _ x] bexI [of _ y]) (simp_all add: closest_lon_lat_def)
qed

text \<open>
  The theorem on the axes x = [10, 20, 30] and y = [1, 2] with the label at longitude 26
  and latitude 6/5: the pixel sampled is (30, 1).
\<close>

theorem find_nearest_on_axis_witness:
  "map Val [10, 20, 30] \<noteq> [] \<and> map Val [1, 2] \<noteq> []
   \<and> closest_lon_lat (map Val [10, 20, 30]) (map Val [1, 2]) (Val 26) (Val (6 / 5))
       = Inr (Val 30, Val 1)"
proof -
  have h1: "map Val [10, 20, 30] \<noteq> []" and h2: "map Val [1, 2] \<noteq> []" by simp_all
  from find_nearest_on_axis [OF h1 h2, of "Val 26" "Val (6 / 5)"]
  obtain x y where
    xy: "x \<in> set [10, 20, 30]" "y \<in> set [1, 2]"
        "closest_lon_lat (map Val [10, 20, 30]) (map Val [1, 2]) (Val 26) (Val (6 / 5))
           = Inr (Val x, Val y)"
        "\<forall>x'\<in>set [10, 20, 30]. \<bar>x - 26\<bar> \<le> \<bar>x' - 26\<bar>"
        "\<forall>y'\<in>set [1, 2]. \<bar>y - 6 / 5\<bar> \<le> \<bar>y' - 6 / 5\<bar>"
    by blast
  have "x = 30" using xy(1,4) by auto
  moreover have "y = 1" using xy(2,5) by auto
  ultimately show ?thesis using xy(3) h1 h2 by simp
qed

section \<open>Online normalizer: properties\<close>

lemma length_vops [simp]:
  "length (vadd xs ys) = min (length xs) (length ys)"
  "length (vsub xs ys) = min (length xs) (length ys)"
  "length (vmul xs ys) = min (length xs) (length ys)"
  "length (vdiv xs c) = length xs"
  by (simp_all add: vadd_def vsub_def vmul_def vdiv_def)

lemma nth_vops:
  "j < length xs \<Longrightarrow> j < length ys \<Longrightarrow> vadd xs ys ! j = xs ! j + ys ! j"
  "j < length xs \<Longrightarrow> j < length ys \<Longrightarrow> vsub xs ys ! j = xs ! j - ys ! j"
  "j < length xs \<Longrightarrow> j < length ys \<Longrightarrow> vmul xs ys ! j = xs ! j * ys ! j"
  "j < length xs \<Longrightarrow> vdiv xs c ! j = xs ! j / c"
  by (simp_all add: vadd_def vsub_def vmul_def vdiv_def)

lemma broadcast_Val:
  assumes "length xs = length ys"
  shows "broadcast fadd (map Val xs) (map Val ys) = Inr (map Val (vadd xs ys))"
    "broadcast fsub (map Val xs) (map Val ys) = Inr (map Val (vsub xs ys))"
    "broadcast fmul (map Val xs) (map Val ys) = Inr (map Val (vmul xs ys))"
  using assms
  by (simp_all add: broadcast_def zip_map_map fsub_def split_def vadd_def vsub_def vmul_def)

lemma inplace_Val:
  assumes "length ys = length xs"
  shows "inplace fadd (map Val xs) (map Val ys) = Inr (map Val (vadd xs ys))"
  using assms by (simp add: inplace_def zip_map_map split_def vadd_def)

lemma fdiv_Val: "c \<noteq> 0 \<Longrightarrow> map (\<lambda>d. fdiv d (Val c)) (map Val xs) = map Val (vdiv xs c)"
  by (simp add: vdiv_def)

lemma fold_row_lift:
  assumes "length x = length m" "length M2 = length m"
  shows "fold_row (lift_interim (k, m, M2)) (map Val x) = Inr (lift_interim (welford_step (k, m, M2) x))"
proof -
  define c where "c = real (k + 1)"
  have c: "c \<noteq> 0" by (simp add: c_def)
  have r: "real_of_int (int k + 1) = c" by (simp add: c_def)
  have s: "mean_M2 (lift_interim (k, m, M2)) = Some (map Val m, map Val M2)"
    "n_rows (lift_interim (k, m, M2)) = int k"
    by (simp_all add: lift_interim_def)
  have 1: "broadcast fsub (map Val x) (map Val m) = Inr (map Val (vsub x m))"
    using assms by (intro broadcast_Val) simp
  have 2: "inplace fadd (map Val m) (map Val (vdiv (vsub x m) c)) = Inr (map Val (vadd m (vdiv (vsub x m) c)))"
    using assms by (intro inplace_Val) simp
  have 3: "broadcast fsub (map Val x) (map Val (vadd m (vdiv (vsub x m) c)))
      = Inr (map Val (vsub x (vadd m (vdiv (vsub x m) c))))"
    using assms by (intro broadcast_Val) simp
  have 4: "broadcast fmul (map Val (vsub x m)) (map Val (vsub x (vadd m (vdiv (vsub x m) c))))
      = Inr (map Val (vmul (vsub x m) (vsub x (vadd m (vdiv (vsub x m) c)))))"
    using assms by (intro broadcast_Val) simp
  have 5: "inplace fadd (map Val M2) (map Val (vmul (vsub x m) (vsub x (vadd m (vdiv (vsub x m) c)))))
      = Inr (map Val (vadd M2 (vmul (vsub x m) (vsub x (vadd m (vdiv (vsub x m) c))))))"
    using assms by (intro inplace_Val) simp
  have "fold_row (lift_interim (k, m, M2)) (map Val x)
      = Inr \<lparr>n_rows = int k + 1,
             mean_M2 = Some (map Val (vadd m (vdiv (vsub x m) c)),
               map Val (vadd M2 (vmul (vsub x m) (vsub x (vadd m (vdiv (vsub x m) c))))))\<rparr>"
    unfolding fold_row_def s r
    by (simp only: 1 2 3 4 5 fdiv_Val [OF c] sum.case option.case prod.case)
  also have "\<dots> = Inr (lift_interim (welford_step (k, m, M2) x))"
    by (simp add: lift_interim_def welford_step_def c_def)
  finally show ?thesis .
qed

lemma welford_step_length:
  assumes "length x = b" "length m = b" "length M2 = b"
  shows "\<exists>m' M2'. welford_step (k, m, M2) x = (Suc k, m', M2') \<and> length m' = b \<and> length M2' = b"
  using assms by (simp add: welford_step_def)

lemma fold_rows_lift:
  assumes "\<forall>x\<in>set rows. length x = b" "length m = b" "length M2 = b"
  shows "fold_rows (lift_interim (k, m, M2)) (map (map Val) rows)
       = Inr (lift_interim (foldl welford_step (k, m, M2) rows))"
  using assms
proof (induction rows arbitrary: k m M2)
  case Nil
  then show ?case by simp
next
  case (Cons x rows)
  from Cons.prems have lx: "length x = b" by simp
  from welford_step_length [OF lx Cons.prems(2,3), of k] obtain m' M2' where
    w: "welford_step (k, m, M2) x = (Suc k, m', M2')" "length m' = b" "length M2' = b" by blast
  have "fold_row (lift_interim (k, m, M2)) (map Val x) = Inr (lift_interim (Suc k, m', M2'))"
    using fold_row_lift [of x m M2 k] lx Cons.prems(2,3) w(1) by simp
  moreover have "fold_rows (lift_interim (Suc k, m', M2')) (map (map Val) rows)
       = Inr (lift_interim (foldl welford_step (Suc k, m', M2') rows))"
    using Cons.prems(1) w(2,3) by (intro Cons.IH) simp_all
  ultimately show ?case using w(1) by simp
qed

lemma welford_scalar:
  fixes m x s1 s2 M2 :: real and k :: nat
  assumes "real k * m = s1" "M2 = s2 - real k * m\<^sup>2"
  shows "real (k + 1) * (m + (x - m) / real (k + 1)) = s1 + x"
    and "M2 + (x - m) * (x - (m + (x - m) / real (k + 1)))
          = s2 + x\<^sup>2 - real (k + 1) * (m + (x - m) / real (k + 1))\<^sup>2"
    and "0 \<le> (x - m) * (x - (m + (x - m) / real (k + 1)))"
proof -
  define c where "c = real (k + 1)"
  have c: "c \<noteq> 0" "0 < c" by (simp_all add: c_def)
  have k: "real k = c - 1" by (simp add: c_def)
  show "real (k + 1) * (m + (x - m) / real (k + 1)) = s1 + x"
    unfolding c_def [symmetric] using assms(1) c unfolding k by (simp add: field_simps)
  show "M2 + (x - m) * (x - (m + (x - m) / real (k + 1)))
          = s2 + x\<^sup>2 - real (k + 1) * (m + (x - m) / real (k + 1))\<^sup>2"
    unfolding c_def [symmetric] assms(2) k using c
    by (simp add: field_simps power2_eq_square)
  have "x - (m + (x - m) / c) = (x - m) * (real k / c)"
    unfolding k using c by (simp add: field_simps)
  then have "(x - m) * (x - (m + (x - m) / c)) = (x - m)\<^sup>2 * (real k / c)"
    by (simp add: power2_eq_square)
  moreover have "0 \<le> (x - m)\<^sup>2 * (real k / c)" using c by simp
  ultimately show "0 \<le> (x - m) * (x - (m + (x - m) / real (k + 1)))"
    by (simp add: c_def)
qed

lemma welford_inv_step:
  assumes "welford_inv b rows st" "length x = b"
  shows "welford_inv b (rows @ [x]) (welford_step st x)"
proof -
  obtain k m M2 where st: "st = (k, m, M2)" by (cases st)
  from assms(1) have inv: "k = length rows \<and> length m = b \<and> length M2 = b
      \<and> (\<forall>j<b. real k * m ! j = col_sum rows j
               \<and> M2 ! j = col_sum_sq rows j - real k * (m ! j)\<^sup>2
               \<and> 0 \<le> M2 ! j)"
    unfolding welford_inv_def st prod.case .
  then have i: "k = length rows" "length m = b" "length M2 = b"
    and j: "\<And>j. j < b \<Longrightarrow> real k * m ! j = col_sum rows j"
      "\<And>j. j < b \<Longrightarrow> M2 ! j = col_sum_sq rows j - real k * (m ! j)\<^sup>2"
      "\<And>j. j < b \<Longrightarrow> 0 \<le> M2 ! j"
    by blast+
  have "\<forall>j<b. real (k + 1) * vadd m (vdiv (vsub x m) (real (k + 1))) ! j = col_sum (rows @ [x]) j
     \<and> vadd M2 (vmul (vsub x m) (vsub x (vadd m (vdiv (vsub x m) (real (k + 1)))))) ! j
         = col_sum_sq (rows @ [x]) j
           - real (k + 1) * (vadd m (vdiv (vsub x m) (real (k + 1))) ! j)\<^sup>2
     \<and> 0 \<le> vadd M2 (vmul (vsub x m) (vsub x (vadd m (vdiv (vsub x m) (real (k + 1)))))) ! j"
  proof (intro allI impI)
    fix j assume jb: "j < b"
    have m': "vadd m (vdiv (vsub x m) (real (k + 1))) ! j = m ! j + (x ! j - m ! j) / real (k + 1)"
      using jb i assms(2) by (simp add: nth_vops)
    have M2': "vadd M2 (vmul (vsub x m) (vsub x (vadd m (vdiv (vsub x m) (real (k + 1)))))) ! j
        = M2 ! j + (x ! j - m ! j) * (x ! j - (m ! j + (x ! j - m ! j) / real (k + 1)))"
      using jb i assms(2) by (simp add: nth_vops)
    note w = welford_scalar [OF j(1) [OF jb] j(2) [OF jb], of "x ! j"]
    show "real (k + 1) * vadd m (vdiv (vsub x m) (real (k + 1))) ! j = col_sum (rows @ [x]) j
     \<and> vadd M2 (vmul (vsub x m) (vsub x (vadd m (vdiv (vsub x m) (real (k + 1)))))) ! j
         = col_sum_sq (rows @ [x]) j
           - real (k + 1) * (vadd m (vdiv (vsub x m) (real (k + 1))) ! j)\<^sup>2
     \<and> 0 \<le> vadd M2 (vmul (vsub x m) (vsub x (vadd m (vdiv (vsub x m) (real (k + 1)))))) ! j"
      unfolding m' M2' using w j(3) [OF jb] by (simp add: col_sum_def col_sum_sq_def)
  qed
  moreover have "k + 1 = length (rows @ [x])"
    "length (vadd m (vdiv (vsub x m) (real (k + 1)))) = b"
    "length (vadd M2 (vmul (vsub x m) (vsub x (vadd m (vdiv (vsub x m) (real (k + 1))))))) = b"
    using i assms(2) by simp_all
  ultimately show ?thesis
    unfolding welford_inv_def st welford_step_def prod.case by blast
qed

lemma welford_inv_foldl:
  assumes "\<forall>x\<in>set rows. length x = b"
  shows "welford_inv b rows (foldl welford_step (0, replicate b 0, replicate b 0) rows)"
  using assms
proof (induction rows rule: rev_induct)
  case Nil
  then show ?case by (simp add: welford_inv_def col_sum_def col_sum_sq_def)
next
  case (snoc x rows)
  then show ?case by (simp add: welford_inv_step)
qed

lemma initialize_init:
  "initialize norm_interim_init b = lift_interim (0, replicate b 0, replicate b 0)"
  by (simp add: initialize_def norm_interim_init_def lift_interim_def)

lemma update_lift:
  assumes "\<forall>x\<in>set rows. length x = b"
  shows "update_normalizing_values norm_interim_init (Arr2 b (map (map Val) rows))
       = Inr (lift_interim (welford b rows))"
  using fold_rows_lift [OF assms, of "replicate b 0" "replicate b 0" 0]
  by (simp add: initialize_init welford_def)

lemma fold_row_Some:
  "fold_row ni x = Inr ni' \<Longrightarrow> mean_M2 ni' \<noteq> None"
  by (auto simp: fold_row_def split: option.splits sum.splits prod.splits)

lemma fold_rows_Some:
  "fold_rows ni rows = Inr ni' \<Longrightarrow> mean_M2 ni \<noteq> None \<Longrightarrow> mean_M2 ni' \<noteq> None"
proof (induction rows arbitrary: ni)
  case Nil
  then show ?case by simp
next
  case (Cons x rows)
  then show ?case by (auto split: sum.splits dest: fold_row_Some)
qed

lemma initialize_Some: "mean_M2 (initialize ni b) \<noteq> None"
  by (simp add: initialize_def split: option.splits)

lemma update_Some:
  "update_normalizing_values ni a = Inr ni' \<Longrightarrow> mean_M2 ni' \<noteq> None"
proof (cases a)
  case (Arr1 xs)
  assume "update_normalizing_values ni a = Inr ni'"
  then show ?thesis using Arr1 by simp
next
  case (Arr2 b rows)
  assume "update_normalizing_values ni a = Inr ni'"
  then show ?thesis using Arr2 fold_rows_Some [OF _ initialize_Some] by simp
next
  case (Arr3 t b pix)
  assume "update_normalizing_values ni a = Inr ni'"
  then show ?thesis using Arr3 initialize_Some [of ni t] by (auto split: if_splits)
qed

lemma calculate_None_iff:
  "calculate_normalizing_dict ni = None \<longleftrightarrow> mean_M2 ni = None"
  by (simp add: calculate_normalizing_dict_def split: option.splits prod.splits)

lemma calculate_lift:
  "calculate_normalizing_dict (lift_interim (k, m, M2))
     = Some \<lparr>mean = map Val m,
             std = map (\<lambda>v. fsqrt (fdiv (Val v) (Val (real k - 1)))) M2\<rparr>"
  by (simp add: calculate_normalizing_dict_def lift_interim_def)

lemma std_two_rows:
  assumes "2 \<le> k" "\<forall>j<length M2. 0 \<le> M2 ! j"
  shows "map (\<lambda>v. fsqrt (fdiv (Val v) (Val (real k - 1)))) M2
       = map (\<lambda>v. Val (sqrt (v / (real k - 1)))) M2"
proof (rule nth_equalityI)
  show "length (map (\<lambda>v. fsqrt (fdiv (Val v) (Val (real k - 1)))) M2)
      = length (map (\<lambda>v. Val (sqrt (v / (real k - 1)))) M2)" by simp
next
  fix j assume "j < length (map (\<lambda>v. fsqrt (fdiv (Val v) (Val (real k - 1)))) M2)"
  then have j: "j < length M2" by simp
  have k: "real k - 1 > 0" using assms(1) by simp
  have "0 \<le> M2 ! j / (real k - 1)" using assms(2) j k by simp
  then show "map (\<lambda>v. fsqrt (fdiv (Val v) (Val (real k - 1)))) M2 ! j
      = map (\<lambda>v. Val (sqrt (v / (real k - 1)))) M2 ! j"
    using j k by simp
qed

lemma welford_facts:
  assumes "\<forall>x\<in>set rows. length x = b"
  shows "\<exists>m M2. welford b rows = (length rows, m, M2) \<and> length m = b \<and> length M2 = b
     \<and> (\<forall>j<b. real (length rows) * m ! j = col_sum rows j
              \<and> M2 ! j = col_sum_sq rows j - real (length rows) * (m ! j)\<^sup>2
              \<and> 0 \<le> M2 ! j)"
proof -
  obtain k m M2 where w: "welford b rows = (k, m, M2)" by (cases "welford b rows")
  from welford_inv_foldl [OF assms] have "welford_inv b rows (k, m, M2)"
    using w by (simp add: welford_def)
  then show ?thesis unfolding w welford_inv_def prod.case by blast
qed

lemma py_sum_from_Val:
  assumes "\<forall>v\<in>set vs. length v = b" "length a = b"
  shows "py_sum_from (Some (map Val a)) (map (map Val) vs)
       = Inr (Some (map Val (map (\<lambda>j. a ! j + sum_list (map (\<lambda>v. v ! j) vs)) [0..<b])))"
  using assms
proof (induction vs arbitrary: a)
  case Nil
  have "map (\<lambda>j. a ! j) [0..<b] = a" using Nil(2) map_nth [of a] by simp
  then show ?case by simp
next
  case (Cons v vs)
  have lv: "length v = b" using Cons.prems by simp
  have b: "broadcast fadd (map Val a) (map Val v) = Inr (map Val (vadd a v))"
    using lv Cons.prems(2) by (intro broadcast_Val) simp
  have "py_sum_from (Some (map Val (vadd a v))) (map (map Val) vs)
       = Inr (Some (map Val (map (\<lambda>j. vadd a v ! j + sum_list (map (\<lambda>v. v ! j) vs)) [0..<b])))"
    using Cons.prems lv by (intro Cons.IH) simp_all
  moreover have "map (\<lambda>j. vadd a v ! j + sum_list (map (\<lambda>v. v ! j) vs)) [0..<b]
      = map (\<lambda>j. a ! j + sum_list (map (\<lambda>v. v ! j) (v # vs))) [0..<b]"
    using lv Cons.prems(2) by (auto simp: nth_vops)
  ultimately show ?case using b by simp
qed

lemma py_sum_Val:
  assumes "vs \<noteq> []" "\<forall>v\<in>set vs. length v = b"
  shows "py_sum (map (map Val) vs) = Inr (Some (map Val (vsum b vs)))"
proof -
  from assms(1) obtain v vs' where vs: "vs = v # vs'" by (cases vs) auto
  have lv: "length v = b" and r: "\<forall>v\<in>set vs'. length v = b" using assms(2) vs by simp_all
  have z: "map (fadd (Val 0)) (map Val v) = map Val v" by simp
  have "py_sum (map (map Val) vs) = py_sum_from (Some (map Val v)) (map (map Val) vs')"
    unfolding py_sum_def vs list.map py_sum_from.simps z ..
  also have "\<dots> = Inr (Some (map Val (map (\<lambda>j. v ! j + sum_list (map (\<lambda>v. v ! j) vs')) [0..<b])))"
    using r lv by (rule py_sum_from_Val)
  also have "map (\<lambda>j. v ! j + sum_list (map (\<lambda>v. v ! j) vs')) [0..<b] = vsum b vs"
    by (simp add: vsum_def vs)
  finally show ?thesis .
qed

lemma variance_term_Val:
  assumes "length (fst (snd cd)) = b" "length (snd (snd cd)) = b" "length nm = b"
  shows "variance_term (map Val nm) (unlift (lift_dict cd)) = Inr (map Val (var_term nm cd))"
proof -
  have 1: "broadcast fsub (map Val (fst (snd cd))) (map Val nm)
      = Inr (map Val (vsub (fst (snd cd)) nm))"
    using assms by (intro broadcast_Val) simp
  have sq: "\<And>xs. map (\<lambda>v. fmul v v) (map Val xs) = map Val (map (\<lambda>v. v * v) xs)" by simp
  have 2: "broadcast fadd (map Val (map (\<lambda>v. v * v) (snd (snd cd))))
               (map Val (map (\<lambda>v. v * v) (vsub (fst (snd cd)) nm)))
      = Inr (map Val (vadd (map (\<lambda>v. v * v) (snd (snd cd)))
                           (map (\<lambda>v. v * v) (vsub (fst (snd cd)) nm))))"
    using assms by (intro broadcast_Val) simp
  have sc: "\<And>xs c. map (\<lambda>v. fmul v (Val c)) (map Val xs) = map Val (map (\<lambda>v. v * c) xs)" by simp
  have s: "mean (snd (unlift (lift_dict cd))) = map Val (fst (snd cd))"
    "std (snd (unlift (lift_dict cd))) = map Val (snd (snd cd))"
    "fst (unlift (lift_dict cd)) = fst cd"
    by (simp_all add: unlift_def lift_dict_def)
  show ?thesis
    unfolding variance_term_def s
    by (simp only: 1 2 sq sc sum.case var_term_def)
qed

lemma variance_terms_Val:
  assumes "\<forall>cd\<in>set rds. length (fst (snd cd)) = b \<and> length (snd (snd cd)) = b" "length nm = b"
  shows "variance_terms (map Val nm) (map unlift (map lift_dict rds))
       = Inr (map (map Val) (map (var_term nm) rds))"
  using assms
proof (induction rds)
  case Nil
  then show ?case by simp
next
  case (Cons cd rds)
  have "variance_term (map Val nm) (unlift (lift_dict cd)) = Inr (map Val (var_term nm cd))"
    using Cons.prems by (intro variance_term_Val) simp_all
  moreover have "variance_terms (map Val nm) (map unlift (map lift_dict rds))
       = Inr (map (map Val) (map (var_term nm) rds))"
    using Cons.prems by (intro Cons.IH) simp_all
  ultimately show ?case by simp
qed

lemma scaled_means_Val:
  "map (\<lambda>ld. map (\<lambda>v. fmul v (Val (real_of_int (fst ld)))) (mean (snd ld)))
       (map unlift (map lift_dict rds))
   = map (map Val) (map scaled_mean rds)"
  by (simp add: unlift_def lift_dict_def scaled_mean_def)

lemma over_total_Val:
  "t \<noteq> 0 \<Longrightarrow> over_total (Some (map Val xs)) t = Inr (map Val (vdiv xs (real_of_int t)))"
  by (simp add: over_total_def vdiv_def)

lemma vsum_scaled_mean:
  assumes "\<forall>cd\<in>set rds. length (fst (snd cd)) = b \<and> length (snd (snd cd)) = b"
  shows "vdiv (vsum b (map scaled_mean rds)) (real_of_int (total_count rds))
       = map (weighted_mean rds) [0..<b]"
proof (rule nth_equalityI)
  show "length (vdiv (vsum b (map scaled_mean rds)) (real_of_int (total_count rds)))
      = length (map (weighted_mean rds) [0..<b])" by (simp add: vsum_def)
next
  fix j assume "j < length (vdiv (vsum b (map scaled_mean rds)) (real_of_int (total_count rds)))"
  then have j: "j < b" by (simp add: vsum_def)
  have e: "sum_list (map ((\<lambda>v. v ! j) \<circ> scaled_mean) rds)
      = sum_list (map (\<lambda>cd. fst (snd cd) ! j * real_of_int (fst cd)) rds)"
    using assms j
    by (intro arg_cong [where f = sum_list] map_cong refl) (simp add: scaled_mean_def)
  show "vdiv (vsum b (map scaled_mean rds)) (real_of_int (total_count rds)) ! j
      = map (weighted_mean rds) [0..<b] ! j"
    using j by (simp add: nth_vops vsum_def weighted_mean_def e)
qed

lemma vsum_var_term:
  assumes "\<forall>cd\<in>set rds. length (fst (snd cd)) = b \<and> length (snd (snd cd)) = b"
  shows "vdiv (vsum b (map (var_term (map (weighted_mean rds) [0..<b])) rds))
              (real_of_int (total_count rds))
       = map (weighted_variance rds) [0..<b]"
proof (rule nth_equalityI)
  show "length (vdiv (vsum b (map (var_term (map (weighted_mean rds) [0..<b])) rds))
              (real_of_int (total_count rds)))
      = length (map (weighted_variance rds) [0..<b])" by (simp add: vsum_def)
next
  fix j
  assume "j < length (vdiv (vsum b (map (var_term (map (weighted_mean rds) [0..<b])) rds))
              (real_of_int (total_count rds)))"
  then have j: "j < b" by (simp add: vsum_def)
  have e: "sum_list (map ((\<lambda>v. v ! j) \<circ> var_term (map (weighted_mean rds) [0..<b])) rds)
      = sum_list (map (\<lambda>cd. ((snd (snd cd) ! j)\<^sup>2 + (fst (snd cd) ! j - weighted_mean rds j)\<^sup>2)
                            * real_of_int (fst cd)) rds)"
    using assms j
    by (intro arg_cong [where f = sum_list] map_cong refl)
       (simp add: var_term_def nth_vops power2_eq_square)
  show "vdiv (vsum b (map (var_term (map (weighted_mean rds) [0..<b])) rds))
              (real_of_int (total_count rds)) ! j
      = map (weighted_variance rds) [0..<b] ! j"
    using j by (simp add: nth_vops vsum_def weighted_variance_def e)
qed

lemma weighted_variance_nonneg:
  assumes "\<forall>cd\<in>set rds. 0 \<le> fst cd"
  shows "0 \<le> weighted_variance rds j"
proof -
  have "0 \<le> sum_list (map (\<lambda>cd. ((snd (snd cd) ! j)\<^sup>2 + (fst (snd cd) ! j - weighted_mean rds j)\<^sup>2)
                            * real_of_int (fst cd)) rds)"
    using assms by (intro sum_list_nonneg) auto
  moreover have "0 \<le> total_count rds"
    unfolding total_count_def using assms by (intro sum_list_nonneg) auto
  ultimately show ?thesis by (simp add: weighted_variance_def)
qed

lemma adjust_lift:
  assumes "rds \<noteq> []"
    "\<forall>cd\<in>set rds. length (fst (snd cd)) = b \<and> length (snd (snd cd)) = b \<and> 0 \<le> fst cd"
    "total_count rds \<noteq> 0"
  shows "adjust_normalizing_dict (map lift_dict rds)
       = Inr (Some \<lparr>mean = map (\<lambda>j. Val (weighted_mean rds j)) [0..<b],
                    std = map (\<lambda>j. Val (sqrt (weighted_variance rds j))) [0..<b]\<rparr>)"
proof -
  have wf: "\<forall>cd\<in>set rds. length (fst (snd cd)) = b \<and> length (snd (snd cd)) = b"
    using assms(2) by blast
  have nn: "\<forall>cd\<in>set rds. 0 \<le> fst cd" using assms(2) by blast
  have none: "\<not> list_ex (\<lambda>ld. snd ld = None) (map lift_dict rds)"
    by (simp add: list_ex_iff lift_dict_def)
  have ds: "map (\<lambda>ld. (fst ld, the (snd ld))) (map lift_dict rds) = map unlift (map lift_dict rds)"
    by (simp add: unlift_def)
  have tot: "sum_list (map fst (map unlift (map lift_dict rds))) = total_count rds"
    by (simp add: total_count_def unlift_def lift_dict_def comp_def)
  have s1: "py_sum (map (map Val) (map scaled_mean rds))
      = Inr (Some (map Val (vsum b (map scaled_mean rds))))"
    using assms(1) wf by (intro py_sum_Val) (auto simp: scaled_mean_def)
  have m1: "over_total (Some (map Val (vsum b (map scaled_mean rds)))) (total_count rds)
      = Inr (map Val (map (weighted_mean rds) [0..<b]))"
    using over_total_Val [OF assms(3)] vsum_scaled_mean [OF wf] by simp
  have vt: "variance_terms (map Val (map (weighted_mean rds) [0..<b])) (map unlift (map lift_dict rds))
      = Inr (map (map Val) (map (var_term (map (weighted_mean rds) [0..<b])) rds))"
    using wf by (intro variance_terms_Val) simp_all
  have s2: "py_sum (map (map Val) (map (var_term (map (weighted_mean rds) [0..<b])) rds))
      = Inr (Some (map Val (vsum b (map (var_term (map (weighted_mean rds) [0..<b])) rds))))"
    using assms(1) wf by (intro py_sum_Val) (auto simp: var_term_def)
  have m2: "over_total (Some (map Val (vsum b (map (var_term (map (weighted_mean rds) [0..<b])) rds))))
              (total_count rds)
      = Inr (map Val (map (weighted_variance rds) [0..<b]))"
    using over_total_Val [OF assms(3)] vsum_var_term [OF wf] by simp
  have sq: "map fsqrt (map Val (map (weighted_variance rds) [0..<b]))
      = map (\<lambda>j. Val (sqrt (weighted_variance rds j))) [0..<b]"
    using weighted_variance_nonneg [OF nn] by simp
  have mm: "map Val (map (weighted_mean rds) [0..<b]) = map (\<lambda>j. Val (weighted_mean rds j)) [0..<b]"
    by simp
  have "adjust_normalizing_dict (map lift_dict rds)
       = Inr (Some \<lparr>mean = map Val (map (weighted_mean rds) [0..<b]),
                    std = map (\<lambda>j. Val (sqrt (weighted_variance rds j))) [0..<b]\<rparr>)"
    unfolding adjust_normalizing_dict_def Let_def ds tot scaled_means_Val
    by (simp only: none if_False s1 m1 vt s2 m2 sq sum.case option.case)
  then show ?thesis unfolding mm .
qed

text \<open>
  C3, as the code has it. The read-out is None for the state a new engineer starts
  with, and it is never None after \<open>update_normalizing_values\<close> has returned, whatever
  the number of rows folded. On finite rows of one width, folded from the start, the
  state holds the number of rows, the running mean and \<open>M2\<close>, and the read-out is the
  mean with std = sqrt(M2 / (n - 1)) in numpy's arithmetic: from the second row on this
  is the real square root, and after a single row it is NaN in every band (0 / 0), not
  None.
\<close>

theorem calculate_normalizing_dict_available:
  "calculate_normalizing_dict norm_interim_init = None
   \<and> (\<forall>ni a ni'. update_normalizing_values ni a = Inr ni' \<longrightarrow>
         calculate_normalizing_dict ni' \<noteq> None)
   \<and> (\<forall>rows b. (\<forall>x\<in>set rows. length x = b) \<longrightarrow>
        (\<exists>m M2. update_normalizing_values norm_interim_init (Arr2 b (map (map Val) rows))
                  = Inr \<lparr>n_rows = int (length rows), mean_M2 = Some (map Val m, map Val M2)\<rparr>
           \<and> length m = b \<and> length M2 = b
           \<and> (\<forall>j<b. real (length rows) * m ! j = col_sum rows j)
           \<and> calculate_normalizing_dict
                \<lparr>n_rows = int (length rows), mean_M2 = Some (map Val m, map Val M2)\<rparr>
              = Some \<lparr>mean = map Val m,
                      std = map (\<lambda>v. fsqrt (fdiv (Val v) (Val (real (length rows) - 1)))) M2\<rparr>
           \<and> (2 \<le> length rows \<longrightarrow>
                map (\<lambda>v. fsqrt (fdiv (Val v) (Val (real (length rows) - 1)))) M2
                = map (\<lambda>v. Val (sqrt (v / (real (length rows) - 1)))) M2)
           \<and> (length rows = 1 \<longrightarrow>
                map (\<lambda>v. fsqrt (fdiv (Val v) (Val (real (length rows) - 1)))) M2
                = replicate b NaN)))"
proof (intro conjI allI impI)
  show "calculate_normalizing_dict norm_interim_init = None"
    by (simp add: calculate_normalizing_dict_def norm_interim_init_def)
next
  fix ni a ni'
  assume "update_normalizing_values ni a = Inr ni'"
  then show "calculate_normalizing_dict ni' \<noteq> None"
    by (simp add: calculate_None_iff update_Some)
next
  fix rows :: "real list list" and b
  assume a: "\<forall>x\<in>set rows. length x = b"
  from welford_facts [OF a] obtain m M2 where
    w: "welford b rows = (length rows, m, M2)" "length m = b" "length M2 = b"
       "\<forall>j<b. real (length rows) * m ! j = col_sum rows j
              \<and> M2 ! j = col_sum_sq rows j - real (length rows) * (m ! j)\<^sup>2
              \<and> 0 \<le> M2 ! j" by blast
  have u: "update_normalizing_values norm_interim_init (Arr2 b (map (map Val) rows))
            = Inr \<lparr>n_rows = int (length rows), mean_M2 = Some (map Val m, map Val M2)\<rparr>"
    using update_lift [OF a] w(1) by (simp add: lift_interim_def)
  have c: "calculate_normalizing_dict
          \<lparr>n_rows = int (length rows), mean_M2 = Some (map Val m, map Val M2)\<rparr>
        = Some \<lparr>mean = map Val m,
                std = map (\<lambda>v. fsqrt (fdiv (Val v) (Val (real (length rows) - 1)))) M2\<rparr>"
    using calculate_lift [of "length rows" m M2] by (simp add: lift_interim_def)
  have two: "2 \<le> length rows \<longrightarrow>
          map (\<lambda>v. fsqrt (fdiv (Val v) (Val (real (length rows) - 1)))) M2
          = map (\<lambda>v. Val (sqrt (v / (real (length rows) - 1)))) M2"
    using std_two_rows [of "length rows" M2] w(3,4) by blast
  have one: "length rows = 1 \<longrightarrow>
          map (\<lambda>v. fsqrt (fdiv (Val v) (Val (real (length rows) - 1)))) M2 = replicate b NaN"
  proof
    assume l: "length rows = 1"
    have "\<forall>j<b. M2 ! j = 0"
    proof (intro allI impI)
      fix j assume j: "j < b"
      from l obtain x where x: "rows = [x]" by (cases rows) auto
      from w(4) j have "m ! j = col_sum rows j" "M2 ! j = col_sum_sq rows j - (m ! j)\<^sup>2"
        using l by auto
      then show "M2 ! j = 0" by (simp add: x col_sum_def col_sum_sq_def)
    qed
    then show "map (\<lambda>v. fsqrt (fdiv (Val v) (Val (real (length rows) - 1)))) M2 = replicate b NaN"
      using w(3) l by (intro nth_equalityI) simp_all
  qed
  show "\<exists>m M2. update_normalizing_values norm_interim_init (Arr2 b (map (map Val) rows))
            = Inr \<lparr>n_rows = int (length rows), mean_M2 = Some (map Val m, map Val M2)\<rparr>
     \<and> length m = b \<and> length M2 = b
     \<and> (\<forall>j<b. real (length rows) * m ! j = col_sum rows j)
     \<and> calculate_normalizing_dict
          \<lparr>n_rows = int (length rows), mean_M2 = Some (map Val m, map Val M2)\<rparr>
        = Some \<lparr>mean = map Val m,
                std = map (\<lambda>v. fsqrt (fdiv (Val v) (Val (real (length rows) - 1)))) M2\<rparr>
     \<and> (2 \<le> length rows \<longrightarrow>
          map (\<lambda>v. fsqrt (fdiv (Val v) (Val (real (length rows) - 1)))) M2
          = map (\<lambda>v. Val (sqrt (v / (real (length rows) - 1)))) M2)
     \<and> (length rows = 1 \<longrightarrow>
          map (\<lambda>v. fsqrt (fdiv (Val v) (Val (real (length rows) - 1)))) M2 = replicate b NaN)"
    using u c two one w(2,3,4) by blast
qed

text \<open>The theorem on the two one-band rows 1 and 3: mean 2, \<open>M2\<close> 2, std sqrt 2.\<close>

theorem calculate_normalizing_dict_available_witness:
  "list_all (\<lambda>x. length x = 1) [[1 :: real], [3]]
   \<and> update_normalizing_values norm_interim_init (Arr2 1 [[Val 1], [Val 3]])
       = Inr \<lparr>n_rows = 2, mean_M2 = Some ([Val 2], [Val 2])\<rparr>
   \<and> calculate_normalizing_dict \<lparr>n_rows = 2, mean_M2 = Some ([Val 2], [Val 2])\<rparr>
       = Some \<lparr>mean = [Val 2], std = [Val (sqrt 2)]\<rparr>"
proof -
  have h: "\<forall>x\<in>set [[1 :: real], [3]]. length x = 1" by simp
  from calculate_normalizing_dict_available h
  obtain m M2 where
    r: "update_normalizing_values norm_interim_init (Arr2 1 (map (map Val) [[1], [3]]))
          = Inr \<lparr>n_rows = int (length [[1 :: real], [3]]), mean_M2 = Some (map Val m, map Val M2)\<rparr>"
       "calculate_normalizing_dict
          \<lparr>n_rows = int (length [[1 :: real], [3]]), mean_M2 = Some (map Val m, map Val M2)\<rparr>
        = Some \<lparr>mean = map Val m,
                std = map (\<lambda>v. fsqrt (fdiv (Val v) (Val (real (length [[1 :: real], [3]]) - 1)))) M2\<rparr>"
       "2 \<le> length [[1 :: real], [3]] \<longrightarrow>
                map (\<lambda>v. fsqrt (fdiv (Val v) (Val (real (length [[1 :: real], [3]]) - 1)))) M2
                = map (\<lambda>v. Val (sqrt (v / (real (length [[1 :: real], [3]]) - 1)))) M2"
    by blast
  have e: "update_normalizing_values norm_interim_init (Arr2 1 [[Val 1], [Val 3]])
       = Inr \<lparr>n_rows = 2, mean_M2 = Some ([Val 2], [Val 2])\<rparr>"
    by (simp add: norm_interim_init_def initialize_def fold_row_def broadcast_def inplace_def
        fsub_def)
  from r(1) e have "map Val m = [Val 2]" "map Val M2 = [Val 2]" by simp_all
  then have m: "m = [2]" "M2 = [2]" by auto
  from r(2,3) have "calculate_normalizing_dict \<lparr>n_rows = 2, mean_M2 = Some ([Val 2], [Val 2])\<rparr>
       = Some \<lparr>mean = [Val 2], std = [Val (sqrt 2)]\<rparr>"
    unfolding m by simp
  with e show ?thesis by simp
qed

text \<open>
  C3 as stated fails: after one folded row the read-out is a dictionary, with NaN for
  std, and not None.
\<close>

theorem calculate_normalizing_dict_one_row:
  "update_normalizing_values norm_interim_init (Arr2 1 [[Val 5]])
     = Inr \<lparr>n_rows = 1, mean_M2 = Some ([Val 5], [Val 0])\<rparr>
   \<and> calculate_normalizing_dict \<lparr>n_rows = 1, mean_M2 = Some ([Val 5], [Val 0])\<rparr>
     = Some \<lparr>mean = [Val 5], std = [NaN]\<rparr>
   \<and> calculate_normalizing_dict \<lparr>n_rows = 1, mean_M2 = Some ([Val 5], [Val 0])\<rparr> \<noteq> None"
  by (simp add: norm_interim_init_def initialize_def fold_row_def broadcast_def inplace_def
      fsub_def calculate_normalizing_dict_def)

text \<open>
  C4. A merge with an unavailable entry returns None. On a non-empty sequence of pairs
  with finite statistics of one width, counts that are not negative and a positive
  total, the merged mean is the count-weighted average of the means and the merged std
  is the square root of the count-weighted average of
  \<open>std\<^sup>2 + (mean - merged mean)\<^sup>2\<close>, whose square is that average again. Counts
  100 and 50 with means 1 and 2 and zero std merge to the mean 4/3.
\<close>

theorem adjust_normalizing_dict_weighted:
  "(\<forall>dicts. list_ex (\<lambda>ld. snd ld = None) dicts \<longrightarrow> adjust_normalizing_dict dicts = Inr None)
   \<and> (\<forall>rds b. rds \<noteq> []
         \<and> (\<forall>cd\<in>set rds. length (fst (snd cd)) = b \<and> length (snd (snd cd)) = b \<and> 0 \<le> fst cd)
         \<and> 0 < total_count rds \<longrightarrow>
           adjust_normalizing_dict (map lift_dict rds)
             = Inr (Some \<lparr>mean = map (\<lambda>j. Val (weighted_mean rds j)) [0..<b],
                          std = map (\<lambda>j. Val (sqrt (weighted_variance rds j))) [0..<b]\<rparr>)
         \<and> (\<forall>j. (sqrt (weighted_variance rds j))\<^sup>2 = weighted_variance rds j))
   \<and> adjust_normalizing_dict
        [(100, Some \<lparr>mean = [Val 1], std = [Val 0]\<rparr>), (50, Some \<lparr>mean = [Val 2], std = [Val 0]\<rparr>)]
       = Inr (Some \<lparr>mean = [Val (4 / 3)], std = [Val (sqrt (2 / 9))]\<rparr>)"
proof (intro conjI allI impI)
  fix dicts :: "(int \<times> normalizing_dict option) list"
  assume "list_ex (\<lambda>ld. snd ld = None) dicts"
  then show "adjust_normalizing_dict dicts = Inr None"
    by (simp add: adjust_normalizing_dict_def)
next
  fix rds :: "(int \<times> real list \<times> real list) list" and b
  assume a: "rds \<noteq> []
         \<and> (\<forall>cd\<in>set rds. length (fst (snd cd)) = b \<and> length (snd (snd cd)) = b \<and> 0 \<le> fst cd)
         \<and> 0 < total_count rds"
  then have "total_count rds \<noteq> 0" by simp
  with a show "adjust_normalizing_dict (map lift_dict rds)
             = Inr (Some \<lparr>mean = map (\<lambda>j. Val (weighted_mean rds j)) [0..<b],
                          std = map (\<lambda>j. Val (sqrt (weighted_variance rds j))) [0..<b]\<rparr>)"
    by (intro adjust_lift) blast+
next
  fix rds :: "(int \<times> real list \<times> real list) list" and b j
  assume a: "rds \<noteq> []
         \<and> (\<forall>cd\<in>set rds. length (fst (snd cd)) = b \<and> length (snd (snd cd)) = b \<and> 0 \<le> fst cd)
         \<and> 0 < total_count rds"
  then have "0 \<le> weighted_variance rds j" by (intro weighted_variance_nonneg) blast
  then show "(sqrt (weighted_variance rds j))\<^sup>2 = weighted_variance rds j" by simp
next
  define rds :: "(int \<times> real list \<times> real list) list" where "rds = [(100, [1], [0]), (50, [2], [0])]"
  have "adjust_normalizing_dict (map lift_dict rds)
       = Inr (Some \<lparr>mean = map (\<lambda>j. Val (weighted_mean rds j)) [0..<1],
                    std = map (\<lambda>j. Val (sqrt (weighted_variance rds j))) [0..<1]\<rparr>)"
    by (rule adjust_lift) (simp_all add: rds_def total_count_def)
  moreover have wm: "weighted_mean rds 0 = 4 / 3"
    by (simp add: rds_def weighted_mean_def total_count_def)
  moreover have "weighted_variance rds 0 = 2 / 9"
    unfolding weighted_variance_def wm
    by (simp add: rds_def total_count_def power2_eq_square)
  ultimately show "adjust_normalizing_dict
        [(100, Some \<lparr>mean = [Val 1], std = [Val 0]\<rparr>), (50, Some \<lparr>mean = [Val 2], std = [Val 0]\<rparr>)]
       = Inr (Some \<lparr>mean = [Val (4 / 3)], std = [Val (sqrt (2 / 9))]\<rparr>)"
    by (simp add: rds_def lift_dict_def)
qed

text \<open>
  The theorem on a sequence with an unavailable entry, and on the pairs (1, mean 0) and
  (1, mean 2) with zero std, which merge to mean 1 and std 1.
\<close>

theorem adjust_normalizing_dict_weighted_witness:
  "list_ex (\<lambda>ld. snd ld = None) [(3, Some \<lparr>mean = [Val 1], std = [Val 0]\<rparr>), (2, None)]
   \<and> adjust_normalizing_dict [(3, Some \<lparr>mean = [Val 1], std = [Val 0]\<rparr>), (2, None)] = Inr None
   \<and> [(1, [0], [0]), (1, [2], [0])] \<noteq> []
   \<and> list_all (\<lambda>cd. length (fst (snd cd)) = 1 \<and> length (snd (snd cd)) = 1 \<and> 0 \<le> fst cd)
         [(1 :: int, [0 :: real], [0 :: real]), (1, [2], [0])]
   \<and> 0 < total_count [(1, [0], [0]), (1, [2], [0])]
   \<and> adjust_normalizing_dict
        [(1, Some \<lparr>mean = [Val 0], std = [Val 0]\<rparr>), (1, Some \<lparr>mean = [Val 2], std = [Val 0]\<rparr>)]
       = Inr (Some \<lparr>mean = [Val 1], std = [Val 1]\<rparr>)"
proof -
  define rds :: "(int \<times> real list \<times> real list) list" where "rds = [(1, [0], [0]), (1, [2], [0])]"
  have h1: "list_ex (\<lambda>ld. snd ld = None) [(3, Some \<lparr>mean = [Val 1], std = [Val 0]\<rparr>), (2, None)]"
    by simp
  have h2: "rds \<noteq> []"
    and h3: "\<forall>cd\<in>set rds. length (fst (snd cd)) = 1 \<and> length (snd (snd cd)) = 1 \<and> 0 \<le> fst cd"
    and h4: "0 < total_count rds"
    by (simp_all add: rds_def total_count_def)
  from adjust_normalizing_dict_weighted h1
  have c1: "adjust_normalizing_dict [(3, Some \<lparr>mean = [Val 1], std = [Val 0]\<rparr>), (2, None)]
      = Inr None" by blast
  from adjust_normalizing_dict_weighted h2 h3 h4
  have "adjust_normalizing_dict (map lift_dict rds)
             = Inr (Some \<lparr>mean = map (\<lambda>j. Val (weighted_mean rds j)) [0..<1],
                          std = map (\<lambda>j. Val (sqrt (weighted_variance rds j))) [0..<1]\<rparr>)"
    by blast
  moreover have wm: "weighted_mean rds 0 = 1"
    by (simp add: rds_def weighted_mean_def total_count_def)
  moreover have "weighted_variance rds 0 = 1"
    unfolding weighted_variance_def wm
    by (simp add: rds_def total_count_def)
  ultimately have c2: "adjust_normalizing_dict
        [(1, Some \<lparr>mean = [Val 0], std = [Val 0]\<rparr>), (1, Some \<lparr>mean = [Val 2], std = [Val 0]\<rparr>)]
       = Inr (Some \<lparr>mean = [Val 1], std = [Val 1]\<rparr>)"
    by (simp add: rds_def lift_dict_def)
  have h3': "list_all (\<lambda>cd. length (fst (snd cd)) = 1 \<and> length (snd (snd cd)) = 1 \<and> 0 \<le> fst cd) rds"
    using h3 by (simp add: list_all_iff)
  from h1 c1 h2 h3' h4 c2 show ?thesis unfolding rds_def by blast
qed

section \<open>Order of the rows and merging\<close>

lemma sum_list_map_mset:
  fixes f :: "'a \<Rightarrow> real"
  assumes "mset xs = mset ys"
  shows "sum_list (map f xs) = sum_list (map f ys)"
proof -
  have "sum_list (map f xs) = sum_mset (image_mset f (mset xs))"
    by (metis mset_map sum_mset_sum_list)
  also have "\<dots> = sum_mset (image_mset f (mset ys))" using assms by simp
  also have "\<dots> = sum_list (map f ys)" by (metis mset_map sum_mset_sum_list)
  finally show ?thesis .
qed

lemma sum_list_map_mset_int:
  fixes f :: "'a \<Rightarrow> int"
  assumes "mset xs = mset ys"
  shows "sum_list (map f xs) = sum_list (map f ys)"
proof -
  have "sum_list (map f xs) = sum_mset (image_mset f (mset xs))"
    by (metis mset_map sum_mset_sum_list)
  also have "\<dots> = sum_mset (image_mset f (mset ys))" using assms by simp
  also have "\<dots> = sum_list (map f ys)" by (metis mset_map sum_mset_sum_list)
  finally show ?thesis .
qed

lemma col_sum_mset:
  assumes "mset rows1 = mset rows2"
  shows "col_sum rows1 j = col_sum rows2 j" "col_sum_sq rows1 j = col_sum_sq rows2 j"
  unfolding col_sum_def col_sum_sq_def using assms by (rule sum_list_map_mset)+

lemma welford_determined:
  assumes "welford_inv b rows (k, m, M2)" "welford_inv b rows' (k', m', M2')"
    "length rows = length rows'"
    "\<forall>j<b. col_sum rows j = col_sum rows' j \<and> col_sum_sq rows j = col_sum_sq rows' j"
    "rows = [] \<longrightarrow> m = m'"
  shows "(k, m, M2) = (k', m', M2')"
proof -
  from assms(1) have i: "k = length rows" "length m = b" "length M2 = b"
    and j: "\<forall>j<b. real k * m ! j = col_sum rows j
               \<and> M2 ! j = col_sum_sq rows j - real k * (m ! j)\<^sup>2 \<and> 0 \<le> M2 ! j"
    unfolding welford_inv_def prod.case by blast+
  from assms(2) have i': "k' = length rows'" "length m' = b" "length M2' = b"
    and j': "\<forall>j<b. real k' * m' ! j = col_sum rows' j
               \<and> M2' ! j = col_sum_sq rows' j - real k' * (m' ! j)\<^sup>2 \<and> 0 \<le> M2' ! j"
    unfolding welford_inv_def prod.case by blast+
  have k: "k = k'" using i(1) i'(1) assms(3) by simp
  have m: "m = m'"
  proof (cases "rows = []")
    case True
    then show ?thesis using assms(5) by simp
  next
    case False
    then have kp: "real k \<noteq> 0" using i(1) by simp
    show ?thesis
    proof (rule nth_equalityI)
      show "length m = length m'" using i(2) i'(2) by simp
    next
      fix jj assume "jj < length m"
      then have jb: "jj < b" using i(2) by simp
      have "real k * m ! jj = real k * m' ! jj"
        using j j' jb assms(4) k by simp
      then show "m ! jj = m' ! jj" using kp by simp
    qed
  qed
  have "M2 = M2'"
  proof (rule nth_equalityI)
    show "length M2 = length M2'" using i(3) i'(3) by simp
  next
    fix jj assume "jj < length M2"
    then have jb: "jj < b" using i(3) by simp
    show "M2 ! jj = M2' ! jj" using j j' jb assms(4) k m by simp
  qed
  with k m show ?thesis by simp
qed

lemma welford_inv_welford:
  assumes "\<forall>x\<in>set rows. length x = b"
  shows "welford_inv b rows (welford b rows)"
  unfolding welford_def using assms by (rule welford_inv_foldl)

lemma welford_mset:
  assumes "mset rows1 = mset rows2" "\<forall>x\<in>set rows1. length x = b"
  shows "welford b rows1 = welford b rows2"
proof -
  have s: "set rows1 = set rows2" using assms(1) by (rule mset_eq_setD)
  have l: "length rows1 = length rows2" using assms(1) by (rule mset_eq_length)
  have w2: "\<forall>x\<in>set rows2. length x = b" using assms(2) s by simp
  obtain k m M2 where a: "welford b rows1 = (k, m, M2)" by (cases "welford b rows1")
  obtain k' m' M2' where b: "welford b rows2 = (k', m', M2')" by (cases "welford b rows2")
  have e: "rows1 = [] \<longrightarrow> m = m'"
  proof
    assume "rows1 = []"
    moreover from this l have "rows2 = []" by simp
    ultimately show "m = m'" using a b by (simp add: welford_def)
  qed
  have "(k, m, M2) = (k', m', M2')"
    using welford_inv_welford [OF assms(2)] welford_inv_welford [OF w2] l
      col_sum_mset [OF assms(1)] e
    unfolding a b by (intro welford_determined [of b rows1 _ _ _ rows2]) simp_all
  then show ?thesis using a b by simp
qed

lemma calculate_lift_two:
  assumes "welford_inv b rows (k, m, M2)" "2 \<le> k"
  shows "(int k, calculate_normalizing_dict (lift_interim (k, m, M2)))
       = lift_dict (int k, m, map (\<lambda>v. sqrt (v / (real k - 1))) M2)"
proof -
  from assms(1) have "length M2 = b" "\<forall>j<b. 0 \<le> M2 ! j"
    unfolding welford_inv_def prod.case by blast+
  then have "\<forall>j<length M2. 0 \<le> M2 ! j" by simp
  from std_two_rows [OF assms(2) this] show ?thesis
    by (simp add: calculate_lift lift_dict_def)
qed

lemma weighted_mean_two:
  assumes "real_of_int (c1 + c2) \<noteq> 0"
  shows "weighted_mean [(c1, m1, s1), (c2, m2, s2)] j
       = (m1 ! j * real_of_int c1 + m2 ! j * real_of_int c2) / real_of_int (c1 + c2)"
  by (simp add: weighted_mean_def total_count_def)

lemma merge_mean_sequential:
  assumes "\<forall>x\<in>set (xs @ ys). length x = b" "2 \<le> length xs" "2 \<le> length ys"
  shows "\<exists>nx ny nxy dx dy dxy d.
           update_normalizing_values norm_interim_init (Arr2 b (map (map Val) xs)) = Inr nx
         \<and> update_normalizing_values norm_interim_init (Arr2 b (map (map Val) ys)) = Inr ny
         \<and> update_normalizing_values norm_interim_init (Arr2 b (map (map Val) (xs @ ys))) = Inr nxy
         \<and> calculate_normalizing_dict nx = Some dx
         \<and> calculate_normalizing_dict ny = Some dy
         \<and> calculate_normalizing_dict nxy = Some dxy
         \<and> adjust_normalizing_dict [(int (length xs), Some dx), (int (length ys), Some dy)]
             = Inr (Some d)
         \<and> mean d = mean dxy"
proof -
  have wx: "\<forall>x\<in>set xs. length x = b" and wy: "\<forall>x\<in>set ys. length x = b"
    using assms(1) by auto
  from welford_facts [OF wx] obtain mx Mx where
    x: "welford b xs = (length xs, mx, Mx)" "length mx = b" "length Mx = b"
       "\<forall>j<b. real (length xs) * mx ! j = col_sum xs j" by blast
  from welford_facts [OF wy] obtain my My where
    y: "welford b ys = (length ys, my, My)" "length my = b" "length My = b"
       "\<forall>j<b. real (length ys) * my ! j = col_sum ys j" by blast
  from welford_facts [OF assms(1)] obtain m M where
    xy: "welford b (xs @ ys) = (length (xs @ ys), m, M)" "length m = b" "length M = b"
       "\<forall>j<b. real (length (xs @ ys)) * m ! j = col_sum (xs @ ys) j" by blast
  define sx where "sx = map (\<lambda>v. sqrt (v / (real (length xs) - 1))) Mx"
  define sy where "sy = map (\<lambda>v. sqrt (v / (real (length ys) - 1))) My"
  define rds where "rds = [(int (length xs), mx, sx), (int (length ys), my, sy)]"
  have ix: "welford_inv b xs (length xs, mx, Mx)"
    using welford_inv_welford [OF wx] x(1) by simp
  have iy: "welford_inv b ys (length ys, my, My)"
    using welford_inv_welford [OF wy] y(1) by simp
  have cx: "(int (length xs), calculate_normalizing_dict (lift_interim (length xs, mx, Mx)))
       = lift_dict (int (length xs), mx, sx)"
    unfolding sx_def using ix assms(2) by (rule calculate_lift_two)
  have cy: "(int (length ys), calculate_normalizing_dict (lift_interim (length ys, my, My)))
       = lift_dict (int (length ys), my, sy)"
    unfolding sy_def using iy assms(3) by (rule calculate_lift_two)
  have tot: "total_count rds = int (length xs) + int (length ys)"
    by (simp add: rds_def total_count_def)
  have adj: "adjust_normalizing_dict (map lift_dict rds)
       = Inr (Some \<lparr>mean = map (\<lambda>j. Val (weighted_mean rds j)) [0..<b],
                    std = map (\<lambda>j. Val (sqrt (weighted_variance rds j))) [0..<b]\<rparr>)"
  proof (rule adjust_lift)
    show "rds \<noteq> []" by (simp add: rds_def)
    show "\<forall>cd\<in>set rds. length (fst (snd cd)) = b \<and> length (snd (snd cd)) = b \<and> 0 \<le> fst cd"
      using x(2,3) y(2,3) by (simp add: rds_def sx_def sy_def)
    show "total_count rds \<noteq> 0" using assms(2) tot by simp
  qed
  have mm: "map (\<lambda>j. Val (weighted_mean rds j)) [0..<b] = map Val m"
  proof (rule nth_equalityI)
    show "length (map (\<lambda>j. Val (weighted_mean rds j)) [0..<b]) = length (map Val m)"
      using xy(2) by simp
  next
    fix j assume "j < length (map (\<lambda>j. Val (weighted_mean rds j)) [0..<b])"
    then have jb: "j < b" by simp
    have n0: "real_of_int (int (length xs) + int (length ys)) \<noteq> 0" using assms(2) by simp
    have "weighted_mean rds j
        = (mx ! j * real (length xs) + my ! j * real (length ys))
            / (real (length xs) + real (length ys))"
      unfolding rds_def using weighted_mean_two [OF n0] by simp
    also have "\<dots> = (col_sum xs j + col_sum ys j) / (real (length xs) + real (length ys))"
      using x(4) y(4) jb by (simp add: mult.commute)
    also have "col_sum xs j + col_sum ys j = real (length (xs @ ys)) * m ! j"
      using xy(4) jb by (simp add: col_sum_def)
    also have "\<dots> / (real (length xs) + real (length ys)) = m ! j"
      using assms(2) by simp
    finally show "map (\<lambda>j. Val (weighted_mean rds j)) [0..<b] ! j = map Val m ! j"
      using jb xy(2) by simp
  qed
  have ux: "update_normalizing_values norm_interim_init (Arr2 b (map (map Val) xs))
      = Inr (lift_interim (length xs, mx, Mx))"
    using update_lift [OF wx] x(1) by simp
  have uy: "update_normalizing_values norm_interim_init (Arr2 b (map (map Val) ys))
      = Inr (lift_interim (length ys, my, My))"
    using update_lift [OF wy] y(1) by simp
  have uxy: "update_normalizing_values norm_interim_init (Arr2 b (map (map Val) (xs @ ys)))
      = Inr (lift_interim (length (xs @ ys), m, M))"
    using update_lift [OF assms(1)] xy(1) by simp
  have dx: "calculate_normalizing_dict (lift_interim (length xs, mx, Mx))
      = Some \<lparr>mean = map Val mx, std = map Val sx\<rparr>"
    using cx by (simp add: lift_dict_def)
  have dy: "calculate_normalizing_dict (lift_interim (length ys, my, My))
      = Some \<lparr>mean = map Val my, std = map Val sy\<rparr>"
    using cy by (simp add: lift_dict_def)
  have dxy: "calculate_normalizing_dict (lift_interim (length (xs @ ys), m, M))
      = Some \<lparr>mean = map Val m,
              std = map (\<lambda>v. fsqrt (fdiv (Val v) (Val (real (length (xs @ ys)) - 1)))) M\<rparr>"
    by (rule calculate_lift)
  have adj': "adjust_normalizing_dict
        [(int (length xs), Some \<lparr>mean = map Val mx, std = map Val sx\<rparr>),
         (int (length ys), Some \<lparr>mean = map Val my, std = map Val sy\<rparr>)]
       = Inr (Some \<lparr>mean = map Val m,
                    std = map (\<lambda>j. Val (sqrt (weighted_variance rds j))) [0..<b]\<rparr>)"
    using adj unfolding mm by (simp add: rds_def lift_dict_def)
  let ?nx = "lift_interim (length xs, mx, Mx)"
  let ?ny = "lift_interim (length ys, my, My)"
  let ?nxy = "lift_interim (length (xs @ ys), m, M)"
  let ?dx = "\<lparr>mean = map Val mx, std = map Val sx\<rparr>"
  let ?dy = "\<lparr>mean = map Val my, std = map Val sy\<rparr>"
  let ?dxy = "\<lparr>mean = map Val m,
              std = map (\<lambda>v. fsqrt (fdiv (Val v) (Val (real (length (xs @ ys)) - 1)))) M\<rparr>"
  let ?d = "\<lparr>mean = map Val m,
                    std = map (\<lambda>j. Val (sqrt (weighted_variance rds j))) [0..<b]\<rparr>"
  have "update_normalizing_values norm_interim_init (Arr2 b (map (map Val) xs)) = Inr ?nx
         \<and> update_normalizing_values norm_interim_init (Arr2 b (map (map Val) ys)) = Inr ?ny
         \<and> update_normalizing_values norm_interim_init (Arr2 b (map (map Val) (xs @ ys))) = Inr ?nxy
         \<and> calculate_normalizing_dict ?nx = Some ?dx
         \<and> calculate_normalizing_dict ?ny = Some ?dy
         \<and> calculate_normalizing_dict ?nxy = Some ?dxy
         \<and> adjust_normalizing_dict [(int (length xs), Some ?dx), (int (length ys), Some ?dy)]
             = Inr (Some ?d)
         \<and> mean ?d = mean ?dxy"
    using ux uy uxy dx dy dxy adj' by (intro conjI) simp_all
  then show ?thesis by blast
qed

lemma weighted_mset:
  assumes "mset rds = mset rds'"
  shows "total_count rds = total_count rds'"
    "weighted_mean rds j = weighted_mean rds' j"
    "weighted_variance rds j = weighted_variance rds' j"
proof -
  show t: "total_count rds = total_count rds'"
    unfolding total_count_def using assms by (rule sum_list_map_mset_int)
  show m: "weighted_mean rds j = weighted_mean rds' j"
    unfolding weighted_mean_def t
    using sum_list_map_mset [OF assms, of "\<lambda>cd. fst (snd cd) ! j * real_of_int (fst cd)"]
    by simp
  show "weighted_variance rds j = weighted_variance rds' j"
    unfolding weighted_variance_def t m
    using sum_list_map_mset [OF assms,
        of "\<lambda>cd. ((snd (snd cd) ! j)\<^sup>2 + (fst (snd cd) ! j - weighted_mean rds' j)\<^sup>2)
                  * real_of_int (fst cd)"]
    by simp
qed

lemma adjust_mset:
  assumes "mset rds = mset rds'"
    "\<forall>cd\<in>set rds. length (fst (snd cd)) = b \<and> length (snd (snd cd)) = b \<and> 0 \<le> fst cd"
    "0 < total_count rds"
  shows "adjust_normalizing_dict (map lift_dict rds) = adjust_normalizing_dict (map lift_dict rds')"
proof -
  have s: "set rds = set rds'" using assms(1) by (rule mset_eq_setD)
  have ne: "rds \<noteq> []" using assms(3) by (auto simp: total_count_def)
  then have ne': "rds' \<noteq> []" using assms(1) by auto
  have t0: "total_count rds \<noteq> 0" using assms(3) by simp
  then have t0': "total_count rds' \<noteq> 0" using weighted_mset(1) [OF assms(1)] by simp
  have wf': "\<forall>cd\<in>set rds'. length (fst (snd cd)) = b \<and> length (snd (snd cd)) = b \<and> 0 \<le> fst cd"
    using assms(2) s by simp
  show ?thesis
    unfolding adjust_lift [OF ne assms(2) t0] adjust_lift [OF ne' wf' t0']
    by (simp add: weighted_mset(2,3) [OF assms(1)])
qed

lemma merge_var_scalar:
  fixes n1 n2 m1 m2 s1 s2 m12 v12 M :: real
  assumes "n1 + n2 \<noteq> 0" "m12 = (m1 * n1 + m2 * n2) / (n1 + n2)"
    "v12 = ((s1\<^sup>2 + (m1 - m12)\<^sup>2) * n1 + (s2\<^sup>2 + (m2 - m12)\<^sup>2) * n2) / (n1 + n2)"
  shows "(v12 + (m12 - M)\<^sup>2) * (n1 + n2)
       = (s1\<^sup>2 + (m1 - M)\<^sup>2) * n1 + (s2\<^sup>2 + (m2 - M)\<^sup>2) * n2"
proof -
  have h: "m12 * (n1 + n2) = m1 * n1 + m2 * n2" using assms(1,2) by simp
  have v: "v12 * (n1 + n2) = (s1\<^sup>2 + (m1 - m12)\<^sup>2) * n1 + (s2\<^sup>2 + (m2 - m12)\<^sup>2) * n2"
    using assms(1,3) by simp
  have "(s1\<^sup>2 + (m1 - M)\<^sup>2) * n1 + (s2\<^sup>2 + (m2 - M)\<^sup>2) * n2
        - ((s1\<^sup>2 + (m1 - m12)\<^sup>2) * n1 + (s2\<^sup>2 + (m2 - m12)\<^sup>2) * n2 + (m12 - M)\<^sup>2 * (n1 + n2))
      = 2 * (m12 - M) * (m1 * n1 + m2 * n2 - m12 * (n1 + n2))"
    by (simp add: power2_eq_square algebra_simps)
  also have "\<dots> = 0" using h by simp
  finally have "(s1\<^sup>2 + (m1 - M)\<^sup>2) * n1 + (s2\<^sup>2 + (m2 - M)\<^sup>2) * n2
      = (s1\<^sup>2 + (m1 - m12)\<^sup>2) * n1 + (s2\<^sup>2 + (m2 - m12)\<^sup>2) * n2 + (m12 - M)\<^sup>2 * (n1 + n2)"
    by simp
  then show ?thesis using v by (simp add: algebra_simps)
qed

lemma adjust_assoc:
  fixes a1 a2 a3 :: "int \<times> real list \<times> real list"
  assumes "\<forall>cd\<in>set [a1, a2, a3].
             length (fst (snd cd)) = b \<and> length (snd (snd cd)) = b \<and> 0 \<le> fst cd"
    "0 < fst a1 + fst a2"
  shows "\<exists>d. adjust_normalizing_dict [lift_dict a1, lift_dict a2] = Inr (Some d)
     \<and> adjust_normalizing_dict [(fst a1 + fst a2, Some d), lift_dict a3]
         = adjust_normalizing_dict [lift_dict a1, lift_dict a2, lift_dict a3]"
proof -
  obtain c1 m1 s1 where a1: "a1 = (c1, m1, s1)" by (cases a1)
  obtain c2 m2 s2 where a2: "a2 = (c2, m2, s2)" by (cases a2)
  obtain c3 m3 s3 where a3: "a3 = (c3, m3, s3)" by (cases a3)
  have c: "0 \<le> c1" "0 \<le> c2" "0 \<le> c3" "0 < c1 + c2"
    using assms by (simp_all add: a1 a2 a3)
  define r12 where "r12 = [a1, a2]"
  define m12 where "m12 = map (weighted_mean r12) [0..<b]"
  define s12 where "s12 = map (\<lambda>j. sqrt (weighted_variance r12 j)) [0..<b]"
  define rn where "rn = [(c1 + c2, m12, s12), a3]"
  define rf where "rf = [a1, a2, a3]"
  have e12: "adjust_normalizing_dict (map lift_dict r12)
       = Inr (Some \<lparr>mean = map (\<lambda>j. Val (weighted_mean r12 j)) [0..<b],
                    std = map (\<lambda>j. Val (sqrt (weighted_variance r12 j))) [0..<b]\<rparr>)"
    using assms c by (intro adjust_lift) (simp_all add: r12_def total_count_def a1 a2)
  have l12: "(c1 + c2, Some \<lparr>mean = map (\<lambda>j. Val (weighted_mean r12 j)) [0..<b],
                    std = map (\<lambda>j. Val (sqrt (weighted_variance r12 j))) [0..<b]\<rparr>)
      = lift_dict (c1 + c2, m12, s12)"
    by (simp add: lift_dict_def m12_def s12_def)
  have en: "adjust_normalizing_dict (map lift_dict rn)
       = Inr (Some \<lparr>mean = map (\<lambda>j. Val (weighted_mean rn j)) [0..<b],
                    std = map (\<lambda>j. Val (sqrt (weighted_variance rn j))) [0..<b]\<rparr>)"
    using assms c by (intro adjust_lift) (simp_all add: rn_def total_count_def m12_def s12_def a3)
  have ef: "adjust_normalizing_dict (map lift_dict rf)
       = Inr (Some \<lparr>mean = map (\<lambda>j. Val (weighted_mean rf j)) [0..<b],
                    std = map (\<lambda>j. Val (sqrt (weighted_variance rf j))) [0..<b]\<rparr>)"
    using assms c by (intro adjust_lift) (simp_all add: rf_def total_count_def a1 a2 a3)
  have n12: "real_of_int c1 + real_of_int c2 \<noteq> 0" using c by linarith
  have tn: "real_of_int (total_count rn) = real_of_int c1 + real_of_int c2 + real_of_int c3"
    by (simp add: rn_def total_count_def a3)
  have tf: "real_of_int (total_count rf) = real_of_int c1 + real_of_int c2 + real_of_int c3"
    by (simp add: rf_def total_count_def a1 a2 a3)
  have w12: "\<And>j. weighted_mean r12 j
      = (m1 ! j * real_of_int c1 + m2 ! j * real_of_int c2) / (real_of_int c1 + real_of_int c2)"
    by (simp add: weighted_mean_def r12_def total_count_def a1 a2)
  have v12: "\<And>j. weighted_variance r12 j
      = (((s1 ! j)\<^sup>2 + (m1 ! j - weighted_mean r12 j)\<^sup>2) * real_of_int c1
         + ((s2 ! j)\<^sup>2 + (m2 ! j - weighted_mean r12 j)\<^sup>2) * real_of_int c2)
        / (real_of_int c1 + real_of_int c2)"
    by (simp add: weighted_variance_def r12_def total_count_def a1 a2)
  have v12nn: "\<And>j. 0 \<le> weighted_variance r12 j"
    using c by (intro weighted_variance_nonneg) (simp add: r12_def a1 a2)
  have mean_eq: "weighted_mean rn j = weighted_mean rf j" if "j < b" for j
  proof -
    have "weighted_mean rn j
        = (weighted_mean r12 j * (real_of_int c1 + real_of_int c2) + m3 ! j * real_of_int c3)
            / (real_of_int c1 + real_of_int c2 + real_of_int c3)"
      unfolding weighted_mean_def tn using that by (simp add: rn_def m12_def a3 weighted_mean_def)
    also have "weighted_mean r12 j * (real_of_int c1 + real_of_int c2)
        = m1 ! j * real_of_int c1 + m2 ! j * real_of_int c2"
      unfolding w12 using n12 by simp
    also have "(m1 ! j * real_of_int c1 + m2 ! j * real_of_int c2 + m3 ! j * real_of_int c3)
            / (real_of_int c1 + real_of_int c2 + real_of_int c3) = weighted_mean rf j"
      unfolding weighted_mean_def tf by (simp add: rf_def a1 a2 a3)
    finally show ?thesis .
  qed
  have var_eq: "weighted_variance rn j = weighted_variance rf j" if "j < b" for j
  proof -
    define M where "M = weighted_mean rf j"
    have Mn: "weighted_mean rn j = M" using mean_eq [OF that] by (simp add: M_def)
    have sq: "(s12 ! j)\<^sup>2 = weighted_variance r12 j"
      using that v12nn [of j] by (simp add: s12_def)
    have "weighted_variance rn j
        = ((weighted_variance r12 j + (weighted_mean r12 j - M)\<^sup>2)
              * (real_of_int c1 + real_of_int c2)
           + ((s3 ! j)\<^sup>2 + (m3 ! j - M)\<^sup>2) * real_of_int c3)
          / (real_of_int c1 + real_of_int c2 + real_of_int c3)"
      unfolding weighted_variance_def [of rn j] tn Mn
      using that by (simp add: rn_def a3 m12_def sq)
    also have "(weighted_variance r12 j + (weighted_mean r12 j - M)\<^sup>2)
              * (real_of_int c1 + real_of_int c2)
        = ((s1 ! j)\<^sup>2 + (m1 ! j - M)\<^sup>2) * real_of_int c1
          + ((s2 ! j)\<^sup>2 + (m2 ! j - M)\<^sup>2) * real_of_int c2"
      using n12 w12 [of j] v12 [of j] by (rule merge_var_scalar)
    also have "(((s1 ! j)\<^sup>2 + (m1 ! j - M)\<^sup>2) * real_of_int c1
          + ((s2 ! j)\<^sup>2 + (m2 ! j - M)\<^sup>2) * real_of_int c2
          + ((s3 ! j)\<^sup>2 + (m3 ! j - M)\<^sup>2) * real_of_int c3)
          / (real_of_int c1 + real_of_int c2 + real_of_int c3) = weighted_variance rf j"
      unfolding weighted_variance_def [of rf j] tf M_def by (simp add: rf_def a1 a2 a3)
    finally show ?thesis .
  qed
  have "adjust_normalizing_dict (map lift_dict rn) = adjust_normalizing_dict (map lift_dict rf)"
    unfolding en ef using mean_eq var_eq by simp
  then have "adjust_normalizing_dict [(fst a1 + fst a2,
        Some \<lparr>mean = map (\<lambda>j. Val (weighted_mean r12 j)) [0..<b],
              std = map (\<lambda>j. Val (sqrt (weighted_variance r12 j))) [0..<b]\<rparr>), lift_dict a3]
      = adjust_normalizing_dict [lift_dict a1, lift_dict a2, lift_dict a3]"
    unfolding rn_def rf_def using l12 by (simp add: a1 a2)
  moreover have "adjust_normalizing_dict [lift_dict a1, lift_dict a2]
       = Inr (Some \<lparr>mean = map (\<lambda>j. Val (weighted_mean r12 j)) [0..<b],
                    std = map (\<lambda>j. Val (sqrt (weighted_variance r12 j))) [0..<b]\<rparr>)"
    using e12 by (simp add: r12_def)
  ultimately show ?thesis by blast
qed

text \<open>
  C5, as the code has it, on finite rows of one width. Rows folded in two orders leave
  the same state, so the same mean and std are read out. Two accumulators of at least
  two rows each, merged under their own row counts, give the mean that folding all the
  rows into one accumulator gives; the std of the merge is the weighted combination of
  C4 and is not claimed to be the std of the single fold. The merge does not depend on
  the order of the pairs, and merging the merge of two pairs, under the sum of their
  counts, with a third pair is merging the three pairs at once.
\<close>

theorem normalizer_order_and_merge:
  "(\<forall>rows1 rows2 b. mset rows1 = mset rows2 \<and> (\<forall>x\<in>set rows1. length x = b) \<longrightarrow>
       update_normalizing_values norm_interim_init (Arr2 b (map (map Val) rows1))
     = update_normalizing_values norm_interim_init (Arr2 b (map (map Val) rows2)))
   \<and> (\<forall>xs ys b. (\<forall>x\<in>set (xs @ ys). length x = b) \<and> 2 \<le> length xs \<and> 2 \<le> length ys \<longrightarrow>
        (\<exists>nx ny nxy dx dy dxy d.
           update_normalizing_values norm_interim_init (Arr2 b (map (map Val) xs)) = Inr nx
         \<and> update_normalizing_values norm_interim_init (Arr2 b (map (map Val) ys)) = Inr ny
         \<and> update_normalizing_values norm_interim_init (Arr2 b (map (map Val) (xs @ ys))) = Inr nxy
         \<and> calculate_normalizing_dict nx = Some dx
         \<and> calculate_normalizing_dict ny = Some dy
         \<and> calculate_normalizing_dict nxy = Some dxy
         \<and> adjust_normalizing_dict [(int (length xs), Some dx), (int (length ys), Some dy)]
             = Inr (Some d)
         \<and> mean d = mean dxy))
   \<and> (\<forall>rds rds' b. mset rds = mset rds'
         \<and> (\<forall>cd\<in>set rds. length (fst (snd cd)) = b \<and> length (snd (snd cd)) = b \<and> 0 \<le> fst cd)
         \<and> 0 < total_count rds \<longrightarrow>
           adjust_normalizing_dict (map lift_dict rds)
         = adjust_normalizing_dict (map lift_dict rds'))
   \<and> (\<forall>a1 a2 a3 b.
         (\<forall>cd\<in>set [a1, a2, a3].
             length (fst (snd cd)) = b \<and> length (snd (snd cd)) = b \<and> 0 \<le> fst cd)
         \<and> 0 < fst a1 + fst a2 \<longrightarrow>
        (\<exists>d. adjust_normalizing_dict [lift_dict a1, lift_dict a2] = Inr (Some d)
           \<and> adjust_normalizing_dict [(fst a1 + fst a2, Some d), lift_dict a3]
               = adjust_normalizing_dict [lift_dict a1, lift_dict a2, lift_dict a3]))"
proof (intro conjI allI impI)
  fix rows1 rows2 :: "real list list" and b
  assume a: "mset rows1 = mset rows2 \<and> (\<forall>x\<in>set rows1. length x = b)"
  then have w1: "\<forall>x\<in>set rows1. length x = b" by blast
  have "set rows1 = set rows2" using a by (intro mset_eq_setD) blast
  then have w2: "\<forall>x\<in>set rows2. length x = b" using w1 by simp
  have "welford b rows1 = welford b rows2" using a by (intro welford_mset) blast+
  then show "update_normalizing_values norm_interim_init (Arr2 b (map (map Val) rows1))
     = update_normalizing_values norm_interim_init (Arr2 b (map (map Val) rows2))"
    unfolding update_lift [OF w1] update_lift [OF w2] by simp
next
  fix xs ys :: "real list list" and b
  assume "(\<forall>x\<in>set (xs @ ys). length x = b) \<and> 2 \<le> length xs \<and> 2 \<le> length ys"
  then show "\<exists>nx ny nxy dx dy dxy d.
           update_normalizing_values norm_interim_init (Arr2 b (map (map Val) xs)) = Inr nx
         \<and> update_normalizing_values norm_interim_init (Arr2 b (map (map Val) ys)) = Inr ny
         \<and> update_normalizing_values norm_interim_init (Arr2 b (map (map Val) (xs @ ys))) = Inr nxy
         \<and> calculate_normalizing_dict nx = Some dx
         \<and> calculate_normalizing_dict ny = Some dy
         \<and> calculate_normalizing_dict nxy = Some dxy
         \<and> adjust_normalizing_dict [(int (length xs), Some dx), (int (length ys), Some dy)]
             = Inr (Some d)
         \<and> mean d = mean dxy"
    by (intro merge_mean_sequential) blast+
next
  fix rds rds' :: "(int \<times> real list \<times> real list) list" and b
  assume "mset rds = mset rds'
         \<and> (\<forall>cd\<in>set rds. length (fst (snd cd)) = b \<and> length (snd (snd cd)) = b \<and> 0 \<le> fst cd)
         \<and> 0 < total_count rds"
  then show "adjust_normalizing_dict (map lift_dict rds)
         = adjust_normalizing_dict (map lift_dict rds')"
    by (intro adjust_mset [where b = b]) blast+
next
  fix a1 a2 a3 :: "int \<times> real list \<times> real list" and b
  assume "(\<forall>cd\<in>set [a1, a2, a3].
             length (fst (snd cd)) = b \<and> length (snd (snd cd)) = b \<and> 0 \<le> fst cd)
         \<and> 0 < fst a1 + fst a2"
  then show "\<exists>d. adjust_normalizing_dict [lift_dict a1, lift_dict a2] = Inr (Some d)
           \<and> adjust_normalizing_dict [(fst a1 + fst a2, Some d), lift_dict a3]
               = adjust_normalizing_dict [lift_dict a1, lift_dict a2, lift_dict a3]"
    by (intro adjust_assoc [where b = b]) blast+
qed

text \<open>
  The theorem on the rows 1 and 3 in both orders, on two accumulators holding the rows
  0 and 2 each, and on the pairs (1, mean 0), (3, mean 4) and (2, mean 1).
\<close>

theorem normalizer_order_and_merge_witness:
  "mset [[1 :: real], [3]] = mset [[3], [1]]
   \<and> list_all (\<lambda>x. length x = 1) [[1 :: real], [3]]
   \<and> update_normalizing_values norm_interim_init (Arr2 1 [[Val 1], [Val 3]])
       = update_normalizing_values norm_interim_init (Arr2 1 [[Val 3], [Val 1]])
   \<and> list_all (\<lambda>x. length x = 1) ([[0 :: real], [2]] @ [[0], [2]])
   \<and> 2 \<le> length [[0 :: real], [2]]
   \<and> (\<exists>d. adjust_normalizing_dict
              [(2, Some \<lparr>mean = [Val 1], std = [Val (sqrt 2)]\<rparr>),
               (2, Some \<lparr>mean = [Val 1], std = [Val (sqrt 2)]\<rparr>)] = Inr (Some d)
          \<and> mean d = [Val 1])
   \<and> mset [(1 :: int, [0 :: real], [0 :: real]), (3, [4], [0])] = mset [(3, [4], [0]), (1, [0], [0])]
   \<and> 0 < total_count [(1, [0], [0]), (3, [4], [0])]
   \<and> adjust_normalizing_dict
        [(1, Some \<lparr>mean = [Val 0], std = [Val 0]\<rparr>), (3, Some \<lparr>mean = [Val 4], std = [Val 0]\<rparr>)]
     = adjust_normalizing_dict
        [(3, Some \<lparr>mean = [Val 4], std = [Val 0]\<rparr>), (1, Some \<lparr>mean = [Val 0], std = [Val 0]\<rparr>)]
   \<and> (0 :: int) < 1 + 3
   \<and> (\<exists>d. adjust_normalizing_dict
              [(1, Some \<lparr>mean = [Val 0], std = [Val 0]\<rparr>),
               (3, Some \<lparr>mean = [Val 4], std = [Val 0]\<rparr>)] = Inr (Some d)
          \<and> adjust_normalizing_dict [(1 + 3, Some d), (2, Some \<lparr>mean = [Val 1], std = [Val 0]\<rparr>)]
              = adjust_normalizing_dict
                  [(1, Some \<lparr>mean = [Val 0], std = [Val 0]\<rparr>),
                   (3, Some \<lparr>mean = [Val 4], std = [Val 0]\<rparr>),
                   (2, Some \<lparr>mean = [Val 1], std = [Val 0]\<rparr>)])"
proof -
  note t = normalizer_order_and_merge
  have p1: "mset [[1 :: real], [3]] = mset [[3], [1]]" by (simp add: add_mset_commute)
  have w1: "\<forall>x\<in>set [[1 :: real], [3]]. length x = 1" by simp
  from t p1 w1
  have c1: "update_normalizing_values norm_interim_init (Arr2 1 (map (map Val) [[1], [3]]))
      = update_normalizing_values norm_interim_init (Arr2 1 (map (map Val) [[3], [1]]))"
    by blast
  have w2: "\<forall>x\<in>set ([[0 :: real], [2]] @ [[0], [2]]). length x = 1" by simp
  have l2: "2 \<le> length [[0 :: real], [2]]" by simp
  from t w2 l2
  obtain nx ny nxy dx dy dxy d where
    r: "update_normalizing_values norm_interim_init (Arr2 1 (map (map Val) [[0], [2]])) = Inr nx"
       "update_normalizing_values norm_interim_init (Arr2 1 (map (map Val) [[0], [2]])) = Inr ny"
       "update_normalizing_values norm_interim_init
          (Arr2 1 (map (map Val) ([[0], [2]] @ [[0], [2]]))) = Inr nxy"
       "calculate_normalizing_dict nx = Some dx"
       "calculate_normalizing_dict ny = Some dy"
       "calculate_normalizing_dict nxy = Some dxy"
       "adjust_normalizing_dict
          [(int (length [[0 :: real], [2]]), Some dx), (int (length [[0 :: real], [2]]), Some dy)]
        = Inr (Some d)"
       "mean d = mean dxy"
    by blast
  have ex: "update_normalizing_values norm_interim_init (Arr2 1 (map (map Val) [[0], [2]]))
      = Inr \<lparr>n_rows = 2, mean_M2 = Some ([Val 1], [Val 2])\<rparr>"
    by (simp add: norm_interim_init_def initialize_def fold_row_def broadcast_def inplace_def
        fsub_def)
  have exy: "update_normalizing_values norm_interim_init
          (Arr2 1 (map (map Val) ([[0], [2]] @ [[0], [2]])))
      = Inr \<lparr>n_rows = 4, mean_M2 = Some ([Val 1], [Val 4])\<rparr>"
    by (simp add: norm_interim_init_def initialize_def fold_row_def broadcast_def inplace_def
        fsub_def)
  have dx: "dx = \<lparr>mean = [Val 1], std = [Val (sqrt 2)]\<rparr>"
    using r(1,4) ex by (auto simp: calculate_normalizing_dict_def)
  have dy: "dy = \<lparr>mean = [Val 1], std = [Val (sqrt 2)]\<rparr>"
    using r(2,5) ex by (auto simp: calculate_normalizing_dict_def)
  have "mean dxy = [Val 1]"
    using r(3,6) exy by (auto simp: calculate_normalizing_dict_def)
  then have c2: "\<exists>d. adjust_normalizing_dict
              [(2, Some \<lparr>mean = [Val 1], std = [Val (sqrt 2)]\<rparr>),
               (2, Some \<lparr>mean = [Val 1], std = [Val (sqrt 2)]\<rparr>)] = Inr (Some d)
          \<and> mean d = [Val 1]"
    using r(7,8) unfolding dx dy by simp
  have p3: "mset [(1 :: int, [0 :: real], [0 :: real]), (3, [4], [0])]
      = mset [(3, [4], [0]), (1, [0], [0])]" by (simp add: add_mset_commute)
  have w3: "\<forall>cd\<in>set [(1 :: int, [0 :: real], [0 :: real]), (3, [4], [0])].
      length (fst (snd cd)) = 1 \<and> length (snd (snd cd)) = 1 \<and> 0 \<le> fst cd" by simp
  have t3: "0 < total_count [(1, [0], [0]), (3, [4], [0])]" by (simp add: total_count_def)
  from t p3 w3 t3
  have "adjust_normalizing_dict (map lift_dict [(1, [0], [0]), (3, [4], [0])])
         = adjust_normalizing_dict (map lift_dict [(3, [4], [0]), (1, [0], [0])])"
    by blast
  then have c3: "adjust_normalizing_dict
        [(1, Some \<lparr>mean = [Val 0], std = [Val 0]\<rparr>), (3, Some \<lparr>mean = [Val 4], std = [Val 0]\<rparr>)]
     = adjust_normalizing_dict
        [(3, Some \<lparr>mean = [Val 4], std = [Val 0]\<rparr>), (1, Some \<lparr>mean = [Val 0], std = [Val 0]\<rparr>)]"
    by (simp add: lift_dict_def)
  have w4: "\<forall>cd\<in>set [(1 :: int, [0 :: real], [0 :: real]), (3, [4], [0]), (2, [1], [0])].
      length (fst (snd cd)) = 1 \<and> length (snd (snd cd)) = 1 \<and> 0 \<le> fst cd" by simp
  have t4: "0 < fst (1 :: int, [0 :: real], [0 :: real]) + fst (3 :: int, [4 :: real], [0 :: real])"
    by simp
  from t w4 t4
  have "\<exists>d. adjust_normalizing_dict [lift_dict (1, [0], [0]), lift_dict (3, [4], [0])] = Inr (Some d)
           \<and> adjust_normalizing_dict
               [(fst (1 :: int, [0 :: real], [0 :: real]) + fst (3 :: int, [4 :: real], [0 :: real]),
                 Some d), lift_dict (2, [1], [0])]
               = adjust_normalizing_dict
                   [lift_dict (1, [0], [0]), lift_dict (3, [4], [0]), lift_dict (2, [1], [0])]"
    by blast
  then have c4: "\<exists>d. adjust_normalizing_dict
              [(1, Some \<lparr>mean = [Val 0], std = [Val 0]\<rparr>),
               (3, Some \<lparr>mean = [Val 4], std = [Val 0]\<rparr>)] = Inr (Some d)
          \<and> adjust_normalizing_dict [(1 + 3, Some d), (2, Some \<lparr>mean = [Val 1], std = [Val 0]\<rparr>)]
              = adjust_normalizing_dict
                  [(1, Some \<lparr>mean = [Val 0], std = [Val 0]\<rparr>),
                   (3, Some \<lparr>mean = [Val 4], std = [Val 0]\<rparr>),
                   (2, Some \<lparr>mean = [Val 1], std = [Val 0]\<rparr>)]"
    by (simp add: lift_dict_def)
  from p1 c1 c2 p3 t3 c3 c4 show ?thesis by simp
qed

text \<open>
  C5 as stated fails on the std of a merge. Two accumulators hold the rows 0 and 2 each:
  both read out the mean 1 and the std sqrt 2, and their merge under the counts 2 and 2
  has the std sqrt 2, while the four rows folded into one accumulator have the std
  sqrt (4/3).
\<close>

theorem merge_std_differs_from_sequential:
  "update_normalizing_values norm_interim_init (Arr2 1 [[Val 0], [Val 2]])
     = Inr \<lparr>n_rows = 2, mean_M2 = Some ([Val 1], [Val 2])\<rparr>
   \<and> calculate_normalizing_dict \<lparr>n_rows = 2, mean_M2 = Some ([Val 1], [Val 2])\<rparr>
     = Some \<lparr>mean = [Val 1], std = [Val (sqrt 2)]\<rparr>
   \<and> adjust_normalizing_dict
        [(2, Some \<lparr>mean = [Val 1], std = [Val (sqrt 2)]\<rparr>),
         (2, Some \<lparr>mean = [Val 1], std = [Val (sqrt 2)]\<rparr>)]
     = Inr (Some \<lparr>mean = [Val 1], std = [Val (sqrt 2)]\<rparr>)
   \<and> update_normalizing_values norm_interim_init (Arr2 1 [[Val 0], [Val 2], [Val 0], [Val 2]])
     = Inr \<lparr>n_rows = 4, mean_M2 = Some ([Val 1], [Val 4])\<rparr>
   \<and> calculate_normalizing_dict \<lparr>n_rows = 4, mean_M2 = Some ([Val 1], [Val 4])\<rparr>
     = Some \<lparr>mean = [Val 1], std = [Val (sqrt (4 / 3))]\<rparr>
   \<and> sqrt 2 \<noteq> sqrt (4 / 3)"
proof -
  have 1: "update_normalizing_values norm_interim_init (Arr2 1 [[Val 0], [Val 2]])
     = Inr \<lparr>n_rows = 2, mean_M2 = Some ([Val 1], [Val 2])\<rparr>"
    by (simp add: norm_interim_init_def initialize_def fold_row_def broadcast_def inplace_def
        fsub_def)
  have 2: "calculate_normalizing_dict \<lparr>n_rows = 2, mean_M2 = Some ([Val 1], [Val 2])\<rparr>
     = Some \<lparr>mean = [Val 1], std = [Val (sqrt 2)]\<rparr>"
    by (simp add: calculate_normalizing_dict_def)
  have 3: "adjust_normalizing_dict
        [(2, Some \<lparr>mean = [Val 1], std = [Val (sqrt 2)]\<rparr>),
         (2, Some \<lparr>mean = [Val 1], std = [Val (sqrt 2)]\<rparr>)]
     = Inr (Some \<lparr>mean = [Val 1], std = [Val (sqrt 2)]\<rparr>)"
    by (simp add: adjust_normalizing_dict_def py_sum_def over_total_def variance_term_def
        broadcast_def fsub_def)
  have 4: "update_normalizing_values norm_interim_init (Arr2 1 [[Val 0], [Val 2], [Val 0], [Val 2]])
     = Inr \<lparr>n_rows = 4, mean_M2 = Some ([Val 1], [Val 4])\<rparr>"
    by (simp add: norm_interim_init_def initialize_def fold_row_def broadcast_def inplace_def
        fsub_def)
  have 5: "calculate_normalizing_dict \<lparr>n_rows = 4, mean_M2 = Some ([Val 1], [Val 4])\<rparr>
     = Some \<lparr>mean = [Val 1], std = [Val (sqrt (4 / 3))]\<rparr>"
    by (simp add: calculate_normalizing_dict_def)
  have 6: "sqrt 2 \<noteq> sqrt (4 / 3)" by simp
  from 1 2 3 4 5 6 show ?thesis by blast
qed

section \<open>The dataset run: properties\<close>















lemma length_rows_stats [simp]:
  "length (rows_mean b rows) = b" "length (rows_std b rows) = b"
  by (simp_all add: rows_mean_def rows_std_def)































section \<open>NaN imputation: properties\<close>

lemma slope_fallback_no_nan:
  "\<not> list_ex isnan m \<Longrightarrow> slope_fallback D S bi m s = Inr (Some m)"
  by (simp add: slope_fallback_def)

lemma count_nan_one:
  assumes "k < length m" "\<forall>i<length m. isnan (m ! i) \<longleftrightarrow> i = k"
  shows "length (filter isnan m) = 1"
proof -
  have "{i. i < length m \<and> isnan (m ! i)} = {k}" using assms by auto
  then show ?thesis by (simp add: length_filter_conv_card)
qed

lemma count_nan_two:
  assumes "k < length m" "i < length m" "i \<noteq> k" "isnan (m ! i)" "isnan (m ! k)"
  shows "length (filter isnan m) \<noteq> 1"
proof -
  have "{i, k} \<subseteq> {i. i < length m \<and> isnan (m ! i)}" using assms by auto
  then have "card {i, k} \<le> card {i. i < length m \<and> isnan (m ! i)}"
    by (intro card_mono) simp_all
  then have "2 \<le> length (filter isnan m)"
    using assms(3) by (simp add: length_filter_conv_card)
  then show ?thesis by simp
qed

lemma slope_fallback_slope:
  assumes "list_index (BANDS D S) ''slope'' = Inr k" "k < length m"
    "\<forall>i<length m. isnan (m ! i) \<longleftrightarrow> i = k" "\<not> isnan s"
  shows "slope_fallback D S 1 m s = Inr (Some (m[k := s]))"
    and "\<not> list_ex isnan (m[k := s])"
proof -
  have "m ! k \<in> set m" "isnan (m ! k)" using assms(2,3) by simp_all
  then have ex: "list_ex isnan m" unfolding list_ex_iff by blast
  have c: "length (filter isnan m) = 1" using assms(2,3) by (rule count_nan_one)
  have k: "isnan (m ! k)" using assms(2,3) by simp
  show n: "\<not> list_ex isnan (m[k := s])"
  proof
    assume "list_ex isnan (m[k := s])"
    then obtain i where i: "i < length m" "isnan (m[k := s] ! i)"
      by (auto simp: list_ex_iff in_set_conv_nth)
    show False
    proof (cases "i = k")
      case True
      then show ?thesis using i assms(4) by simp
    next
      case False
      then show ?thesis using i assms(3) by simp
    qed
  qed
  show "slope_fallback D S 1 m s = Inr (Some (m[k := s]))"
    using ex c k n assms(1) by (simp add: slope_fallback_def)
qed

lemma slope_fallback_other:
  assumes "list_index (BANDS D S) ''slope'' = Inr k" "k < length m"
    "i < length m" "i \<noteq> k" "isnan (m ! i)"
  shows "slope_fallback D S 1 m s = Inr None"
proof -
  have "m ! i \<in> set m" using assms(3) by simp
  then have ex: "list_ex isnan m" unfolding list_ex_iff using assms(5) by blast
  have "\<not> (length (filter isnan m) = 1 \<and> isnan (m ! k))"
    using count_nan_two [OF assms(2,3,4,5)] by blast
  then show ?thesis using ex assms(1) by (auto simp: slope_fallback_def)
qed

lemma nan_to_num_cases:
  "isnan x \<Longrightarrow> nan_to_num x f = f"
  "nan_to_num (Val a) f = Val a"
  "nan_to_num PInf f = Val float_max"
  "nan_to_num NInf f = Val (- float_max)"
  by (cases x; simp)+

lemma nan_to_num_isnan: "isnan (nan_to_num x f) \<longleftrightarrow> isnan x \<and> isnan f"
  by (cases x) simp_all

lemma nan_to_num_isfinite: "isfinite f \<Longrightarrow> isfinite (nan_to_num x f)"
  by (cases x) simp_all

lemma fill_series_nth:
  "i < b \<Longrightarrow> fill_series b m r ! i = nan_to_num (r ! i) (m ! i)"
  by (simp add: fill_series_def)

lemma length_fill_series: "length (fill_series b m r) = b"
  by (simp add: fill_series_def)

lemma foldl_fadd_Val:
  "foldl fadd (Val a) (map Val xs) = Val (a + sum_list xs)"
  by (induction xs arbitrary: a) (simp_all add: add.assoc)

lemma nanmean_isnan_iff:
  assumes "\<forall>x\<in>set xs. isnan x \<or> isfinite x"
  shows "isnan (nanmean xs) \<longleftrightarrow> (\<forall>x\<in>set xs. isnan x)"
proof -
  define ys where "ys = map (\<lambda>x. case x of Val a \<Rightarrow> a | _ \<Rightarrow> 0) xs"
  have ys: "map (\<lambda>x. if isnan x then Val 0 else x) xs = map Val ys"
    unfolding ys_def map_map
  proof (rule map_cong [OF refl])
    fix x assume "x \<in> set xs"
    then have "isnan x \<or> isfinite x" using assms by blast
    then show "(if isnan x then Val 0 else x) = (Val \<circ> (\<lambda>x. case x of Val a \<Rightarrow> a | _ \<Rightarrow> 0)) x"
      by (cases x) simp_all
  qed
  have z: "sum_list ys = 0" if "\<forall>x\<in>set xs. isnan x"
  proof -
    have "ys = map (\<lambda>x. 0) xs"
      unfolding ys_def
    proof (rule map_cong [OF refl])
      fix x assume "x \<in> set xs"
      then have "isnan x" using that by blast
      then show "(case x of Val a \<Rightarrow> a | _ \<Rightarrow> 0) = (0 :: real)" by (cases x) simp_all
    qed
    then show ?thesis by simp
  qed
  have n: "nanmean xs = fdiv (Val (sum_list ys)) (Val (real (length (filter (\<lambda>x. \<not> isnan x) xs))))"
    by (simp add: nanmean_def ys foldl_fadd_Val)
  show ?thesis
  proof (cases "\<forall>x\<in>set xs. isnan x")
    case True
    then have "filter (\<lambda>x. \<not> isnan x) xs = []" by (simp add: filter_empty_conv)
    then show ?thesis using True z n by simp
  next
    case False
    then have "filter (\<lambda>x. \<not> isnan x) xs \<noteq> []" by (simp add: filter_empty_conv)
    then have "real (length (filter (\<lambda>x. \<not> isnan x) xs)) \<noteq> 0" by simp
    then show ?thesis using False n by simp
  qed
qed

lemma eo_BANDS:
  "BANDS eo_DYNAMIC_BANDS eo_STATIC_BANDS =
     [''VV'', ''VH'', ''B2'', ''B3'', ''B4'', ''B5'', ''B6'', ''B7'', ''B8'', ''B8A'',
      ''B9'', ''B11'', ''B12'', ''temperature_2m'', ''total_precipitation'',
      ''elevation'', ''slope'', ''NDVI'']"
  by (simp add: BANDS_def eo_DYNAMIC_BANDS_def eo_STATIC_BANDS_def REMOVED_BANDS_def)

lemma eo_slope: "list_index (BANDS eo_DYNAMIC_BANDS eo_STATIC_BANDS) ''slope'' = Inr 16"
  unfolding eo_BANDS by simp

lemma upt_18: "[0..<18] = [0, 1, 2, 3, 4, 5, 6, 7, 8, 9, 10, 11, 12, 13, 14, 15, 16, 17]"
  by (simp add: upt_rec)

lemma nanmean_single: "nanmean [Val a] = Val a" "nanmean [NaN] = NaN" "nanmean [PInf] = PInf"
  by (simp_all add: nanmean_def)

lemma fillna_rank3_slope:
  "fillna eo_DYNAMIC_BANDS eo_STATIC_BANDS
     (Arr3 1 18 [[[Val 1, Val 1, Val 1, Val 1, Val 1, Val 1, Val 1, Val 1, Val 1, Val 1,
                   Val 1, Val 1, Val 1, Val 1, Val 1, Val 1, NaN, Val 1]]]) (Val 3)
   = Inr None"
proof -
  have m: "mean_per_band3 1 18 [[[Val 1, Val 1, Val 1, Val 1, Val 1, Val 1, Val 1, Val 1, Val 1,
                   Val 1, Val 1, Val 1, Val 1, Val 1, Val 1, Val 1, NaN, Val 1]]]
      = [Val 1, Val 1, Val 1, Val 1, Val 1, Val 1, Val 1, Val 1, Val 1, Val 1,
                   Val 1, Val 1, Val 1, Val 1, Val 1, Val 1, NaN, Val 1]"
    by (simp add: mean_per_band3_def mean_per_band2_def column_def upt_18 nanmean_single)
  show ?thesis
    unfolding fillna.simps m by (simp add: slope_fallback_def eo_slope eo_BANDS)
qed

lemma fillna_nan_average_slope:
  "fillna eo_DYNAMIC_BANDS eo_STATIC_BANDS
     (Arr2 18 [[Val 1, Val 1, Val 1, Val 1, Val 1, Val 1, Val 1, Val 1, Val 1, Val 1,
                Val 1, Val 1, Val 1, Val 1, Val 1, Val 1, NaN, Val 1]]) NaN
   = Inl AssertionError"
proof -
  have m: "mean_per_band2 18 [[Val 1, Val 1, Val 1, Val 1, Val 1, Val 1, Val 1, Val 1, Val 1,
                   Val 1, Val 1, Val 1, Val 1, Val 1, Val 1, Val 1, NaN, Val 1]]
      = [Val 1, Val 1, Val 1, Val 1, Val 1, Val 1, Val 1, Val 1, Val 1, Val 1,
                   Val 1, Val 1, Val 1, Val 1, Val 1, Val 1, NaN, Val 1]"
    by (simp add: mean_per_band2_def column_def upt_18 nanmean_single)
  show ?thesis
    unfolding fillna.simps m by (simp add: slope_fallback_def eo_slope eo_BANDS)
qed

lemma fillna_infinite_entry:
  "fillna eo_DYNAMIC_BANDS eo_STATIC_BANDS
     (Arr2 18 [[PInf, Val 1, Val 1, Val 1, Val 1, Val 1, Val 1, Val 1, Val 1, Val 1,
                Val 1, Val 1, Val 1, Val 1, Val 1, Val 1, Val 1, Val 1],
               [Val 7, Val 1, Val 1, Val 1, Val 1, Val 1, Val 1, Val 1, Val 1, Val 1,
                Val 1, Val 1, Val 1, Val 1, Val 1, Val 1, Val 1, Val 1]]) (Val 3)
   = Inr (Some (Arr2 18 [[Val float_max, Val 1, Val 1, Val 1, Val 1, Val 1, Val 1, Val 1, Val 1,
                Val 1, Val 1, Val 1, Val 1, Val 1, Val 1, Val 1, Val 1, Val 1],
               [Val 7, Val 1, Val 1, Val 1, Val 1, Val 1, Val 1, Val 1, Val 1, Val 1,
                Val 1, Val 1, Val 1, Val 1, Val 1, Val 1, Val 1, Val 1]]))"
proof -
  have n: "nanmean [PInf, Val 7] = PInf" "nanmean [Val 1, Val 1] = Val 1"
    by (simp_all add: nanmean_def)
  have m: "mean_per_band2 18 [[PInf, Val 1, Val 1, Val 1, Val 1, Val 1, Val 1, Val 1, Val 1,
                   Val 1, Val 1, Val 1, Val 1, Val 1, Val 1, Val 1, Val 1, Val 1],
               [Val 7, Val 1, Val 1, Val 1, Val 1, Val 1, Val 1, Val 1, Val 1, Val 1,
                Val 1, Val 1, Val 1, Val 1, Val 1, Val 1, Val 1, Val 1]]
      = [PInf, Val 1, Val 1, Val 1, Val 1, Val 1, Val 1, Val 1, Val 1, Val 1,
                   Val 1, Val 1, Val 1, Val 1, Val 1, Val 1, Val 1, Val 1]"
    by (simp add: mean_per_band2_def column_def upt_18 n)
  show ?thesis
    unfolding fillna.simps m by (simp add: slope_fallback_def fill_series_def upt_18 eo_BANDS)
qed

lemma list_index_less:
  "list_index xs v = Inr k \<Longrightarrow> k < length xs"
proof (induction xs arbitrary: k)
  case Nil
  then show ?case by simp
next
  case (Cons x xs)
  then show ?case by (auto split: if_splits sum.splits)
qed

lemma mean_per_band2_nth:
  "i < b \<Longrightarrow> mean_per_band2 b rows ! i = nanmean (column i rows)"
  by (simp add: mean_per_band2_def)

lemma mean_per_band3_nth:
  "i < b \<Longrightarrow> mean_per_band3 t b pix ! i
     = nanmean (map (\<lambda>ti. nanmean (map (\<lambda>p. p ! ti ! i) pix)) [0..<t])"
  by (simp add: mean_per_band3_def mean_per_band2_def column_def comp_def)

lemma length_means [simp]:
  "length (mean_per_band2 b rows) = b" "length (mean_per_band3 t b pix) = b"
  by (simp_all add: mean_per_band2_def mean_per_band3_def)

lemma no_nan_iff:
  "\<not> list_ex isnan m \<longleftrightarrow> (\<forall>i<length m. \<not> isnan (m ! i))"
  by (metis in_set_conv_nth list_ex_iff)

lemma fill_entry:
  assumes "i < b"
  shows "(isnan (r ! i) \<longrightarrow> fill_series b m r ! i = m ! i)
       \<and> (isfinite (r ! i) \<longrightarrow> fill_series b m r ! i = r ! i)
       \<and> (\<not> isnan (m ! i) \<longrightarrow> \<not> isnan (fill_series b m r ! i))"
  using assms by (cases "r ! i") (simp_all add: fill_series_nth)

lemma fillna_rank2_plain:
  assumes "b = length (BANDS D S)" "\<forall>i<b. \<not> isnan (nanmean (column i rows))"
  shows "\<exists>rows'. fillna D S (Arr2 b rows) s = Inr (Some (Arr2 b rows'))
     \<and> length rows' = length rows
     \<and> (\<forall>r<length rows. length (rows' ! r) = b
          \<and> (\<forall>i<b. (isnan (rows ! r ! i) \<longrightarrow> rows' ! r ! i = nanmean (column i rows))
                 \<and> (isfinite (rows ! r ! i) \<longrightarrow> rows' ! r ! i = rows ! r ! i)))"
proof -
  let ?m = "mean_per_band2 b rows"
  have "\<not> list_ex isnan ?m"
    unfolding no_nan_iff using assms(2) by (simp add: mean_per_band2_nth)
  then have f: "fillna D S (Arr2 b rows) s = Inr (Some (Arr2 b (map (fill_series b ?m) rows)))"
    using assms(1) by (simp add: slope_fallback_no_nan)
  have "\<forall>r<length rows. length (map (fill_series b ?m) rows ! r) = b
          \<and> (\<forall>i<b. (isnan (rows ! r ! i) \<longrightarrow>
                      map (fill_series b ?m) rows ! r ! i = nanmean (column i rows))
                 \<and> (isfinite (rows ! r ! i) \<longrightarrow>
                      map (fill_series b ?m) rows ! r ! i = rows ! r ! i))"
    using fill_entry [of _ b _ ?m] by (simp add: length_fill_series mean_per_band2_nth)
  with f show ?thesis by (intro exI [of _ "map (fill_series b ?m) rows"]) simp
qed

lemma fillna_rank3_plain:
  assumes "b = length (BANDS D S)"
    "\<forall>i<b. \<not> isnan (nanmean (map (\<lambda>ti. nanmean (map (\<lambda>p. p ! ti ! i) pix)) [0..<t]))"
  shows "\<exists>pix'. fillna D S (Arr3 t b pix) s = Inr (Some (Arr3 t b pix'))
     \<and> length pix' = length pix
     \<and> (\<forall>n<length pix. length (pix' ! n) = length (pix ! n)
          \<and> (\<forall>r<length (pix ! n). length (pix' ! n ! r) = b
               \<and> (\<forall>i<b. (isnan (pix ! n ! r ! i) \<longrightarrow> pix' ! n ! r ! i
                              = nanmean (map (\<lambda>ti. nanmean (map (\<lambda>p. p ! ti ! i) pix)) [0..<t]))
                      \<and> (isfinite (pix ! n ! r ! i) \<longrightarrow> pix' ! n ! r ! i = pix ! n ! r ! i))))"
proof -
  let ?m = "mean_per_band3 t b pix"
  have "\<not> list_ex isnan ?m"
    unfolding no_nan_iff using assms(2) by (simp add: mean_per_band3_nth)
  then have f: "fillna D S (Arr3 t b pix) s
      = Inr (Some (Arr3 t b (map (map (fill_series b ?m)) pix)))"
    using assms(1) by (simp add: slope_fallback_no_nan)
  have "\<forall>n<length pix. length (map (map (fill_series b ?m)) pix ! n) = length (pix ! n)
          \<and> (\<forall>r<length (pix ! n). length (map (map (fill_series b ?m)) pix ! n ! r) = b
               \<and> (\<forall>i<b. (isnan (pix ! n ! r ! i) \<longrightarrow> map (map (fill_series b ?m)) pix ! n ! r ! i
                              = nanmean (map (\<lambda>ti. nanmean (map (\<lambda>p. p ! ti ! i) pix)) [0..<t]))
                      \<and> (isfinite (pix ! n ! r ! i) \<longrightarrow>
                            map (map (fill_series b ?m)) pix ! n ! r ! i = pix ! n ! r ! i)))"
    using fill_entry [of _ b _ ?m] by (simp add: length_fill_series mean_per_band3_nth)
  with f show ?thesis by (intro exI [of _ "map (map (fill_series b ?m)) pix"]) simp
qed

lemma fillna_rank2_slope:
  assumes "b = length (BANDS D S)" "list_index (BANDS D S) ''slope'' = Inr k"
    "\<forall>i<b. isnan (nanmean (column i rows)) \<longleftrightarrow> i = k" "\<not> isnan s"
  shows "\<exists>rows'. fillna D S (Arr2 b rows) s = Inr (Some (Arr2 b rows'))
     \<and> length rows' = length rows
     \<and> (\<forall>r<length rows. length (rows' ! r) = b
          \<and> (\<forall>i<b. \<not> isnan (rows' ! r ! i)
                 \<and> (isnan (rows ! r ! i) \<longrightarrow>
                      rows' ! r ! i = (if i = k then s else nanmean (column i rows)))
                 \<and> (isfinite (rows ! r ! i) \<longrightarrow> rows' ! r ! i = rows ! r ! i)))"
proof -
  let ?m = "mean_per_band2 b rows"
  let ?f = "?m[k := s]"
  have kb: "k < b" using list_index_less [OF assms(2)] assms(1) by simp
  have iff: "\<forall>i<length ?m. isnan (?m ! i) \<longleftrightarrow> i = k"
    using assms(3) by (simp add: mean_per_band2_nth)
  have sf: "slope_fallback D S 1 ?m s = Inr (Some ?f)" and nn: "\<not> list_ex isnan ?f"
    using slope_fallback_slope [OF assms(2) _ iff assms(4)] kb by simp_all
  have f: "fillna D S (Arr2 b rows) s = Inr (Some (Arr2 b (map (fill_series b ?f) rows)))"
    using assms(1) sf by simp
  have fi1: "\<And>i. i < b \<Longrightarrow> ?f ! i = (if i = k then s else nanmean (column i rows))"
    using kb by (simp add: mean_per_band2_nth nth_list_update)
  have fi2: "\<And>i. i < b \<Longrightarrow> \<not> isnan (?f ! i)"
    using nn unfolding no_nan_iff by simp
  have "\<forall>r<length rows. length (map (fill_series b ?f) rows ! r) = b
          \<and> (\<forall>i<b. \<not> isnan (map (fill_series b ?f) rows ! r ! i)
                 \<and> (isnan (rows ! r ! i) \<longrightarrow> map (fill_series b ?f) rows ! r ! i
                        = (if i = k then s else nanmean (column i rows)))
                 \<and> (isfinite (rows ! r ! i) \<longrightarrow>
                       map (fill_series b ?f) rows ! r ! i = rows ! r ! i))"
  proof (intro allI impI conjI)
    fix r assume "r < length rows"
    then show "length (map (fill_series b ?f) rows ! r) = b" by (simp add: length_fill_series)
  next
    fix r i assume r: "r < length rows" and i: "i < b"
    have "\<not> isnan (fill_series b ?f (rows ! r) ! i)"
      using fill_entry [OF i, of "rows ! r" ?f] fi2 [OF i] by blast
    then show "\<not> isnan (map (fill_series b ?f) rows ! r ! i)" using r by simp
  next
    fix r i assume r: "r < length rows" and i: "i < b" and n: "isnan (rows ! r ! i)"
    have "fill_series b ?f (rows ! r) ! i = ?f ! i"
      using fill_entry [OF i, of "rows ! r" ?f] n by blast
    then show "map (fill_series b ?f) rows ! r ! i = (if i = k then s else nanmean (column i rows))"
      using r fi1 [OF i] by simp
  next
    fix r i assume r: "r < length rows" and i: "i < b" and n: "isfinite (rows ! r ! i)"
    have "fill_series b ?f (rows ! r) ! i = rows ! r ! i"
      using fill_entry [OF i, of "rows ! r" ?f] n by blast
    then show "map (fill_series b ?f) rows ! r ! i = rows ! r ! i" using r by simp
  qed
  with f show ?thesis by (intro exI [of _ "map (fill_series b ?f) rows"]) simp
qed

lemma fillna_rank2_other:
  assumes "b = length (BANDS D S)" "list_index (BANDS D S) ''slope'' = Inr k"
    "i < b" "i \<noteq> k" "isnan (nanmean (column i rows))"
  shows "fillna D S (Arr2 b rows) s = Inr None"
proof -
  have kb: "k < b" using list_index_less [OF assms(2)] assms(1) by simp
  have "slope_fallback D S 1 (mean_per_band2 b rows) s = Inr None"
    using assms(3,4,5) kb
    by (intro slope_fallback_other [OF assms(2), where i = i]) (simp_all add: mean_per_band2_nth)
  then show ?thesis using assms(1) by simp
qed

text \<open>
  C2, as the code has it, for arrays with one band per entry of \<open>BANDS\<close>. When no
  band mean is NaN, \<open>fillna\<close> returns the array with every NaN entry replaced by the
  mean of its band and every finite entry unchanged; the band mean leaves NaN entries
  out, and is taken over the timesteps for rank 2, and over the timesteps of the
  per-timestep means over the pixels for rank 3. For rank 2, when the slope band is the
  only band whose mean is NaN and the average slope is not NaN, the average slope fills
  the slope band and the result holds no NaN; when a band other than the slope band has
  a NaN mean, the result is None. Among entries that are finite or NaN, a mean is NaN
  exactly when every entry is NaN.
\<close>

theorem fillna_imputes:
  "(\<forall>b rows. b = length (BANDS D S) \<and> (\<forall>i<b. \<not> isnan (nanmean (column i rows))) \<longrightarrow>
      (\<exists>rows'. fillna D S (Arr2 b rows) s = Inr (Some (Arr2 b rows'))
         \<and> length rows' = length rows
         \<and> (\<forall>r<length rows. length (rows' ! r) = b
              \<and> (\<forall>i<b. (isnan (rows ! r ! i) \<longrightarrow> rows' ! r ! i = nanmean (column i rows))
                     \<and> (isfinite (rows ! r ! i) \<longrightarrow> rows' ! r ! i = rows ! r ! i)))))
   \<and> (\<forall>t b pix. b = length (BANDS D S)
         \<and> (\<forall>i<b. \<not> isnan (nanmean (map (\<lambda>ti. nanmean (map (\<lambda>p. p ! ti ! i) pix)) [0..<t])))
       \<longrightarrow>
      (\<exists>pix'. fillna D S (Arr3 t b pix) s = Inr (Some (Arr3 t b pix'))
         \<and> length pix' = length pix
         \<and> (\<forall>n<length pix. length (pix' ! n) = length (pix ! n)
              \<and> (\<forall>r<length (pix ! n). length (pix' ! n ! r) = b
                   \<and> (\<forall>i<b. (isnan (pix ! n ! r ! i) \<longrightarrow> pix' ! n ! r ! i
                                  = nanmean (map (\<lambda>ti. nanmean (map (\<lambda>p. p ! ti ! i) pix)) [0..<t]))
                          \<and> (isfinite (pix ! n ! r ! i) \<longrightarrow>
                                pix' ! n ! r ! i = pix ! n ! r ! i))))))
   \<and> (\<forall>b rows k. b = length (BANDS D S) \<and> list_index (BANDS D S) ''slope'' = Inr k
         \<and> (\<forall>i<b. isnan (nanmean (column i rows)) \<longleftrightarrow> i = k) \<and> \<not> isnan s \<longrightarrow>
      (\<exists>rows'. fillna D S (Arr2 b rows) s = Inr (Some (Arr2 b rows'))
         \<and> length rows' = length rows
         \<and> (\<forall>r<length rows. length (rows' ! r) = b
              \<and> (\<forall>i<b. \<not> isnan (rows' ! r ! i)
                     \<and> (isnan (rows ! r ! i) \<longrightarrow>
                          rows' ! r ! i = (if i = k then s else nanmean (column i rows)))
                     \<and> (isfinite (rows ! r ! i) \<longrightarrow> rows' ! r ! i = rows ! r ! i)))))
   \<and> (\<forall>b rows k i. b = length (BANDS D S) \<and> list_index (BANDS D S) ''slope'' = Inr k
         \<and> i < b \<and> i \<noteq> k \<and> isnan (nanmean (column i rows)) \<longrightarrow>
       fillna D S (Arr2 b rows) s = Inr None)
   \<and> (\<forall>xs. (\<forall>x\<in>set xs. isnan x \<or> isfinite x) \<longrightarrow>
         (isnan (nanmean xs) \<longleftrightarrow> (\<forall>x\<in>set xs. isnan x)))"
proof (intro conjI allI impI)
  fix b rows
  assume "b = length (BANDS D S) \<and> (\<forall>i<b. \<not> isnan (nanmean (column i rows)))"
  then show "\<exists>rows'. fillna D S (Arr2 b rows) s = Inr (Some (Arr2 b rows'))
         \<and> length rows' = length rows
         \<and> (\<forall>r<length rows. length (rows' ! r) = b
              \<and> (\<forall>i<b. (isnan (rows ! r ! i) \<longrightarrow> rows' ! r ! i = nanmean (column i rows))
                     \<and> (isfinite (rows ! r ! i) \<longrightarrow> rows' ! r ! i = rows ! r ! i)))"
    by (intro fillna_rank2_plain) blast+
next
  fix t b pix
  assume "b = length (BANDS D S)
         \<and> (\<forall>i<b. \<not> isnan (nanmean (map (\<lambda>ti. nanmean (map (\<lambda>p. p ! ti ! i) pix)) [0..<t])))"
  then show "\<exists>pix'. fillna D S (Arr3 t b pix) s = Inr (Some (Arr3 t b pix'))
         \<and> length pix' = length pix
         \<and> (\<forall>n<length pix. length (pix' ! n) = length (pix ! n)
              \<and> (\<forall>r<length (pix ! n). length (pix' ! n ! r) = b
                   \<and> (\<forall>i<b. (isnan (pix ! n ! r ! i) \<longrightarrow> pix' ! n ! r ! i
                                  = nanmean (map (\<lambda>ti. nanmean (map (\<lambda>p. p ! ti ! i) pix)) [0..<t]))
                          \<and> (isfinite (pix ! n ! r ! i) \<longrightarrow>
                                pix' ! n ! r ! i = pix ! n ! r ! i))))"
    by (intro fillna_rank3_plain) blast+
next
  fix b rows k
  assume "b = length (BANDS D S) \<and> list_index (BANDS D S) ''slope'' = Inr k
         \<and> (\<forall>i<b. isnan (nanmean (column i rows)) \<longleftrightarrow> i = k) \<and> \<not> isnan s"
  then show "\<exists>rows'. fillna D S (Arr2 b rows) s = Inr (Some (Arr2 b rows'))
         \<and> length rows' = length rows
         \<and> (\<forall>r<length rows. length (rows' ! r) = b
              \<and> (\<forall>i<b. \<not> isnan (rows' ! r ! i)
                     \<and> (isnan (rows ! r ! i) \<longrightarrow>
                          rows' ! r ! i = (if i = k then s else nanmean (column i rows)))
                     \<and> (isfinite (rows ! r ! i) \<longrightarrow> rows' ! r ! i = rows ! r ! i)))"
    by (intro fillna_rank2_slope) blast+
next
  fix b rows k i
  assume "b = length (BANDS D S) \<and> list_index (BANDS D S) ''slope'' = Inr k
         \<and> i < b \<and> i \<noteq> k \<and> isnan (nanmean (column i rows))"
  then show "fillna D S (Arr2 b rows) s = Inr None"
    by (intro fillna_rank2_other [where k = k and i = i]) blast+
next
  fix xs assume "\<forall>x\<in>set xs. isnan x \<or> isfinite x"
  then show "isnan (nanmean xs) \<longleftrightarrow> (\<forall>x\<in>set xs. isnan x)" by (rule nanmean_isnan_iff)
qed

lemma ex_BANDS: "BANDS ex_DYNAMIC_BANDS ex_STATIC_BANDS = [''B4'', ''B8'', ''slope'', ''NDVI'']"
  by (simp add: BANDS_def ex_DYNAMIC_BANDS_def ex_STATIC_BANDS_def REMOVED_BANDS_def)

lemma less_4: "i < 4 \<longleftrightarrow> i = 0 \<or> i = 1 \<or> i = 2 \<or> i = (3 :: nat)"
  by auto

text \<open>
  The theorem in the small catalog, where the slope band is band 2: an all-NaN slope
  band is filled with the average slope 5; a single NaN of band 1 is filled with the
  band mean 7; two all-NaN bands give None.
\<close>

theorem fillna_imputes_witness:
  "list_index (BANDS ex_DYNAMIC_BANDS ex_STATIC_BANDS) ''slope'' = Inr 2
   \<and> (4 :: nat) = length (BANDS ex_DYNAMIC_BANDS ex_STATIC_BANDS)
   \<and> \<not> isnan (Val 5)
   \<and> (\<exists>rows'. fillna ex_DYNAMIC_BANDS ex_STATIC_BANDS
                 (Arr2 4 [[Val 5, Val 7, NaN, Val (1 / 2)], [Val 9, Val 7, NaN, Val 0]]) (Val 5)
               = Inr (Some (Arr2 4 rows'))
         \<and> rows' ! 0 ! 2 = Val 5 \<and> rows' ! 1 ! 2 = Val 5 \<and> rows' ! 0 ! 0 = Val 5)
   \<and> (\<exists>rows'. fillna ex_DYNAMIC_BANDS ex_STATIC_BANDS
                 (Arr2 4 [[Val 5, Val 7, Val 1, Val (1 / 2)], [Val 9, NaN, Val 1, Val 0]]) (Val 5)
               = Inr (Some (Arr2 4 rows'))
         \<and> rows' ! 1 ! 1 = Val 7)
   \<and> fillna ex_DYNAMIC_BANDS ex_STATIC_BANDS
        (Arr2 4 [[Val 5, NaN, NaN, Val (1 / 2)], [Val 9, NaN, NaN, Val 0]]) (Val 5) = Inr None"
proof -
  note t = fillna_imputes [of ex_DYNAMIC_BANDS ex_STATIC_BANDS "Val 5"]
  note plain = t [THEN conjunct1, rule_format]
  note slope = t [THEN conjunct2, THEN conjunct2, THEN conjunct1, rule_format]
  note other = t [THEN conjunct2, THEN conjunct2, THEN conjunct2, THEN conjunct1, rule_format]
  have k: "list_index (BANDS ex_DYNAMIC_BANDS ex_STATIC_BANDS) ''slope'' = Inr 2"
    and b: "(4 :: nat) = length (BANDS ex_DYNAMIC_BANDS ex_STATIC_BANDS)"
    by (simp_all add: ex_BANDS)
  have s: "\<not> isnan (Val 5)" by simp
  let ?r1 = "[[Val 5, Val 7, NaN, Val (1 / 2)], [Val 9, Val 7, NaN, Val 0]]"
  have m1: "\<forall>i<4. isnan (nanmean (column i ?r1)) \<longleftrightarrow> i = 2"
    by (simp add: less_4 column_def nanmean_def)
  have h1: "4 = length (BANDS ex_DYNAMIC_BANDS ex_STATIC_BANDS)
      \<and> list_index (BANDS ex_DYNAMIC_BANDS ex_STATIC_BANDS) ''slope'' = Inr 2
      \<and> (\<forall>i<4. isnan (nanmean (column i ?r1)) \<longleftrightarrow> i = 2) \<and> \<not> isnan (Val 5)"
    using b k m1 s by (intro conjI)
  from slope [OF h1] obtain rows1 where
    r1: "fillna ex_DYNAMIC_BANDS ex_STATIC_BANDS (Arr2 4 ?r1) (Val 5) = Inr (Some (Arr2 4 rows1))"
    and e1: "\<forall>r<length ?r1. length (rows1 ! r) = 4
         \<and> (\<forall>i<4. \<not> isnan (rows1 ! r ! i)
               \<and> (isnan (?r1 ! r ! i) \<longrightarrow>
                    rows1 ! r ! i = (if i = 2 then Val 5 else nanmean (column i ?r1)))
               \<and> (isfinite (?r1 ! r ! i) \<longrightarrow> rows1 ! r ! i = ?r1 ! r ! i))"
    by blast
  have c1: "rows1 ! 0 ! 2 = Val 5" "rows1 ! 1 ! 2 = Val 5" "rows1 ! 0 ! 0 = Val 5"
    using e1 [rule_format, of 0, THEN conjunct2, rule_format, of 2]
      e1 [rule_format, of 1, THEN conjunct2, rule_format, of 2]
      e1 [rule_format, of 0, THEN conjunct2, rule_format, of 0]
    by simp_all
  let ?r2 = "[[Val 5, Val 7, Val 1, Val (1 / 2)], [Val 9, NaN, Val 1, Val 0]]"
  have m2: "\<forall>i<4. \<not> isnan (nanmean (column i ?r2))"
    by (simp add: less_4 column_def nanmean_def)
  have h2: "4 = length (BANDS ex_DYNAMIC_BANDS ex_STATIC_BANDS)
      \<and> (\<forall>i<4. \<not> isnan (nanmean (column i ?r2)))"
    using b m2 by (intro conjI)
  from plain [OF h2] obtain rows2 where
    r2: "fillna ex_DYNAMIC_BANDS ex_STATIC_BANDS (Arr2 4 ?r2) (Val 5) = Inr (Some (Arr2 4 rows2))"
    and e2: "\<forall>r<length ?r2. length (rows2 ! r) = 4
         \<and> (\<forall>i<4. (isnan (?r2 ! r ! i) \<longrightarrow> rows2 ! r ! i = nanmean (column i ?r2))
               \<and> (isfinite (?r2 ! r ! i) \<longrightarrow> rows2 ! r ! i = ?r2 ! r ! i))"
    by blast
  have "rows2 ! 1 ! 1 = nanmean (column 1 ?r2)"
    using e2 [rule_format, of 1, THEN conjunct2, rule_format, of 1] by simp
  then have c2: "rows2 ! 1 ! 1 = Val 7" by (simp add: column_def nanmean_def)
  let ?r3 = "[[Val 5, NaN, NaN, Val (1 / 2)], [Val 9, NaN, NaN, Val 0]]"
  have h3: "4 = length (BANDS ex_DYNAMIC_BANDS ex_STATIC_BANDS)
      \<and> list_index (BANDS ex_DYNAMIC_BANDS ex_STATIC_BANDS) ''slope'' = Inr 2
      \<and> (1 :: nat) < 4 \<and> (1 :: nat) \<noteq> 2 \<and> isnan (nanmean (column 1 ?r3))"
    using b k by (simp add: column_def nanmean_def)
  have c3: "fillna ex_DYNAMIC_BANDS ex_STATIC_BANDS (Arr2 4 ?r3) (Val 5) = Inr None"
    by (rule other [OF h3])
  from r1 c1 have x1: "\<exists>rows'. fillna ex_DYNAMIC_BANDS ex_STATIC_BANDS (Arr2 4 ?r1) (Val 5)
               = Inr (Some (Arr2 4 rows'))
         \<and> rows' ! 0 ! 2 = Val 5 \<and> rows' ! 1 ! 2 = Val 5 \<and> rows' ! 0 ! 0 = Val 5"
    by (intro exI [of _ rows1] conjI)
  from r2 c2 have x2: "\<exists>rows'. fillna ex_DYNAMIC_BANDS ex_STATIC_BANDS (Arr2 4 ?r2) (Val 5)
               = Inr (Some (Arr2 4 rows'))
         \<and> rows' ! 1 ! 1 = Val 7"
    by (intro exI [of _ rows2] conjI)
  from k b s x1 x2 c3 show ?thesis by (intro conjI)
qed

text \<open>
  C2 as stated fails in three places, shown in the catalog of the release, where slope is
  band 16. A NaN average slope trips the assertion instead of filling the slope band. An
  infinite entry beside the finite entry 7 of its band becomes the largest float, not 7.
  And for rank 3 an
  all-NaN slope band alone gives None: the number of NaN means, 1, is compared with the
  index 2 of the band axis.
\<close>

theorem fillna_not_as_stated:
  "fillna eo_DYNAMIC_BANDS eo_STATIC_BANDS
     (Arr2 18 [[Val 1, Val 1, Val 1, Val 1, Val 1, Val 1, Val 1, Val 1, Val 1, Val 1,
                Val 1, Val 1, Val 1, Val 1, Val 1, Val 1, NaN, Val 1]]) NaN
   = Inl AssertionError
   \<and> fillna eo_DYNAMIC_BANDS eo_STATIC_BANDS
     (Arr2 18 [[PInf, Val 1, Val 1, Val 1, Val 1, Val 1, Val 1, Val 1, Val 1, Val 1,
                Val 1, Val 1, Val 1, Val 1, Val 1, Val 1, Val 1, Val 1],
               [Val 7, Val 1, Val 1, Val 1, Val 1, Val 1, Val 1, Val 1, Val 1, Val 1,
                Val 1, Val 1, Val 1, Val 1, Val 1, Val 1, Val 1, Val 1]]) (Val 3)
   = Inr (Some (Arr2 18 [[Val float_max, Val 1, Val 1, Val 1, Val 1, Val 1, Val 1, Val 1, Val 1,
                Val 1, Val 1, Val 1, Val 1, Val 1, Val 1, Val 1, Val 1, Val 1],
               [Val 7, Val 1, Val 1, Val 1, Val 1, Val 1, Val 1, Val 1, Val 1, Val 1,
                Val 1, Val 1, Val 1, Val 1, Val 1, Val 1, Val 1, Val 1]]))
   \<and> fillna eo_DYNAMIC_BANDS eo_STATIC_BANDS
     (Arr3 1 18 [[[Val 1, Val 1, Val 1, Val 1, Val 1, Val 1, Val 1, Val 1, Val 1, Val 1,
                   Val 1, Val 1, Val 1, Val 1, Val 1, Val 1, NaN, Val 1]]]) (Val 3)
   = Inr None
   \<and> list_index (BANDS eo_DYNAMIC_BANDS eo_STATIC_BANDS) ''slope'' = Inr 16"
  using fillna_nan_average_slope fillna_infinite_entry fillna_rank3_slope eo_slope by blast

end
